theory Spec2Isabelle
  imports Complex_Main "HOL-Library.Word" "HOL-Library.While_Combinator"
begin

section \<open>Numeric conventions\<close>

text \<open>
  The engine's \<^verbatim>\<open>float\<close> and \<^verbatim>\<open>double\<close> values are idealised as
  \<^typ>\<open>real\<close>: comparisons and the four arithmetic operations are the exact ones.
  Entity indices and array positions (\<^verbatim>\<open>i32\<close> in the source) are \<^typ>\<open>int\<close>;
  \<^verbatim>\<open>INVALID_ENTITY\<close> is the index \<open>-1\<close>.
\<close>

section \<open>Blend1D: selection of the active pair (nodes.cpp, getActivePair)\<close>

text \<open>\<^verbatim>\<open>Blend1DNode::Child { float value; u32 slot; }\<close>\<close>

record Blend1D_Child =
  b1_value :: real
  b1_slot :: nat

text \<open>
  \<^verbatim>\<open>Blend1DActivePair { const Child* a; const Child* b; float t; }\<close>: the two
  pointers are positions in the child array, \<^verbatim>\<open>nullptr\<close> is \<open>None\<close>.
\<close>

record Blend1DActivePair =
  pair_a :: nat
  pair_b :: "nat option"
  pair_t :: real

text \<open>
  The \<^verbatim>\<open>for (u32 i = 1, c = children.size(); i < c; ++i)\<close> loop. \<open>None\<close> means the
  loop ran to its end without returning.
\<close>

function getActivePair_loop :: "Blend1D_Child list \<Rightarrow> real \<Rightarrow> nat \<Rightarrow> Blend1DActivePair option" where
  "getActivePair_loop children input_val i =
     (if i < length children then
        (if input_val < b1_value (children ! i) then
           Some \<lparr> pair_a = i - 1, pair_b = Some i,
                  pair_t = (input_val - b1_value (children ! (i - 1)))
                           / (b1_value (children ! i) - b1_value (children ! (i - 1))) \<rparr>
         else getActivePair_loop children input_val (i + 1))
      else None)"
  by pat_completeness auto
termination
  by (relation "measure (\<lambda>(children, input_val, i). length children - i)") auto

text \<open>
  \<^verbatim>\<open>getActivePair\<close>. Reading \<^verbatim>\<open>children[0]\<close> of an empty array is outside the
  array: the model returns \<open>None\<close> there.
\<close>

definition getActivePair :: "Blend1D_Child list \<Rightarrow> real \<Rightarrow> Blend1DActivePair option" where
  "getActivePair children input_val =
     (if children = [] then None
      else if input_val > b1_value (children ! 0) then
        (if input_val \<ge> b1_value (last children) then
           Some \<lparr> pair_a = length children - 1, pair_b = None, pair_t = 0 \<rparr>
         else
           (case getActivePair_loop children input_val 1 of
              Some r \<Rightarrow> Some r
            | None \<Rightarrow> Some \<lparr> pair_a = 0, pair_b = None, pair_t = 0 \<rparr>))
      else Some \<lparr> pair_a = 0, pair_b = None, pair_t = 0 \<rparr>)"

section \<open>Animator tick: the inverse-kinematics loop (animation_module.cpp, updateAnimator)\<close>

text \<open>\<^verbatim>\<open>Animator::IK { float weight = 0; Vec3 target; }\<close>\<close>

record IK =
  ik_weight :: real
  ik_target :: "real \<times> real \<times> real"

text \<open>
  \<^verbatim>\<open>for (Animator::IK& ik : animator.inverse_kinematics) { if (ik.weight == 0) break; ... updateIK(animator.resource->m_ik[idx], ik, *pose, *model); }\<close>
  The solver \<^verbatim>\<open>updateIK\<close> is a parameter: it receives the slot index, the slot and
  the pose, and returns the pose. The second argument of \<open>ik_loop\<close> is the index of the
  first slot of the list.
\<close>

fun ik_loop :: "(nat \<Rightarrow> IK \<Rightarrow> 'pose \<Rightarrow> 'pose) \<Rightarrow> nat \<Rightarrow> IK list \<Rightarrow> 'pose \<Rightarrow> 'pose" where
  "ik_loop updateIK idx [] pose = pose"
| "ik_loop updateIK idx (ik # iks) pose =
     (if ik_weight ik = 0 then pose
      else ik_loop updateIK (idx + 1) iks (updateIK idx ik pose))"


section \<open>Blend2D: Delaunay triangulation of the children (nodes.cpp, Blend2DNode::dataChanged)\<close>

type_synonym Vec2 = "real \<times> real"

text \<open>
  The \<^verbatim>\<open>Vec2\<close> operations of \<^verbatim>\<open>engine/math.h\<close> that the triangulation uses,
  componentwise as their names say. \<^verbatim>\<open>Vec2::ortho\<close> is left a parameter of the
  triangulation: the sources do not fix which of the two orthogonal vectors it returns.
\<close>

definition vec2_sub :: "Vec2 \<Rightarrow> Vec2 \<Rightarrow> Vec2" where
  "vec2_sub u v = (fst u - fst v, snd u - snd v)"

definition vec2_add :: "Vec2 \<Rightarrow> Vec2 \<Rightarrow> Vec2" where
  "vec2_add u v = (fst u + fst v, snd u + snd v)"

definition vec2_mul :: "Vec2 \<Rightarrow> real \<Rightarrow> Vec2" where
  "vec2_mul u k = (fst u * k, snd u * k)"

definition vec2_div :: "Vec2 \<Rightarrow> real \<Rightarrow> Vec2" where
  "vec2_div u k = (fst u / k, snd u / k)"

definition squaredLength :: "Vec2 \<Rightarrow> real" where
  "squaredLength u = fst u * fst u + snd u * snd u"

definition minimum2 :: "Vec2 \<Rightarrow> Vec2 \<Rightarrow> Vec2" where
  "minimum2 u v = (min (fst u) (fst v), min (snd u) (snd v))"

definition maximum2 :: "Vec2 \<Rightarrow> Vec2 \<Rightarrow> Vec2" where
  "maximum2 u v = (max (fst u) (fst v), max (snd u) (snd v))"

definition FLT_MAX :: real where
  "FLT_MAX = 340282346638528859811704183484516925440"

text \<open>\<^verbatim>\<open>Blend2DNode::Child { Vec2 value; u32 slot; }\<close>\<close>

record Blend2D_Child =
  b2_value :: Vec2
  b2_slot :: nat

text \<open>\<^verbatim>\<open>Blend2DNode::Triangle { u32 a, b, c; Vec2 circumcircle_center; }\<close>\<close>

record Triangle =
  tri_a :: nat
  tri_b :: nat
  tri_c :: nat
  circumcircle_center :: Vec2

text \<open>The local \<^verbatim>\<open>struct Edge { u32 a, b; bool valid = true; }\<close> and its \<^verbatim>\<open>operator ==\<close>.\<close>

record Edge =
  edge_a :: nat
  edge_b :: nat
  edge_valid :: bool

definition edge_eq :: "Edge \<Rightarrow> Edge \<Rightarrow> bool" where
  "edge_eq e rhs = (edge_a e = edge_a rhs \<and> edge_b e = edge_b rhs
                    \<or> edge_a e = edge_b rhs \<and> edge_b e = edge_a rhs)"

text \<open>
  The container operations of \<^verbatim>\<open>engine/array.h\<close>: \<^verbatim>\<open>swapAndPop(i)\<close> moves the last
  item to position \<open>i\<close> and drops the last position; \<^verbatim>\<open>eraseItems(f)\<close> removes the
  items on which \<open>f\<close> holds and keeps the others in order.
\<close>

definition swapAndPop :: "nat \<Rightarrow> 'a list \<Rightarrow> 'a list" where
  "swapAndPop i xs = (if i = length xs - 1 then butlast xs else butlast (xs[i := last xs]))"

definition eraseItems :: "('a \<Rightarrow> bool) \<Rightarrow> 'a list \<Rightarrow> 'a list" where
  "eraseItems f xs = filter (\<lambda>x. \<not> f x) xs"

definition computeCircumcircleCenter :: "(Vec2 \<Rightarrow> Vec2) \<Rightarrow> Vec2 \<Rightarrow> Vec2 \<Rightarrow> Vec2 \<Rightarrow> Vec2" where
  "computeCircumcircleCenter ortho a b c =
     (let dab = vec2_sub b a;
          dac = vec2_sub c a;
          ofs = vec2_div (ortho (vec2_sub (vec2_mul dac (squaredLength dab)) (vec2_mul dab (squaredLength dac))))
                       ((fst dab * snd dac - snd dab * fst dac) * 2)
      in vec2_add ofs a)"

text \<open>The lambda \<^verbatim>\<open>pushTriangle\<close>; it reads the child array as it is when called.\<close>

definition pushTriangle :: "(Vec2 \<Rightarrow> Vec2) \<Rightarrow> Blend2D_Child list \<Rightarrow> nat \<Rightarrow> nat \<Rightarrow> nat \<Rightarrow> Triangle list \<Rightarrow> Triangle list" where
  "pushTriangle ortho m_children a b c m_triangles =
     m_triangles @ [\<lparr> tri_a = a, tri_b = b, tri_c = c,
                      circumcircle_center = computeCircumcircleCenter ortho
                        (b2_value (m_children ! a)) (b2_value (m_children ! b)) (b2_value (m_children ! c)) \<rparr>]"

text \<open>
  \<^verbatim>\<open>for (i32 ti = m_triangles.size() - 1; ti >= 0; --ti)\<close>: the first numeric argument
  is \<open>ti + 1\<close>. A triangle whose circumcircle holds \<open>p\<close> gives its three edges and is
  removed.
\<close>

primrec collect_bad_triangles ::
  "Blend2D_Child list \<Rightarrow> Vec2 \<Rightarrow> nat \<Rightarrow> Triangle list \<Rightarrow> Edge list \<Rightarrow> Triangle list \<times> Edge list" where
  "collect_bad_triangles m_children p 0 m_triangles edges = (m_triangles, edges)"
| "collect_bad_triangles m_children p (Suc ti) m_triangles edges =
     (let t = m_triangles ! ti; center = circumcircle_center t in
      if squaredLength (vec2_sub p center)
           > squaredLength (vec2_sub (b2_value (m_children ! tri_a t)) center)
      then collect_bad_triangles m_children p ti m_triangles edges
      else collect_bad_triangles m_children p ti (swapAndPop ti m_triangles)
             (edges @ [\<lparr> edge_a = tri_a t, edge_b = tri_b t, edge_valid = True \<rparr>,
                       \<lparr> edge_a = tri_b t, edge_b = tri_c t, edge_valid = True \<rparr>,
                       \<lparr> edge_a = tri_c t, edge_b = tri_a t, edge_valid = True \<rparr>]))"

text \<open>\<^verbatim>\<open>for (i32 j = i - 1; j >= 0; --j)\<close>: the second argument is \<open>j + 1\<close>.\<close>

primrec invalidate_inner :: "nat \<Rightarrow> nat \<Rightarrow> Edge list \<Rightarrow> Edge list" where
  "invalidate_inner i 0 edges = edges"
| "invalidate_inner i (Suc j) edges =
     invalidate_inner i j
       (if edge_eq (edges ! i) (edges ! j)
        then (edges[i := (edges ! i)\<lparr> edge_valid := False \<rparr>])
               [j := ((edges[i := (edges ! i)\<lparr> edge_valid := False \<rparr>]) ! j)\<lparr> edge_valid := False \<rparr>]
        else edges)"

text \<open>\<^verbatim>\<open>for (i32 i = edges.size() - 1; i > 0; --i)\<close>: the argument is \<open>i\<close>.\<close>

primrec invalidate_outer :: "nat \<Rightarrow> Edge list \<Rightarrow> Edge list" where
  "invalidate_outer 0 edges = edges"
| "invalidate_outer (Suc i) edges = invalidate_outer i (invalidate_inner (Suc i) (Suc i) edges)"

text \<open>One round of the loop over the real children \<open>ch\<close>.\<close>

definition insert_child :: "(Vec2 \<Rightarrow> Vec2) \<Rightarrow> Blend2D_Child list \<Rightarrow> nat \<Rightarrow> Triangle list \<Rightarrow> Triangle list" where
  "insert_child ortho m_children ch m_triangles =
     (let p = b2_value (m_children ! ch);
          (ts, edges) = collect_bad_triangles m_children p (length m_triangles) m_triangles [];
          edges1 = invalidate_outer (length edges - 1) edges;
          edges2 = eraseItems (\<lambda>e. \<not> edge_valid e) edges1
      in fold (\<lambda>e. pushTriangle ortho m_children (edge_a e) (edge_b e) ch) edges2 ts)"

text \<open>
  \<^verbatim>\<open>Blend2DNode::dataChanged\<close>: the state is the pair of \<^verbatim>\<open>m_children\<close> and
  \<^verbatim>\<open>m_triangles\<close>; the result is the pair after the call. The slot of a synthetic
  child is never read; it is 0 here.
\<close>

definition dataChanged :: "(Vec2 \<Rightarrow> Vec2) \<Rightarrow> Blend2D_Child list \<times> Triangle list \<Rightarrow> Blend2D_Child list \<times> Triangle list" where
  "dataChanged ortho st =
     (let m_children = fst st in
      if length m_children < 3 then (m_children, [])
      else
        let mn = fold (\<lambda>i m. minimum2 m (b2_value i)) m_children (FLT_MAX, FLT_MAX);
            mx = fold (\<lambda>i m. maximum2 m (b2_value i)) m_children (- FLT_MAX, - FLT_MAX);
            d = vec2_sub mx mn;
            dmax = max (fst d) (snd d);
            mid = vec2_mul (vec2_add mx mn) (1 / 2);
            cs = m_children @
                 [\<lparr> b2_value = (fst mid - 20 * dmax, snd mid - dmax), b2_slot = 0 \<rparr>,
                  \<lparr> b2_value = (fst mid, snd mid + 20 * dmax), b2_slot = 0 \<rparr>,
                  \<lparr> b2_value = (fst mid + 20 * dmax, snd mid - dmax), b2_slot = 0 \<rparr>];
            t0 = pushTriangle ortho cs (length cs - 3) (length cs - 1) 0
                   (pushTriangle ortho cs (length cs - 2) (length cs - 3) 0
                     (pushTriangle ortho cs (length cs - 1) (length cs - 2) 0 []));
            ts = fold (insert_child ortho cs) [1 ..< length cs - 3] t0;
            cs' = butlast (butlast (butlast cs));
            s = length cs'
        in (cs', eraseItems (\<lambda>t. tri_a t \<ge> s \<or> tri_b t \<ge> s \<or> tri_c t \<ge> s) ts))"

section \<open>The World: entities, transforms and the hierarchy (world.cpp)\<close>

type_synonym Vec3 = "real \<times> real \<times> real"
type_synonym Quat = "real \<times> real \<times> real \<times> real"

text \<open>\<^verbatim>\<open>Transform { DVec3 pos; Quat rot; Vec3 scale; }\<close>\<close>

record Transform =
  tr_pos :: Vec3
  tr_rot :: Quat
  tr_scale :: Vec3

text \<open>
  \<^verbatim>\<open>Transform::operator*\<close> and \<^verbatim>\<open>Transform::inverted\<close> are declared in
  \<^verbatim>\<open>engine/math.h\<close>, which is not among the sources: the operations that use them
  take them as a parameter.
\<close>

record TransformOps =
  t_mul :: "Transform \<Rightarrow> Transform \<Rightarrow> Transform"
  t_inverted :: "Transform \<Rightarrow> Transform"

text \<open>
  \<^verbatim>\<open>EntityData\<close>: the position of the hierarchy record (or \<open>-1\<close>), the position of
  the name (or \<open>-1\<close>), the partition, the component mask, the links of the free list
  and the liveness flag.
\<close>

record EntityData =
  ed_hierarchy :: int
  ed_name :: int
  ed_partition :: nat
  ed_components :: "64 word"
  ed_prev :: int
  ed_next :: int
  ed_valid :: bool

text \<open>\<^verbatim>\<open>Hierarchy { EntityRef entity; EntityPtr parent, first_child, next_sibling; Transform local_transform; }\<close>\<close>

record Hierarchy =
  h_entity :: int
  h_parent :: int
  h_first_child :: int
  h_next_sibling :: int
  h_local_transform :: Transform

record EntityName =
  en_entity :: int
  en_name :: string

text \<open>
  The members of \<^verbatim>\<open>World\<close> that the operations below read or write. \<open>m_log\<close>
  collects the messages of \<^verbatim>\<open>logError\<close>.
\<close>

record World =
  m_entities :: "EntityData list"
  m_transforms :: "Transform list"
  m_hierarchy :: "Hierarchy list"
  m_names :: "EntityName list"
  m_first_free_slot :: int
  m_active_partition :: nat
  m_log :: "string list"

definition INVALID_ENTITY :: int where
  "INVALID_ENTITY = -1"

text \<open>\<^verbatim>\<open>EntityPtr::isValid\<close>\<close>

definition isValid :: "int \<Rightarrow> bool" where
  "isValid e = (e \<ge> 0)"

text \<open>The constructor \<^verbatim>\<open>World::World\<close>: no entity, no free slot, the partition \<open>main\<close> (handle 0) active.\<close>

definition new_World :: World where
  "new_World = \<lparr> m_entities = [], m_transforms = [], m_hierarchy = [], m_names = [],
                 m_first_free_slot = -1, m_active_partition = 0, m_log = [] \<rparr>"

definition getTransform :: "World \<Rightarrow> int \<Rightarrow> Transform" where
  "getTransform w entity = m_transforms w ! nat entity"

definition getPosition :: "World \<Rightarrow> int \<Rightarrow> Vec3" where
  "getPosition w entity = tr_pos (m_transforms w ! nat entity)"

definition getRotation :: "World \<Rightarrow> int \<Rightarrow> Quat" where
  "getRotation w entity = tr_rot (m_transforms w ! nat entity)"

definition getScale :: "World \<Rightarrow> int \<Rightarrow> Vec3" where
  "getScale w entity = tr_scale (m_transforms w ! nat entity)"

definition hasEntity :: "World \<Rightarrow> int \<Rightarrow> bool" where
  "hasEntity w entity =
     (entity \<ge> 0 \<and> entity < int (length (m_entities w)) \<and> ed_valid (m_entities w ! nat entity))"

text \<open>\<^verbatim>\<open>m_entities[entity.index].hierarchy\<close> and \<^verbatim>\<open>m_hierarchy[idx]\<close>.\<close>

definition hierarchy_idx :: "World \<Rightarrow> int \<Rightarrow> int" where
  "hierarchy_idx w entity = ed_hierarchy (m_entities w ! nat entity)"

definition hierarchy_at :: "World \<Rightarrow> int \<Rightarrow> Hierarchy" where
  "hierarchy_at w idx = m_hierarchy w ! nat idx"


definition getFirstChild :: "World \<Rightarrow> int \<Rightarrow> int" where
  "getFirstChild w entity =
     (let idx = hierarchy_idx w entity in
      if idx < 0 then INVALID_ENTITY else h_first_child (hierarchy_at w idx))"

definition getNextSibling :: "World \<Rightarrow> int \<Rightarrow> int" where
  "getNextSibling w entity =
     (let idx = hierarchy_idx w entity in
      if idx < 0 then INVALID_ENTITY else h_next_sibling (hierarchy_at w idx))"

text \<open>
  \<^verbatim>\<open>World::createEntity\<close>: the new world and the entity. The first branch takes the
  head of the free list, the second grows the two dense arrays. The fields of a record
  that \<^verbatim>\<open>emplace()\<close> adds and the function does not assign are those of
  \<open>fresh_EntityData\<close>.
\<close>

definition fresh_EntityData :: EntityData where
  "fresh_EntityData = \<lparr> ed_hierarchy = -1, ed_name = -1, ed_partition = 0, ed_components = 0,
                        ed_prev = -1, ed_next = -1, ed_valid = False \<rparr>"

definition createEntity :: "World \<Rightarrow> Vec3 \<Rightarrow> Quat \<Rightarrow> World \<times> int" where
  "createEntity w position rotation =
     (let (ents, trs, entity, free) =
            (if m_first_free_slot w \<ge> 0 then
               (let slot = m_first_free_slot w;
                    nxt = ed_next (m_entities w ! nat slot);
                    ents1 = (if nxt \<ge> 0
                             then (m_entities w)[nat nxt := (m_entities w ! nat nxt)\<lparr> ed_prev := -1 \<rparr>]
                             else m_entities w)
                in (ents1, m_transforms w, slot, nxt))
             else
               (m_entities w @ [fresh_EntityData],
                m_transforms w @ [\<lparr> tr_pos = (0, 0, 0), tr_rot = (0, 0, 0, 1), tr_scale = (1, 1, 1) \<rparr>],
                int (length (m_entities w)), m_first_free_slot w));
          tr = \<lparr> tr_pos = position, tr_rot = rotation, tr_scale = (1, 1, 1) \<rparr>;
          data = (ents ! nat entity)\<lparr> ed_partition := m_active_partition w, ed_name := -1,
                    ed_hierarchy := -1, ed_components := 0, ed_valid := True \<rparr>
      in (w\<lparr> m_entities := ents[nat entity := data],
              m_transforms := trs[nat entity := tr],
              m_first_free_slot := free \<rparr>, entity))"

subsection \<open>The hierarchy\<close>

text \<open>
  \<^verbatim>\<open>World::isDescendant\<close>. The range loop over \<^verbatim>\<open>childrenOf(ancestor)\<close> starts at
  the first child and follows the next-sibling links until \<^verbatim>\<open>INVALID_ENTITY\<close>;
  \<open>isDescendant_loop w e d\<close> is the rest of that loop from the child \<open>e\<close> on. A
  traversal that does not end has the value \<open>None\<close>.
\<close>

partial_function (option) isDescendant_loop :: "World \<Rightarrow> int \<Rightarrow> int \<Rightarrow> bool option" where
  "isDescendant_loop w e descendant =
     (if e = INVALID_ENTITY then Some False
      else if e = descendant then Some True
      else Option.bind (isDescendant_loop w (getFirstChild w e) descendant)
             (\<lambda>found. if found then Some True
                       else isDescendant_loop w (getNextSibling w e) descendant))"

declare isDescendant_loop.simps [code]

definition isDescendant :: "World \<Rightarrow> int \<Rightarrow> int \<Rightarrow> bool option" where
  "isDescendant w ancestor descendant = isDescendant_loop w (getFirstChild w ancestor) descendant"

text \<open>
  A place that holds an entity reference inside \<^verbatim>\<open>m_hierarchy\<close> (the target of the
  pointer \<^verbatim>\<open>EntityPtr* x\<close> of \<^verbatim>\<open>setParent\<close>): the first-child field or the
  next-sibling field of the record at a position.
\<close>

datatype link = FirstChildOf int | NextSiblingOf int

fun read_link :: "World \<Rightarrow> link \<Rightarrow> int" where
  "read_link w (FirstChildOf idx) = h_first_child (hierarchy_at w idx)"
| "read_link w (NextSiblingOf idx) = h_next_sibling (hierarchy_at w idx)"

definition set_parent_at :: "int \<Rightarrow> int \<Rightarrow> World \<Rightarrow> World" where
  "set_parent_at idx v w = w\<lparr> m_hierarchy := (m_hierarchy w)[nat idx := (hierarchy_at w idx)\<lparr> h_parent := v \<rparr>] \<rparr>"

definition set_first_child_at :: "int \<Rightarrow> int \<Rightarrow> World \<Rightarrow> World" where
  "set_first_child_at idx v w = w\<lparr> m_hierarchy := (m_hierarchy w)[nat idx := (hierarchy_at w idx)\<lparr> h_first_child := v \<rparr>] \<rparr>"

definition set_next_sibling_at :: "int \<Rightarrow> int \<Rightarrow> World \<Rightarrow> World" where
  "set_next_sibling_at idx v w = w\<lparr> m_hierarchy := (m_hierarchy w)[nat idx := (hierarchy_at w idx)\<lparr> h_next_sibling := v \<rparr>] \<rparr>"

definition set_local_transform_at :: "int \<Rightarrow> Transform \<Rightarrow> World \<Rightarrow> World" where
  "set_local_transform_at idx v w = w\<lparr> m_hierarchy := (m_hierarchy w)[nat idx := (hierarchy_at w idx)\<lparr> h_local_transform := v \<rparr>] \<rparr>"

fun write_link :: "link \<Rightarrow> int \<Rightarrow> World \<Rightarrow> World" where
  "write_link (FirstChildOf idx) v w = set_first_child_at idx v w"
| "write_link (NextSiblingOf idx) v w = set_next_sibling_at idx v w"

text \<open>
  The loop of \<^verbatim>\<open>setParent\<close> that takes \<open>child\<close> out of the sibling list of its old
  parent: \<^verbatim>\<open>while (x->isValid()) { if (*x == child) { *x = getNextSibling(child); break; } x = &m_hierarchy[m_entities[x->index].hierarchy].next_sibling; }\<close>
\<close>

partial_function (option) unlink_loop :: "World \<Rightarrow> link \<Rightarrow> int \<Rightarrow> World option" where
  "unlink_loop w x child =
     (if isValid (read_link w x) then
        (if read_link w x = child then Some (write_link x (getNextSibling w child) w)
         else unlink_loop w (NextSiblingOf (hierarchy_idx w (read_link w x))) child)
      else Some w)"

declare unlink_loop.simps [code]

text \<open>The lambda \<^verbatim>\<open>collectGarbage\<close> of \<^verbatim>\<open>setParent\<close>.\<close>

definition collectGarbage :: "int \<Rightarrow> World \<Rightarrow> World" where
  "collectGarbage entity w =
     (let idx = hierarchy_idx w entity; h = hierarchy_at w idx in
      if isValid (h_parent h) then w
      else if isValid (h_first_child h) then w
      else
        (let lst = last (m_hierarchy w);
             ents1 = (m_entities w)[nat (h_entity lst) :=
                        (m_entities w ! nat (h_entity lst))\<lparr> ed_hierarchy := hierarchy_idx w entity \<rparr>];
             ents2 = ents1[nat entity := (ents1 ! nat entity)\<lparr> ed_hierarchy := -1 \<rparr>]
         in w\<lparr> m_entities := ents2, m_hierarchy := butlast ((m_hierarchy w)[nat idx := lst]) \<rparr>))"

text \<open>
  \<^verbatim>\<open>Hierarchy& h = m_hierarchy.emplace(); h.entity = e; h.parent = h.first_child = h.next_sibling = INVALID_ENTITY;\<close>
  after \<^verbatim>\<open>m_entities[e.index].hierarchy = m_hierarchy.size()\<close>. The local transform of
  the new record is not assigned there; \<open>lt\<close> stands for what \<^verbatim>\<open>emplace()\<close> leaves.
\<close>

definition emplace_hierarchy :: "Transform \<Rightarrow> int \<Rightarrow> World \<Rightarrow> World" where
  "emplace_hierarchy lt e w =
     w\<lparr> m_entities := (m_entities w)[nat e := (m_entities w ! nat e)\<lparr> ed_hierarchy := int (length (m_hierarchy w)) \<rparr>],
        m_hierarchy := m_hierarchy w @
          [\<lparr> h_entity = e, h_parent = INVALID_ENTITY, h_first_child = INVALID_ENTITY,
             h_next_sibling = INVALID_ENTITY, h_local_transform = lt \<rparr>] \<rparr>"

definition default_Transform :: Transform where
  "default_Transform = \<lparr> tr_pos = (0, 0, 0), tr_rot = (0, 0, 0, 1), tr_scale = (1, 1, 1) \<rparr>"

text \<open>
  \<^verbatim>\<open>World::setParent\<close>. \<open>None\<close>: one of its loops does not end. A rejected call
  (the new parent is a descendant of the child) logs the error and changes nothing else.
\<close>

definition setParent :: "TransformOps \<Rightarrow> int \<Rightarrow> int \<Rightarrow> World \<Rightarrow> World option" where
  "setParent ops new_parent child w =
     Option.bind (if isValid new_parent then isDescendant w child new_parent else Some False)
       (\<lambda>would_create_cycle.
          if would_create_cycle then Some (w\<lparr> m_log := m_log w @ [''Hierarchy can not contains a cycle.''] \<rparr>)
          else
            Option.bind
              (let child_idx = hierarchy_idx w child in
               if child_idx \<ge> 0 then
                 (let old_parent = h_parent (hierarchy_at w child_idx) in
                  if isValid old_parent then
                    Option.bind (unlink_loop w (FirstChildOf (hierarchy_idx w old_parent)) child)
                      (\<lambda>w1. let w2 = set_parent_at child_idx INVALID_ENTITY w1;
                                 w3 = set_next_sibling_at child_idx INVALID_ENTITY w2;
                                 w4 = collectGarbage old_parent w3
                             in Some (w4, hierarchy_idx w4 child))
                  else Some (w, child_idx))
               else if isValid new_parent then
                 Some (emplace_hierarchy default_Transform child w, int (length (m_hierarchy w)))
               else Some (w, child_idx))
              (\<lambda>(w5, child_idx).
                 if isValid new_parent then
                   (let (w6, new_parent_idx) =
                          (if hierarchy_idx w5 new_parent < 0
                           then (emplace_hierarchy default_Transform new_parent w5, int (length (m_hierarchy w5)))
                           else (w5, hierarchy_idx w5 new_parent));
                        w7 = set_parent_at child_idx new_parent w6;
                        parent_tr = getTransform w7 new_parent;
                        child_tr = getTransform w7 child;
                        w8 = set_local_transform_at child_idx (t_mul ops (t_inverted ops parent_tr) child_tr) w7;
                        w9 = set_next_sibling_at child_idx (h_first_child (hierarchy_at w8 new_parent_idx)) w8
                    in Some (set_first_child_at new_parent_idx child w9))
                 else Some (if child_idx \<ge> 0 then collectGarbage child w5 else w5)))"

text \<open>
  \<^verbatim>\<open>World::transformEntity\<close>. The function calls itself on every child with
  \<^verbatim>\<open>update_local = false\<close>; \<open>transformEntity_children\<close> is its loop over the
  children from \<open>child\<close> on, with that inner call written out (it is the same loop, over
  the children of the child). \<open>None\<close>: the traversal does not end.
\<close>

partial_function (option) transformEntity_children :: "TransformOps \<Rightarrow> World \<Rightarrow> Transform \<Rightarrow> int \<Rightarrow> World option" where
  "transformEntity_children ops w my_transform child =
     (if isValid child then
        (let child_idx = hierarchy_idx w child;
             abs_tr = t_mul ops my_transform (h_local_transform (hierarchy_at w child_idx));
             w1 = w\<lparr> m_transforms := (m_transforms w)[nat child := abs_tr] \<rparr>
         in Option.bind
              (if hierarchy_idx w1 child \<ge> 0
               then transformEntity_children ops w1 (getTransform w1 child)
                      (h_first_child (hierarchy_at w1 (hierarchy_idx w1 child)))
               else Some w1)
              (\<lambda>w2. transformEntity_children ops w2 my_transform
                       (h_next_sibling (hierarchy_at w2 child_idx))))
      else Some w)"

declare transformEntity_children.simps [code]

definition transformEntity :: "TransformOps \<Rightarrow> int \<Rightarrow> bool \<Rightarrow> World \<Rightarrow> World option" where
  "transformEntity ops entity update_local w =
     (let idx = hierarchy_idx w entity in
      if idx \<ge> 0 then
        (let h = hierarchy_at w idx;
             my_transform = getTransform w entity;
             w1 = (if update_local \<and> isValid (h_parent h)
                   then set_local_transform_at idx
                          (t_mul ops (t_inverted ops (getTransform w (h_parent h))) my_transform) w
                   else w)
         in transformEntity_children ops w1 my_transform (h_first_child (hierarchy_at w1 idx)))
      else Some w)"

definition setTransform :: "TransformOps \<Rightarrow> int \<Rightarrow> Transform \<Rightarrow> World \<Rightarrow> World option" where
  "setTransform ops entity transform w =
     transformEntity ops entity True (w\<lparr> m_transforms := (m_transforms w)[nat entity := transform] \<rparr>)"

definition setPosition :: "TransformOps \<Rightarrow> int \<Rightarrow> Vec3 \<Rightarrow> World \<Rightarrow> World option" where
  "setPosition ops entity p w =
     transformEntity ops entity True
       (w\<lparr> m_transforms := (m_transforms w)[nat entity := (m_transforms w ! nat entity)\<lparr> tr_pos := p \<rparr>] \<rparr>)"

definition setScale :: "TransformOps \<Rightarrow> int \<Rightarrow> Vec3 \<Rightarrow> World \<Rightarrow> World option" where
  "setScale ops entity sc w =
     transformEntity ops entity True
       (w\<lparr> m_transforms := (m_transforms w)[nat entity := (m_transforms w ! nat entity)\<lparr> tr_scale := sc \<rparr>] \<rparr>)"

text \<open>
  \<^verbatim>\<open>World::updateGlobalTransform\<close>; \<^verbatim>\<open>ASSERT(h.parent.isValid())\<close>: a record
  without a parent gives no result.
\<close>

definition updateGlobalTransform :: "TransformOps \<Rightarrow> int \<Rightarrow> World \<Rightarrow> World option" where
  "updateGlobalTransform ops entity w =
     (let h = hierarchy_at w (hierarchy_idx w entity) in
      if isValid (h_parent h) then
        (let parent_tr = getTransform w (h_parent h);
             new_tr = t_mul ops parent_tr (h_local_transform h)
         in setTransform ops entity new_tr w)
      else None)"

definition setLocalPosition :: "TransformOps \<Rightarrow> int \<Rightarrow> Vec3 \<Rightarrow> World \<Rightarrow> World option" where
  "setLocalPosition ops entity p w =
     (let idx = hierarchy_idx w entity in
      if idx < 0 then setPosition ops entity p w
      else updateGlobalTransform ops entity
             (set_local_transform_at idx ((h_local_transform (hierarchy_at w idx))\<lparr> tr_pos := p \<rparr>) w))"

subsection \<open>Destroying an entity\<close>

text \<open>
  \<^verbatim>\<open>for (EntityPtr first_child = getFirstChild(entity); first_child.isValid(); first_child = getFirstChild(entity)) setParent(INVALID_ENTITY, (EntityRef)first_child);\<close>
\<close>

partial_function (option) detach_children :: "TransformOps \<Rightarrow> int \<Rightarrow> World \<Rightarrow> World option" where
  "detach_children ops entity w =
     (if isValid (getFirstChild w entity)
      then Option.bind (setParent ops INVALID_ENTITY (getFirstChild w entity) w) (detach_children ops entity)
      else Some w)"

declare detach_children.simps [code]

text \<open>
  \<^verbatim>\<open>ComponentType::MAX_TYPES_COUNT\<close>: the mask is a \<^verbatim>\<open>u64\<close>, one bit per type.
\<close>

definition MAX_TYPES_COUNT :: nat where
  "MAX_TYPES_COUNT = 64"

text \<open>\<^verbatim>\<open>World::onComponentDestroyed\<close>: clears the bit of the type in the mask of the entity.\<close>

definition onComponentDestroyed :: "int \<Rightarrow> nat \<Rightarrow> World \<Rightarrow> World" where
  "onComponentDestroyed entity type_idx w =
     w\<lparr> m_entities := (m_entities w)[nat entity :=
          (m_entities w ! nat entity)\<lparr> ed_components :=
             and (ed_components (m_entities w ! nat entity)) (not (push_bit type_idx 1)) \<rparr>] \<rparr>"

text \<open>
  The loop of \<^verbatim>\<open>destroyEntity\<close> over the component types. The destroyer registered
  for a type belongs to the scene that owns the type; its effect on the world is the call of
  \<^verbatim>\<open>onComponentDestroyed\<close> that the loop asserts (the mask must differ afterwards).
\<close>

definition destroy_components :: "int \<Rightarrow> World \<Rightarrow> World" where
  "destroy_components entity w =
     fold (\<lambda>i w'. if bit (ed_components (m_entities w' ! nat entity)) i
                   then onComponentDestroyed entity i w' else w')
          [0 ..< MAX_TYPES_COUNT] w"

text \<open>The rest of \<^verbatim>\<open>destroyEntity\<close>: the slot goes to the head of the free list, the name is released.\<close>

definition release_slot :: "int \<Rightarrow> World \<Rightarrow> World" where
  "release_slot entity w =
     (let ents1 = (m_entities w)[nat entity := (m_entities w ! nat entity)
                     \<lparr> ed_next := m_first_free_slot w, ed_prev := -1, ed_hierarchy := -1, ed_valid := False \<rparr>];
          ents2 = (if m_first_free_slot w \<ge> 0
                   then ents1[nat (m_first_free_slot w) := (ents1 ! nat (m_first_free_slot w))\<lparr> ed_prev := entity \<rparr>]
                   else ents1);
          name_idx = ed_name (ents2 ! nat entity);
          (ents3, names) =
            (if name_idx \<ge> 0 then
               (let ents2a = ents2[nat (en_entity (last (m_names w))) :=
                               (ents2 ! nat (en_entity (last (m_names w))))\<lparr> ed_name := name_idx \<rparr>]
                in (ents2a[nat entity := (ents2a ! nat entity)\<lparr> ed_name := -1 \<rparr>],
                    swapAndPop (nat name_idx) (m_names w)))
             else (ents2, m_names w))
      in w\<lparr> m_entities := ents3, m_names := names, m_first_free_slot := entity \<rparr>)"

text \<open>
  \<^verbatim>\<open>World::destroyEntity\<close>; \<^verbatim>\<open>ASSERT(entity_data.valid)\<close>: no result for an
  entity that is not live.
\<close>

definition destroyEntity :: "TransformOps \<Rightarrow> int \<Rightarrow> World \<Rightarrow> World option" where
  "destroyEntity ops entity w =
     (if ed_valid (m_entities w ! nat entity) then
        Option.bind (detach_children ops entity w)
          (\<lambda>w1. Option.bind (setParent ops INVALID_ENTITY entity w1)
             (\<lambda>w2. Some (release_slot entity (destroy_components entity w2))))
      else None)"

text \<open>
  \<^verbatim>\<open>World::setEntityName\<close>; \<^verbatim>\<open>copyString\<close> into the fixed-size buffer is taken
  to keep the whole name.
\<close>

definition setEntityName :: "int \<Rightarrow> string \<Rightarrow> World \<Rightarrow> World" where
  "setEntityName entity name w =
     (let name_idx = ed_name (m_entities w ! nat entity) in
      if name_idx < 0 then
        (if name = [] then w
         else w\<lparr> m_entities := (m_entities w)[nat entity :=
                     (m_entities w ! nat entity)\<lparr> ed_name := int (length (m_names w)) \<rparr>],
                 m_names := m_names w @ [\<lparr> en_entity = entity, en_name = name \<rparr>] \<rparr>)
      else w\<lparr> m_names := (m_names w)[nat name_idx := (m_names w ! nat name_idx)\<lparr> en_name := name \<rparr>] \<rparr>)"

definition getEntityName :: "World \<Rightarrow> int \<Rightarrow> string" where
  "getEntityName w entity =
     (let name_idx = ed_name (m_entities w ! nat entity) in
      if name_idx < 0 then [] else en_name (m_names w ! nat name_idx))"

subsection \<open>Serialization\<close>

text \<open>
  The stream is the sequence of the values written, each with its type; a read of another
  type than the value at the cursor, or past the end, has no result.
\<close>

datatype blob_item = U32 nat | Ent int | DV3 Vec3 | Qt Quat | V3 Vec3 | Flt real | Str string

definition serialize :: "World \<Rightarrow> blob_item list" where
  "serialize w =
     [U32 (length (m_entities w))]
     @ concat (map (\<lambda>i. if ed_valid (m_entities w ! i)
                         then [Ent (int i), DV3 (tr_pos (m_transforms w ! i)),
                               Qt (tr_rot (m_transforms w ! i)), V3 (tr_scale (m_transforms w ! i))]
                         else [])
                   [0 ..< length (m_entities w)])
     @ [Ent INVALID_ENTITY]
     @ [U32 (length (m_names w))]
     @ concat (map (\<lambda>n. [Ent (en_entity n), Str (en_name n)]) (m_names w))
     @ [U32 (length (m_hierarchy w))]
     @ concat (map (\<lambda>h. [Ent (h_entity h), Ent (h_parent h), Ent (h_first_child h), Ent (h_next_sibling h),
                          DV3 (tr_pos (h_local_transform h)), Qt (tr_rot (h_local_transform h)),
                          V3 (tr_scale (h_local_transform h))])
                   (m_hierarchy w))"

text \<open>\<^verbatim>\<open>EntityMap\<close>: \<^verbatim>\<open>m_map\<close> as a list; the two overloads of \<^verbatim>\<open>get\<close> and \<^verbatim>\<open>set\<close>.\<close>

definition EntityMap_get_ptr :: "int list \<Rightarrow> int \<Rightarrow> int" where
  "EntityMap_get_ptr m_map e =
     (if isValid e \<and> e < int (length m_map) then m_map ! nat e else INVALID_ENTITY)"

definition EntityMap_get_ref :: "int list \<Rightarrow> int \<Rightarrow> int" where
  "EntityMap_get_ref m_map e = m_map ! nat e"

definition EntityMap_set :: "int list \<Rightarrow> int \<Rightarrow> int \<Rightarrow> int list" where
  "EntityMap_set m_map src dst =
     (m_map @ replicate (nat src + 1 - length m_map) INVALID_ENTITY)[nat src := dst]"

text \<open>Typed reads at the cursor: the value and the rest of the stream.\<close>

fun read_U32 :: "blob_item list \<Rightarrow> (nat \<times> blob_item list) option" where
  "read_U32 (U32 n # rest) = Some (n, rest)"
| "read_U32 _ = None"

fun read_Ent :: "blob_item list \<Rightarrow> (int \<times> blob_item list) option" where
  "read_Ent (Ent e # rest) = Some (e, rest)"
| "read_Ent _ = None"

fun read_DV3 :: "blob_item list \<Rightarrow> (Vec3 \<times> blob_item list) option" where
  "read_DV3 (DV3 v # rest) = Some (v, rest)"
| "read_DV3 _ = None"

fun read_Qt :: "blob_item list \<Rightarrow> (Quat \<times> blob_item list) option" where
  "read_Qt (Qt q # rest) = Some (q, rest)"
| "read_Qt _ = None"

fun read_V3 :: "blob_item list \<Rightarrow> (Vec3 \<times> blob_item list) option" where
  "read_V3 (V3 v # rest) = Some (v, rest)"
| "read_V3 _ = None"

fun read_Flt :: "blob_item list \<Rightarrow> (real \<times> blob_item list) option" where
  "read_Flt (Flt x # rest) = Some (x, rest)"
| "read_Flt _ = None"

fun read_Str :: "blob_item list \<Rightarrow> (string \<times> blob_item list) option" where
  "read_Str (Str x # rest) = Some (x, rest)"
| "read_Str _ = None"

text \<open>
  The scale of a transform as \<^verbatim>\<open>deserialize\<close> reads it: a \<^verbatim>\<open>Vec3\<close> when
  \<^verbatim>\<open>vec3_scale\<close> is set, otherwise a \<^verbatim>\<open>float\<close> (into \<^verbatim>\<open>scale.x\<close>) and a
  padding \<^verbatim>\<open>float\<close>; in the second case the two other components are left as they
  are (\<open>old\<close>).
\<close>

definition read_scale :: "bool \<Rightarrow> Vec3 \<Rightarrow> blob_item list \<Rightarrow> (Vec3 \<times> blob_item list) option" where
  "read_scale vec3_scale old blob =
     (if vec3_scale then read_V3 blob
      else Option.bind (read_Flt blob)
             (\<lambda>(sx, blob1). Option.bind (read_Flt blob1)
                (\<lambda>(padding, blob2). Some ((sx, fst (snd old), snd (snd old)), blob2))))"

text \<open>
  The body of the first loop of \<^verbatim>\<open>World::deserialize\<close> after the entity \<open>e\<close> has
  been read. Its last statement,
  \<^verbatim>\<open>scale.y = scale.z = scale.x\<close>, is outside the \<^verbatim>\<open>if (vec3_scale)\<close>.
\<close>

definition deserialize_entity ::
  "bool \<Rightarrow> int \<Rightarrow> blob_item list \<Rightarrow> World \<Rightarrow> int list \<Rightarrow> (blob_item list \<times> World \<times> int list) option" where
  "deserialize_entity vec3_scale e blob w entity_map =
     (let (w1, new_e) = createEntity w (0, 0, 0) (0, 0, 0, 1);
          entity_map1 = EntityMap_set entity_map e new_e
      in Option.bind (read_DV3 blob)
           (\<lambda>(p, blob1). Option.bind (read_Qt blob1)
              (\<lambda>(r, blob2). Option.bind (read_scale vec3_scale (tr_scale (m_transforms w1 ! nat new_e)) blob2)
                 (\<lambda>(sc, blob3).
                    Some (blob3,
                          w1\<lparr> m_transforms := (m_transforms w1)[nat new_e :=
                                \<lparr> tr_pos = p, tr_rot = r, tr_scale = (fst sc, fst sc, fst sc) \<rparr>] \<rparr>,
                          entity_map1)))))"

text \<open>
  \<^verbatim>\<open>for (EntityPtr e = serializer.read<EntityPtr>(); e.isValid(); e = serializer.read<EntityPtr>())\<close>.
  The first argument bounds the number of rounds by the number of values left in the
  stream, of which every round reads at least one.
\<close>

fun deserialize_entities ::
  "nat \<Rightarrow> bool \<Rightarrow> blob_item list \<Rightarrow> World \<Rightarrow> int list \<Rightarrow> (blob_item list \<times> World \<times> int list) option" where
  "deserialize_entities 0 vec3_scale blob w entity_map = None"
| "deserialize_entities (Suc n) vec3_scale blob w entity_map =
     Option.bind (read_Ent blob)
       (\<lambda>(e, blob1).
          if isValid e then
            Option.bind (deserialize_entity vec3_scale e blob1 w entity_map)
              (\<lambda>(blob2, w1, entity_map1). deserialize_entities n vec3_scale blob2 w1 entity_map1)
          else Some (blob1, w, entity_map))"

text \<open>The loop over the names: \<open>count\<close> records.\<close>

fun deserialize_names :: "nat \<Rightarrow> blob_item list \<Rightarrow> World \<Rightarrow> int list \<Rightarrow> (blob_item list \<times> World) option" where
  "deserialize_names 0 blob w entity_map = Some (blob, w)"
| "deserialize_names (Suc count) blob w entity_map =
     Option.bind (read_Ent blob)
       (\<lambda>(e, blob1). Option.bind (read_Str blob1)
          (\<lambda>(name, blob2).
             let e' = EntityMap_get_ref entity_map e
             in deserialize_names count blob2
                  (w\<lparr> m_names := m_names w @ [\<lparr> en_entity = e', en_name = name \<rparr>],
                      m_entities := (m_entities w)[nat e' :=
                         (m_entities w ! nat e')\<lparr> ed_name := int (length (m_names w)) \<rparr>] \<rparr>)
                  entity_map))"

text \<open>
  One record of the hierarchy table, read into position \<open>old_count + i\<close>. Here the copy of
  \<^verbatim>\<open>scale.x\<close> is inside the \<^verbatim>\<open>else\<close> branch.
\<close>

definition deserialize_hierarchy_record ::
  "bool \<Rightarrow> nat \<Rightarrow> nat \<Rightarrow> blob_item list \<Rightarrow> World \<Rightarrow> int list \<Rightarrow> (blob_item list \<times> World) option" where
  "deserialize_hierarchy_record vec3_scale old_count i blob w entity_map =
     Option.bind (read_Ent blob)
       (\<lambda>(e, blob1). Option.bind (read_Ent blob1)
          (\<lambda>(par, blob2). Option.bind (read_Ent blob2)
             (\<lambda>(fc, blob3). Option.bind (read_Ent blob3)
                (\<lambda>(ns, blob4). Option.bind (read_DV3 blob4)
                   (\<lambda>(p, blob5). Option.bind (read_Qt blob5)
                      (\<lambda>(r, blob6). Option.bind
                           (read_scale vec3_scale
                              (tr_scale (h_local_transform (m_hierarchy w ! (old_count + i)))) blob6)
                         (\<lambda>(sc, blob7).
                            let sc' = (if vec3_scale then sc else (fst sc, fst sc, fst sc));
                                h = \<lparr> h_entity = EntityMap_get_ref entity_map e,
                                      h_parent = EntityMap_get_ptr entity_map par,
                                      h_first_child = EntityMap_get_ptr entity_map fc,
                                      h_next_sibling = EntityMap_get_ptr entity_map ns,
                                      h_local_transform = \<lparr> tr_pos = p, tr_rot = r, tr_scale = sc' \<rparr> \<rparr>
                            in Some (blob7,
                                 w\<lparr> m_hierarchy := (m_hierarchy w)[old_count + i := h],
                                    m_entities := (m_entities w)[nat (h_entity h) :=
                                      (m_entities w ! nat (h_entity h))\<lparr> ed_hierarchy := int (i + old_count) \<rparr>] \<rparr>))))))))"

text \<open>
  The loop over the hierarchy records, after \<^verbatim>\<open>m_hierarchy.resize(count + old_count)\<close>:
  \<open>i\<close> runs from 0, \<open>n\<close> records are left to read.
\<close>

fun deserialize_hierarchy ::
  "bool \<Rightarrow> nat \<Rightarrow> nat \<Rightarrow> nat \<Rightarrow> blob_item list \<Rightarrow> World \<Rightarrow> int list \<Rightarrow> (blob_item list \<times> World) option" where
  "deserialize_hierarchy vec3_scale old_count i 0 blob w entity_map = Some (blob, w)"
| "deserialize_hierarchy vec3_scale old_count i (Suc n) blob w entity_map =
     Option.bind (deserialize_hierarchy_record vec3_scale old_count i blob w entity_map)
       (\<lambda>(blob1, w1). deserialize_hierarchy vec3_scale old_count (i + 1) n blob1 w1 entity_map)"

text \<open>
  \<^verbatim>\<open>World::deserialize\<close>: the world and the entity map after the call. The records
  that \<^verbatim>\<open>resize\<close> adds are overwritten by the loop.
\<close>

definition deserialize :: "blob_item list \<Rightarrow> int list \<Rightarrow> bool \<Rightarrow> World \<Rightarrow> (World \<times> int list) option" where
  "deserialize blob entity_map vec3_scale w =
     Option.bind (read_U32 blob)
       (\<lambda>(to_reserve, blob1). Option.bind (deserialize_entities (length blob1) vec3_scale blob1 w entity_map)
          (\<lambda>(blob2, w1, entity_map1). Option.bind (read_U32 blob2)
             (\<lambda>(count, blob3). Option.bind (deserialize_names count blob3 w1 entity_map1)
                (\<lambda>(blob4, w2). Option.bind (read_U32 blob4)
                   (\<lambda>(hcount, blob5).
                      let old_count = length (m_hierarchy w2);
                          w3 = w2\<lparr> m_hierarchy := m_hierarchy w2 @
                                  replicate hcount \<lparr> h_entity = 0, h_parent = 0, h_first_child = 0,
                                     h_next_sibling = 0, h_local_transform = default_Transform \<rparr> \<rparr>
                      in Option.bind (deserialize_hierarchy vec3_scale old_count 0 hcount blob5 w3 entity_map1)
                           (\<lambda>(blob6, w4). Some (w4, entity_map1)))))))"

subsection \<open>An instance of the transform operations\<close>

text \<open>
  Scaled rigid transforms composed in the usual way: the position of \<open>a * b\<close> is the
  position of \<open>b\<close>, scaled by \<open>a\<close>, rotated by \<open>a\<close> and moved by the position of \<open>a\<close>;
  rotations multiply as quaternions, scales multiply componentwise.
\<close>

definition vec3_add :: "Vec3 \<Rightarrow> Vec3 \<Rightarrow> Vec3" where
  "vec3_add u v = (case (u, v) of ((x, y, z), (x', y', z')) \<Rightarrow> (x + x', y + y', z + z'))"

definition vec3_mul :: "Vec3 \<Rightarrow> Vec3 \<Rightarrow> Vec3" where
  "vec3_mul u v = (case (u, v) of ((x, y, z), (x', y', z')) \<Rightarrow> (x * x', y * y', z * z'))"

definition vec3_cross :: "Vec3 \<Rightarrow> Vec3 \<Rightarrow> Vec3" where
  "vec3_cross u v = (case (u, v) of ((x, y, z), (x', y', z')) \<Rightarrow>
                       (y * z' - z * y', z * x' - x * z', x * y' - y * x'))"

definition quat_rotate :: "Quat \<Rightarrow> Vec3 \<Rightarrow> Vec3" where
  "quat_rotate q v = (case q of (x, y, z, w) \<Rightarrow>
     (let uv = vec3_cross (x, y, z) v; uuv = vec3_cross (x, y, z) uv
      in vec3_add v (vec3_add (vec3_mul uv (2 * w, 2 * w, 2 * w)) (vec3_mul uuv (2, 2, 2)))))"

definition quat_mul :: "Quat \<Rightarrow> Quat \<Rightarrow> Quat" where
  "quat_mul q r = (case (q, r) of ((x, y, z, w), (x', y', z', w')) \<Rightarrow>
     (w * x' + w' * x + y * z' - y' * z,
      w * y' + w' * y + z * x' - z' * x,
      w * z' + w' * z + x * y' - x' * y,
      w * w' - x * x' - y * y' - z * z'))"

definition rigid_mul :: "Transform \<Rightarrow> Transform \<Rightarrow> Transform" where
  "rigid_mul a b =
     \<lparr> tr_pos = vec3_add (quat_rotate (tr_rot a) (vec3_mul (tr_pos b) (tr_scale a))) (tr_pos a),
       tr_rot = quat_mul (tr_rot a) (tr_rot b),
       tr_scale = vec3_mul (tr_scale a) (tr_scale b) \<rparr>"

definition rigid_inverted :: "Transform \<Rightarrow> Transform" where
  "rigid_inverted a =
     (case (tr_rot a, tr_pos a, tr_scale a) of ((x, y, z, w), (px, py, pz), (sx, sy, sz)) \<Rightarrow>
        \<lparr> tr_pos = quat_rotate (- x, - y, - z, w) (- px / sx, - py / sy, - pz / sz),
          tr_rot = (- x, - y, - z, w),
          tr_scale = (1 / sx, 1 / sy, 1 / sz) \<rparr>)"

definition rigid_ops :: TransformOps where
  "rigid_ops = \<lparr> t_mul = rigid_mul, t_inverted = rigid_inverted \<rparr>"

subsection \<open>The children of an entity\<close>




subsection \<open>The two blocks of setParent\<close>

text \<open>
  After the test for a cycle, \<^verbatim>\<open>World::setParent\<close> has two blocks. The first takes the
  child out of the list of its old parent and collects the record of the old parent, or
  adds a record for a child that has none; its result is the world and the position
  \<^verbatim>\<open>child_idx\<close> of the record of the child. The second puts the child at the head of
  the list of the new parent, or collects the record of the child when there is no new
  parent. \<open>setParent\<close> is their composition (\<open>setParent_phases\<close> below).
\<close>

definition setParent_detach :: "int \<Rightarrow> int \<Rightarrow> World \<Rightarrow> (World \<times> int) option" where
  "setParent_detach new_parent child w =
     (let child_idx = hierarchy_idx w child in
      if child_idx \<ge> 0 then
        (let old_parent = h_parent (hierarchy_at w child_idx) in
         if isValid old_parent then
           Option.bind (unlink_loop w (FirstChildOf (hierarchy_idx w old_parent)) child)
             (\<lambda>w1. let w2 = set_parent_at child_idx INVALID_ENTITY w1;
                        w3 = set_next_sibling_at child_idx INVALID_ENTITY w2;
                        w4 = collectGarbage old_parent w3
                    in Some (w4, hierarchy_idx w4 child))
         else Some (w, child_idx))
      else if isValid new_parent then
        Some (emplace_hierarchy default_Transform child w, int (length (m_hierarchy w)))
      else Some (w, child_idx))"

definition setParent_attach :: "TransformOps \<Rightarrow> int \<Rightarrow> int \<Rightarrow> World \<times> int \<Rightarrow> World option" where
  "setParent_attach ops new_parent child =
     (\<lambda>(w5, child_idx).
        if isValid new_parent then
          (let (w6, new_parent_idx) =
                 (if hierarchy_idx w5 new_parent < 0
                  then (emplace_hierarchy default_Transform new_parent w5, int (length (m_hierarchy w5)))
                  else (w5, hierarchy_idx w5 new_parent));
               w7 = set_parent_at child_idx new_parent w6;
               parent_tr = getTransform w7 new_parent;
               child_tr = getTransform w7 child;
               w8 = set_local_transform_at child_idx (t_mul ops (t_inverted ops parent_tr) child_tr) w7;
               w9 = set_next_sibling_at child_idx (h_first_child (hierarchy_at w8 new_parent_idx)) w8
           in Some (set_first_child_at new_parent_idx child w9))
        else Some (if child_idx \<ge> 0 then collectGarbage child w5 else w5))"

subsection \<open>Descendants\<close>



subsection \<open>Well-formed hierarchy records\<close>

text \<open>
  An entity is in range when it is an index of \<^verbatim>\<open>m_entities\<close>, and has a record when
  moreover its \<^verbatim>\<open>hierarchy\<close> field is not negative. The two arrays are consistent
  (\<open>idx_ok\<close>) when they index each other: the record at position \<open>i\<close> belongs to an entity in
  range whose \<^verbatim>\<open>hierarchy\<close> field is \<open>i\<close>, and the \<^verbatim>\<open>hierarchy\<close> field of an entity
  with a record is a position of \<^verbatim>\<open>m_hierarchy\<close> whose record belongs to the entity.
  \<open>record_of w\<close> maps every entity to its record, if it has one.
\<close>

definition in_range :: "World \<Rightarrow> int \<Rightarrow> bool" where
  "in_range w e = (0 \<le> e \<and> e < int (length (m_entities w)))"

definition has_record :: "World \<Rightarrow> int \<Rightarrow> bool" where
  "has_record w e = (in_range w e \<and> 0 \<le> hierarchy_idx w e)"

definition idx_ok :: "World \<Rightarrow> bool" where
  "idx_ok w =
     ((\<forall>i < length (m_hierarchy w).
         in_range w (h_entity (m_hierarchy w ! i))
         \<and> hierarchy_idx w (h_entity (m_hierarchy w ! i)) = int i)
      \<and> (\<forall>e. has_record w e \<longrightarrow>
            hierarchy_idx w e < int (length (m_hierarchy w))
            \<and> h_entity (hierarchy_at w (hierarchy_idx w e)) = e))"

definition record_of :: "World \<Rightarrow> int \<Rightarrow> Hierarchy option" where
  "record_of w e = (if has_record w e then Some (hierarchy_at w (hierarchy_idx w e)) else None)"

text \<open>
  The assignments to one field of the record of an entity have the form \<open>upd_record\<close>;
  \<open>fresh_record\<close> is the record that \<open>emplace_hierarchy\<close> adds.
\<close>

definition upd_record :: "int \<Rightarrow> (Hierarchy \<Rightarrow> Hierarchy) \<Rightarrow> World \<Rightarrow> World" where
  "upd_record e f w =
     w\<lparr> m_hierarchy := (m_hierarchy w)[nat (hierarchy_idx w e) := f (hierarchy_at w (hierarchy_idx w e))] \<rparr>"


text \<open>
  The parent, first child and next sibling of an entity in a map from entities to records
  (\<open>-1\<close>, which is \<^verbatim>\<open>INVALID_ENTITY\<close>, for an entity without a record), and the chain of
  the next-sibling links from an entity on.
\<close>

type_synonym records = "int \<Rightarrow> Hierarchy option"

definition parent_in :: "records \<Rightarrow> int \<Rightarrow> int" where
  "parent_in H e = (case H e of None \<Rightarrow> -1 | Some h \<Rightarrow> h_parent h)"

definition first_child_in :: "records \<Rightarrow> int \<Rightarrow> int" where
  "first_child_in H e = (case H e of None \<Rightarrow> -1 | Some h \<Rightarrow> h_first_child h)"

definition next_sibling_in :: "records \<Rightarrow> int \<Rightarrow> int" where
  "next_sibling_in H e = (case H e of None \<Rightarrow> -1 | Some h \<Rightarrow> h_next_sibling h)"

inductive sibling_chain :: "records \<Rightarrow> int \<Rightarrow> int list \<Rightarrow> bool" for H where
  achain_nil: "sibling_chain H (-1) []"
| achain_cons: "x \<noteq> -1 \<Longrightarrow> H x = Some h \<Longrightarrow> sibling_chain H (h_next_sibling h) xs \<Longrightarrow> sibling_chain H x (x # xs)"

text \<open>
  The records form a forest, with the rank \<open>r\<close>: every entity with a record is not negative;
  its links are \<^verbatim>\<open>INVALID_ENTITY\<close> or entities with a record; its first child has it as
  parent and a smaller rank; its next sibling has the same parent, which is valid, and a
  smaller rank; and an entity with a parent is in the chain of the children of this parent.
  \<open>node_ok\<close> says the same through the three functions above.
\<close>

definition record_ok :: "records \<Rightarrow> (int \<Rightarrow> nat) \<Rightarrow> int \<Rightarrow> Hierarchy \<Rightarrow> bool" where
  "record_ok H r e h =
     ((h_parent h = -1 \<or> h_parent h \<in> dom H) \<and>
      (h_first_child h = -1 \<or>
         (h_first_child h \<in> dom H \<and> parent_in H (h_first_child h) = e \<and> r (h_first_child h) < r e)) \<and>
      (h_next_sibling h = -1 \<or>
         (h_next_sibling h \<in> dom H \<and> h_parent h \<noteq> -1 \<and> parent_in H (h_next_sibling h) = h_parent h
          \<and> r (h_next_sibling h) < r e)) \<and>
      (h_parent h \<noteq> -1 \<longrightarrow> (\<exists>cs. sibling_chain H (first_child_in H (h_parent h)) cs \<and> e \<in> set cs)))"

definition forest_ok :: "records \<Rightarrow> (int \<Rightarrow> nat) \<Rightarrow> bool" where
  "forest_ok H r = (\<forall>e h. H e = Some h \<longrightarrow> 0 \<le> e \<and> record_ok H r e h)"

definition node_ok :: "records \<Rightarrow> (int \<Rightarrow> nat) \<Rightarrow> int \<Rightarrow> bool" where
  "node_ok H r e =
     (0 \<le> e \<and> (parent_in H e = -1 \<or> parent_in H e \<in> dom H)
       \<and> (first_child_in H e = -1 \<or> (first_child_in H e \<in> dom H \<and> parent_in H (first_child_in H e) = e \<and> r (first_child_in H e) < r e))
       \<and> (next_sibling_in H e = -1 \<or> (next_sibling_in H e \<in> dom H \<and> parent_in H e \<noteq> -1 \<and> parent_in H (next_sibling_in H e) = parent_in H e \<and> r (next_sibling_in H e) < r e))
       \<and> (parent_in H e \<noteq> -1 \<longrightarrow> (\<exists>cs. sibling_chain H (first_child_in H (parent_in H e)) cs \<and> e \<in> set cs)))"


text \<open>
  The effect of the loop \<open>unlink_loop\<close> and of \<open>collectGarbage\<close> on the map of the
  records. A link is the first-child field (\<open>True\<close>) or the next-sibling field (\<open>False\<close>)
  of the record of an entity; \<open>unlinked H y ff cs e\<close> is the map after the loop that starts
  at this link of \<open>y\<close> and runs over the chain \<open>cs\<close>; \<open>collected x H\<close> is the map after
  \<open>collectGarbage\<close> of \<open>x\<close>.
\<close>

fun set_link :: "bool \<Rightarrow> int \<Rightarrow> Hierarchy \<Rightarrow> Hierarchy" where
  "set_link True v h = h\<lparr> h_first_child := v \<rparr>"
| "set_link False v h = h\<lparr> h_next_sibling := v \<rparr>"

definition get_link :: "records \<Rightarrow> int \<Rightarrow> bool \<Rightarrow> int" where
  "get_link H y ff = (if ff then first_child_in H y else next_sibling_in H y)"

definition mk_link :: "World \<Rightarrow> int \<Rightarrow> bool \<Rightarrow> link" where
  "mk_link w y ff = (if ff then FirstChildOf (hierarchy_idx w y) else NextSiblingOf (hierarchy_idx w y))"

fun unlinked :: "records \<Rightarrow> int \<Rightarrow> bool \<Rightarrow> int list \<Rightarrow> int \<Rightarrow> records" where
  "unlinked H y ff [] e = H"
| "unlinked H y ff (c # cs) e =
     (if c = e then H(y \<mapsto> set_link ff (next_sibling_in H e) (the (H y))) else unlinked H c False cs e)"

definition collected :: "int \<Rightarrow> records \<Rightarrow> records" where
  "collected x H = (if isValid (parent_in H x) \<or> isValid (first_child_in H x) then H else H(x := None))"

text \<open>
  The invariant of the hierarchy: the two arrays are consistent and the records form a
  forest. \<open>free_slot_ok\<close>: the head of the free list, if there is one, is in range and has
  no record.
\<close>

definition hierarchy_ok :: "World \<Rightarrow> (int \<Rightarrow> nat) \<Rightarrow> bool" where
  "hierarchy_ok w r = (idx_ok w \<and> forest_ok (record_of w) r)"

definition free_slot_ok :: "World \<Rightarrow> bool" where
  "free_slot_ok w = (m_first_free_slot w < int (length (m_entities w))
                     \<and> (0 \<le> m_first_free_slot w \<longrightarrow> hierarchy_idx w (m_first_free_slot w) < 0))"

subsection \<open>A world with a parent and a child\<close>

text \<open>
  Three entities are created in a new world and the second is made a child of the first:
  the entity 0 is the parent of the entity 1, and the entity 2 has no record. The rank of
  the parent is 1, the others have rank 0.
\<close>

definition family_world :: World where
  "family_world =
     (case createEntity new_World (0, 0, 0) (0, 0, 0, 1) of (wA, a) \<Rightarrow>
      case createEntity wA (1, 0, 0) (0, 0, 0, 1) of (wB, b) \<Rightarrow>
      case createEntity wB (2, 0, 0) (0, 0, 0, 1) of (wC, c) \<Rightarrow>
        the (setParent rigid_ops a b wC))"

definition family_rank :: "int \<Rightarrow> nat" where
  "family_rank e = (if e = 0 then 1 else 0)"

definition family_child :: Hierarchy where
  "family_child = \<lparr> h_entity = 1, h_parent = 0, h_first_child = -1, h_next_sibling = -1,
                     h_local_transform = \<lparr> tr_pos = (1, 0, 0), tr_rot = (0, 0, 0, 1), tr_scale = (1, 1, 1) \<rparr> \<rparr>"

definition family_parent :: Hierarchy where
  "family_parent = \<lparr> h_entity = 0, h_parent = -1, h_first_child = 1, h_next_sibling = -1,
                      h_local_transform = \<lparr> tr_pos = (0, 0, 0), tr_rot = (0, 0, 0, 1), tr_scale = (1, 1, 1) \<rparr> \<rparr>"

text \<open>
  The same world after \<open>destroyEntity\<close> of the entity 2: its slot is the head of the free
  list.
\<close>

definition freed_world :: World where
  "freed_world = the (destroyEntity rigid_ops 2 family_world)"

subsection \<open>A world with an entity that is its own parent\<close>

text \<open>
  Two entities are created in a new world; \<open>self_parent_world\<close> is the world after
  \<open>setParent(0, 0)\<close>.
\<close>

definition two_entities :: World where
  "two_entities =
     fst (createEntity (fst (createEntity new_World (0, 0, 0) (0, 0, 0, 1))) (1, 0, 0) (0, 0, 0, 1))"

definition self_parent_world :: World where
  "self_parent_world = the (setParent rigid_ops 0 0 two_entities)"

section \<open>The blend node tree (nodes.cpp)\<close>

text \<open>
  \<^verbatim>\<open>Time\<close> is a count of ticks kept in a \<^verbatim>\<open>u32\<close> (\<^verbatim>\<open>raw()\<close> returns it):
  sums and differences wrap around modulo \<open>2 ^ 32\<close>, comparisons are unsigned.
\<close>

type_synonym Time = "32 word"

text \<open>\<^verbatim>\<open>LocalRigidTransform { Vec3 pos; Quat rot; }\<close>\<close>

record LocalRigidTransform =
  lrt_pos :: Vec3
  lrt_rot :: Quat

text \<open>The value \<^verbatim>\<open>{{0, 0, 0}, {0, 0, 0, 1}}\<close>.\<close>

definition identity_motion :: LocalRigidTransform where
  "identity_motion = \<lparr> lrt_pos = (0, 0, 0), lrt_rot = (0, 0, 0, 1) \<rparr>"

text \<open>
  What the nodes use of an \<^verbatim>\<open>Animation\<close> resource: \<^verbatim>\<open>isReady()\<close>,
  \<^verbatim>\<open>getLength()\<close> and \<^verbatim>\<open>getRootMotion(t)\<close>.
\<close>

record Animation =
  anim_ready :: bool
  anim_length :: Time
  anim_getRootMotion :: "Time \<Rightarrow> LocalRigidTransform"

text \<open>
  The operations of \<^verbatim>\<open>engine/math.h\<close> that the nodes use and the sources do not
  hold, as parameters: \<^verbatim>\<open>Time * float\<close>, \<^verbatim>\<open>Time / Time\<close>, \<^verbatim>\<open>lerp\<close> on
  \<^verbatim>\<open>Time\<close>, \<^verbatim>\<open>Time::seconds\<close>, \<^verbatim>\<open>Time::fromSeconds\<close>, the product, the
  inverse and the interpolation of \<^verbatim>\<open>LocalRigidTransform\<close>. \<open>op_uninitialized\<close> is
  what a local \<^verbatim>\<open>LocalRigidTransform tmp;\<close> holds before it is assigned.
\<close>

record NodeOps =
  op_time_mul :: "Time \<Rightarrow> real \<Rightarrow> Time"
  op_time_div :: "Time \<Rightarrow> Time \<Rightarrow> real"
  op_lerp :: "Time \<Rightarrow> Time \<Rightarrow> real \<Rightarrow> Time"
  op_seconds :: "Time \<Rightarrow> real"
  op_fromSeconds :: "real \<Rightarrow> Time"
  op_mul :: "LocalRigidTransform \<Rightarrow> LocalRigidTransform \<Rightarrow> LocalRigidTransform"
  op_inverted :: "LocalRigidTransform \<Rightarrow> LocalRigidTransform"
  op_interpolate :: "LocalRigidTransform \<Rightarrow> LocalRigidTransform \<Rightarrow> real \<Rightarrow> LocalRigidTransform"
  op_uninitialized :: LocalRigidTransform

text \<open>
  The runtime streams hold the values the nodes write, one cell per \<^verbatim>\<open>write\<close>:
  a \<^verbatim>\<open>Time\<close>, a \<^verbatim>\<open>float\<close>, or the \<^verbatim>\<open>RuntimeData\<close> of a Condition
  (\<open>t\<close>, \<open>is_true\<close>), a Select (\<open>from\<close>, \<open>to\<close>, \<open>t\<close>) or a Group node (\<open>from\<close>, \<open>to\<close>,
  \<open>t\<close>, \<open>blend_length\<close>). A read of one type where the cursor is at a cell of another
  type, or at the end, has no result.
\<close>

datatype cell =
    CTime Time
  | CFloat real
  | CCondition Time bool
  | CSelect nat nat Time
  | CGroup nat nat Time Time

text \<open>The bytes of a cell: \<^verbatim>\<open>sizeof\<close> of the type, with \<open>rd\<close> for the three \<^verbatim>\<open>RuntimeData\<close> structs.\<close>

fun cell_bytes :: "(nat \<times> nat \<times> nat) \<Rightarrow> cell \<Rightarrow> nat" where
  "cell_bytes rd (CTime t) = 4"
| "cell_bytes rd (CFloat x) = 4"
| "cell_bytes rd (CCondition t b) = fst rd"
| "cell_bytes rd (CSelect f t' t) = fst (snd rd)"
| "cell_bytes rd (CGroup f t' t bl) = snd (snd rd)"

text \<open>
  \<^verbatim>\<open>RuntimeContext\<close>: the stream \<open>data\<close> that \<open>update\<close> and \<open>enter\<close> append to, the
  rest of the stream \<open>input_runtime\<close> from the read cursor on, the \<^verbatim>\<open>float\<close> inputs
  by index, the animation of each slot (\<^verbatim>\<open>nullptr\<close> is \<open>None\<close>), whether the model
  is ready, and the time step.
\<close>

record RuntimeContext =
  rc_data :: "cell list"
  rc_input_runtime :: "cell list"
  rc_inputs :: "nat \<Rightarrow> real"
  rc_animations :: "nat \<Rightarrow> Animation option"
  rc_model_ready :: bool
  rc_time_delta :: Time

definition write_cell :: "cell \<Rightarrow> RuntimeContext \<Rightarrow> RuntimeContext" where
  "write_cell c ctx = ctx\<lparr> rc_data := rc_data ctx @ [c] \<rparr>"

fun read_Time :: "RuntimeContext \<Rightarrow> (Time \<times> RuntimeContext) option" where
  "read_Time ctx = (case rc_input_runtime ctx of
      CTime t # rest \<Rightarrow> Some (t, ctx\<lparr> rc_input_runtime := rest \<rparr>) | _ \<Rightarrow> None)"

fun read_Float :: "RuntimeContext \<Rightarrow> (real \<times> RuntimeContext) option" where
  "read_Float ctx = (case rc_input_runtime ctx of
      CFloat x # rest \<Rightarrow> Some (x, ctx\<lparr> rc_input_runtime := rest \<rparr>) | _ \<Rightarrow> None)"

fun read_Condition :: "RuntimeContext \<Rightarrow> ((Time \<times> bool) \<times> RuntimeContext) option" where
  "read_Condition ctx = (case rc_input_runtime ctx of
      CCondition t b # rest \<Rightarrow> Some ((t, b), ctx\<lparr> rc_input_runtime := rest \<rparr>) | _ \<Rightarrow> None)"

fun read_Select :: "RuntimeContext \<Rightarrow> ((nat \<times> nat \<times> Time) \<times> RuntimeContext) option" where
  "read_Select ctx = (case rc_input_runtime ctx of
      CSelect f t' t # rest \<Rightarrow> Some ((f, t', t), ctx\<lparr> rc_input_runtime := rest \<rparr>) | _ \<Rightarrow> None)"

fun read_Group :: "RuntimeContext \<Rightarrow> ((nat \<times> nat \<times> Time \<times> Time) \<times> RuntimeContext) option" where
  "read_Group ctx = (case rc_input_runtime ctx of
      CGroup f t' t bl # rest \<Rightarrow> Some ((f, t', t, bl), ctx\<lparr> rc_input_runtime := rest \<rparr>) | _ \<Rightarrow> None)"

text \<open>\<^verbatim>\<open>GroupNode::Transition { u32 from, to; Time blend_length; float exit_time; }\<close>; \<^verbatim>\<open>0xffFFffFF\<close> is the wildcard.\<close>

record Transition =
  tn_from :: nat
  tn_to :: nat
  tn_blend_length :: Time
  tn_exit_time :: real

definition WILDCARD :: nat where
  "WILDCARD = 4294967295"

text \<open>A compiled condition, by its value on the inputs of the runtime context.\<close>

type_synonym Condition = "(nat \<Rightarrow> real) \<Rightarrow> bool"

text \<open>
  The seven node kinds with their configuration: an Animation node has its slot and the
  \<^verbatim>\<open>LOOPED\<close> flag; a Condition node its condition, blend length and two children
  (\<^verbatim>\<open>nullptr\<close> is \<open>None\<close>); a Select node its blend length, input and children with
  their \<^verbatim>\<open>max_value\<close>; a Group node its blend length, its children (condition,
  \<^verbatim>\<open>SELECTABLE\<close> flag, node) and its transitions; a Layers node its layers (mask, node).
\<close>

datatype Node =
    AnimationNode nat bool
  | Blend1DNode nat "Blend1D_Child list"
  | Blend2DNode nat nat "Blend2D_Child list" "Triangle list"
  | ConditionNode Condition Time "Node option" "Node option"
  | SelectNode Time nat "(real \<times> Node) list"
  | GroupNode Time "(Condition \<times> bool \<times> Node) list" "Transition list"
  | LayersNode "(nat \<times> Node) list"

subsection \<open>Root motion of an animation\<close>

text \<open>\<^verbatim>\<open>getRootMotionEx\<close> and \<^verbatim>\<open>getRootMotion\<close>; a remainder by a length of 0 has no result.\<close>

definition getRootMotionEx :: "NodeOps \<Rightarrow> Animation \<Rightarrow> Time \<Rightarrow> Time \<Rightarrow> LocalRigidTransform" where
  "getRootMotionEx ops anim t0 t1 =
     op_mul ops (op_inverted ops (anim_getRootMotion anim t0)) (anim_getRootMotion anim t1)"

definition getRootMotion :: "NodeOps \<Rightarrow> Animation \<Rightarrow> Time \<Rightarrow> Time \<Rightarrow> LocalRigidTransform option" where
  "getRootMotion ops anim t0_abs t1_abs =
     (if anim_length anim = 0 then None
      else
        (let t0 = t0_abs mod anim_length anim; t1 = t1_abs mod anim_length anim in
         if t0 \<le> t1 then Some (getRootMotionEx ops anim t0 t1)
         else Some (op_mul ops (getRootMotionEx ops anim t0 (anim_length anim))
                               (getRootMotionEx ops anim 0 t1))))"

text \<open>\<^verbatim>\<open>fmodf(x, 1)\<close>: the fractional part, with the sign of \<open>x\<close>.\<close>

definition fmodf1 :: "real \<Rightarrow> real" where
  "fmodf1 x = x - real_of_int (if x \<ge> 0 then \<lfloor>x\<rfloor> else \<lceil>x\<rceil>)"

subsection \<open>Leaf nodes\<close>

text \<open>
  \<^verbatim>\<open>AnimationNode::update\<close>. The root motion is an in-out parameter of every
  \<open>update\<close>: the argument is what the caller's variable holds, the result what it holds
  afterwards. The timeline events (\<^verbatim>\<open>emitEvents\<close>) go to a stream of their own that
  no operation below reads; they are left out.
\<close>

definition AnimationNode_update ::
  "NodeOps \<Rightarrow> nat \<Rightarrow> bool \<Rightarrow> RuntimeContext \<Rightarrow> LocalRigidTransform \<Rightarrow> (RuntimeContext \<times> LocalRigidTransform) option" where
  "AnimationNode_update ops m_slot looped ctx root_motion =
     Option.bind (read_Time ctx)
       (\<lambda>(t_read, ctx1).
          let t = t_read + rc_time_delta ctx1 in
          (case rc_animations ctx1 m_slot of
             Some anim \<Rightarrow>
               if anim_ready anim then
                 (let t' = (if looped then t else min t (anim_length anim));
                      prev_t = (if looped then t_read else min t_read (anim_length anim))
                  in Option.bind (getRootMotion ops anim prev_t t')
                       (\<lambda>rm. Some (write_cell (CTime t') ctx1, rm)))
               else Some (write_cell (CTime t) ctx1, identity_motion)
           | None \<Rightarrow> Some (write_cell (CTime t) ctx1, identity_motion)))"

text \<open>\<^verbatim>\<open>getInputValue\<close>\<close>

definition getInputValue :: "RuntimeContext \<Rightarrow> nat \<Rightarrow> real" where
  "getInputValue ctx idx = rc_inputs ctx idx"

text \<open>\<^verbatim>\<open>Blend1DNode::update\<close>\<close>

definition Blend1DNode_update ::
  "NodeOps \<Rightarrow> nat \<Rightarrow> Blend1D_Child list \<Rightarrow> RuntimeContext \<Rightarrow> LocalRigidTransform \<Rightarrow> (RuntimeContext \<times> LocalRigidTransform) option" where
  "Blend1DNode_update ops m_input_index m_children ctx root_motion =
     Option.bind (read_Float ctx)
       (\<lambda>(relt0, ctx1). Option.bind (getActivePair m_children (getInputValue ctx1 m_input_index))
          (\<lambda>pair.
             let anim_a = rc_animations ctx1 (b1_slot (m_children ! pair_a pair));
                 anim_b = (case pair_b pair of
                             Some b \<Rightarrow> rc_animations ctx1 (b1_slot (m_children ! b))
                           | None \<Rightarrow> None);
                 wlen = (case anim_a of
                           Some a \<Rightarrow> op_lerp ops (anim_length a)
                                       (case anim_b of Some b \<Rightarrow> anim_length b | None \<Rightarrow> anim_length a)
                                       (pair_t pair)
                         | None \<Rightarrow> op_fromSeconds ops 1);
                 relt = fmodf1 (relt0 + op_time_div ops (rc_time_delta ctx1) wlen)
             in Option.bind
                  (case anim_a of
                     Some a \<Rightarrow> getRootMotion ops a (op_time_mul ops (anim_length a) relt0)
                                 (op_time_mul ops (anim_length a) relt)
                   | None \<Rightarrow> Some identity_motion)
                  (\<lambda>rm1. Option.bind
                     (case anim_b of
                        Some b \<Rightarrow>
                          if anim_ready b then
                            Option.bind (getRootMotion ops b (op_time_mul ops (anim_length b) relt0)
                                           (op_time_mul ops (anim_length b) relt))
                              (\<lambda>tr1. Some (op_interpolate ops rm1 tr1 (pair_t pair)))
                          else Some rm1
                      | None \<Rightarrow> Some rm1)
                     (\<lambda>rm2. Some (write_cell (CFloat relt) ctx1, rm2)))))"

text \<open>\<^verbatim>\<open>getBarycentric\<close>: the flag it returns and \<open>uv\<close>.\<close>

definition vec2_dot :: "Vec2 \<Rightarrow> Vec2 \<Rightarrow> real" where
  "vec2_dot u v = fst u * fst v + snd u * snd v"

definition getBarycentric :: "Vec2 \<Rightarrow> Vec2 \<Rightarrow> Vec2 \<Rightarrow> Vec2 \<Rightarrow> bool \<times> Vec2" where
  "getBarycentric p a b c =
     (let ab = vec2_sub b a; ac = vec2_sub c a; ap = vec2_sub p a;
          d00 = vec2_dot ab ab; d01 = vec2_dot ab ac; d11 = vec2_dot ac ac;
          d20 = vec2_dot ap ab; d21 = vec2_dot ap ac;
          denom = d00 * d11 - d01 * d01;
          u = (d11 * d20 - d01 * d21) / denom;
          v = (d00 * d21 - d01 * d20) / denom
      in (u \<ge> 0 \<and> v \<ge> 0 \<and> u + v \<le> 1, (u, v)))"

text \<open>\<^verbatim>\<open>Blend2DActiveTrio\<close>, the three children by position, and \<^verbatim>\<open>getActiveTrio\<close>.\<close>

record Blend2DActiveTrio =
  trio_a :: nat
  trio_b :: nat
  trio_c :: nat
  trio_ta :: real
  trio_tb :: real
  trio_tc :: real

fun getActiveTrio :: "Blend2D_Child list \<Rightarrow> Triangle list \<Rightarrow> Vec2 \<Rightarrow> Blend2DActiveTrio" where
  "getActiveTrio m_children [] input_val =
     \<lparr> trio_a = 0, trio_b = 0, trio_c = 0, trio_ta = 1, trio_tb = 0, trio_tc = 0 \<rparr>"
| "getActiveTrio m_children (t # ts) input_val =
     (case getBarycentric input_val (b2_value (m_children ! tri_a t)) (b2_value (m_children ! tri_b t))
             (b2_value (m_children ! tri_c t)) of
        (inside, uv) \<Rightarrow>
          if \<not> inside then getActiveTrio m_children ts input_val
          else \<lparr> trio_a = tri_a t, trio_b = tri_b t, trio_c = tri_c t,
                 trio_ta = 1 - fst uv - snd uv, trio_tb = fst uv, trio_tc = snd uv \<rparr>)"

text \<open>
  \<^verbatim>\<open>Blend2DNode::update\<close>. When one of the three animations is missing or not ready
  the function writes the phase it read and returns; \<open>root_motion\<close> is not assigned on
  that path, nor when the node has fewer than three children.
\<close>

definition Blend2DNode_update ::
  "NodeOps \<Rightarrow> nat \<Rightarrow> nat \<Rightarrow> Blend2D_Child list \<Rightarrow> Triangle list \<Rightarrow> RuntimeContext \<Rightarrow> LocalRigidTransform
     \<Rightarrow> (RuntimeContext \<times> LocalRigidTransform) option" where
  "Blend2DNode_update ops m_x_input_index m_y_input_index m_children m_triangles ctx root_motion =
     Option.bind (read_Float ctx)
       (\<lambda>(relt0, ctx1).
          if length m_children > 2 then
            (let input_val = (getInputValue ctx1 m_x_input_index, getInputValue ctx1 m_y_input_index);
                 trio = getActiveTrio m_children m_triangles input_val
             in case (rc_animations ctx1 (b2_slot (m_children ! trio_a trio)),
                      rc_animations ctx1 (b2_slot (m_children ! trio_b trio)),
                      rc_animations ctx1 (b2_slot (m_children ! trio_c trio))) of
                  (Some anim_a, Some anim_b, Some anim_c) \<Rightarrow>
                    if \<not> anim_ready anim_a \<or> \<not> anim_ready anim_b \<or> \<not> anim_ready anim_c
                    then Some (write_cell (CFloat relt0) ctx1, root_motion)
                    else
                      (let wlen = op_time_mul ops (anim_length anim_a) (trio_ta trio)
                                  + op_time_mul ops (anim_length anim_b) (trio_tb trio)
                                  + op_time_mul ops (anim_length anim_c) (trio_tc trio);
                           relt = fmodf1 (relt0 + op_time_div ops (rc_time_delta ctx1) wlen)
                       in Option.bind (getRootMotion ops anim_a (op_time_mul ops (anim_length anim_a) relt0)
                                         (op_time_mul ops (anim_length anim_a) relt))
                            (\<lambda>rm1. Option.bind
                               (if trio_tb trio > 0 then
                                  Option.bind (getRootMotion ops anim_b (op_time_mul ops (anim_length anim_b) relt0)
                                                 (op_time_mul ops (anim_length anim_b) relt))
                                    (\<lambda>tr1. Some (op_interpolate ops rm1 tr1
                                                    (trio_tb trio / (trio_ta trio + trio_tb trio))))
                                else Some rm1)
                               (\<lambda>rm2. Option.bind
                                  (if trio_tc trio > 0 then
                                     Option.bind (getRootMotion ops anim_c (op_time_mul ops (anim_length anim_c) relt0)
                                                    (op_time_mul ops (anim_length anim_c) relt))
                                       (\<lambda>tr1. Some (op_interpolate ops rm2 tr1 (trio_tc trio)))
                                   else Some rm2)
                                  (\<lambda>rm3. Some (write_cell (CFloat relt) ctx1, rm3)))))
                | _ \<Rightarrow> Some (write_cell (CFloat relt0) ctx1, root_motion))
          else Some (write_cell (CFloat relt0) ctx1, root_motion))"

subsection \<open>skip\<close>

text \<open>
  \<^verbatim>\<open>ctx.input_runtime.skip(sizeof(Time))\<close> and \<^verbatim>\<open>skip(sizeof(float))\<close> move the
  cursor by four bytes: over a \<^verbatim>\<open>Time\<close> or a \<^verbatim>\<open>float\<close> cell.
\<close>

definition skip_4_bytes :: "RuntimeContext \<Rightarrow> RuntimeContext option" where
  "skip_4_bytes ctx = (case rc_input_runtime ctx of
      CTime t # rest \<Rightarrow> Some (ctx\<lparr> rc_input_runtime := rest \<rparr>)
    | CFloat x # rest \<Rightarrow> Some (ctx\<lparr> rc_input_runtime := rest \<rparr>)
    | _ \<Rightarrow> None)"

lemma size_child_Select:
  "i < length cs \<Longrightarrow> size (snd (cs ! i)) < Suc (size_list (size_prod (\<lambda>x. 0) size) cs)"
proof -
  assume "i < length cs"
  then have "cs ! i \<in> set cs" by simp
  then have "size_prod (\<lambda>x. 0) size (cs ! i) \<le> size_list (size_prod (\<lambda>x. 0) size) cs"
    by (simp add: size_list_estimation')
  then show ?thesis by (cases "cs ! i") simp
qed

lemma size_child_Group:
  "i < length cs \<Longrightarrow>
     size (snd (snd (cs ! i))) < Suc (size_list (size_prod (\<lambda>x. 0) (size_prod (\<lambda>x. 0) size)) cs)"
proof -
  assume "i < length cs"
  then have "cs ! i \<in> set cs" by simp
  then have "size_prod (\<lambda>x. 0) (size_prod (\<lambda>x. 0) size) (cs ! i)
               \<le> size_list (size_prod (\<lambda>x. 0) (size_prod (\<lambda>x. 0) size)) cs"
    by (simp add: size_list_estimation')
  then show ?thesis by (cases "cs ! i", cases "snd (cs ! i)") simp
qed

lemma size_layer:
  "size (snd (layer :: nat \<times> Node)) < Suc (size_prod (\<lambda>x. 0) size layer + n)"
  by (cases layer) simp

declare Option.bind_cong [fundef_cong]

text \<open>
  \<open>skip\<close> of the seven node kinds; \<open>Layers_skip\<close> is the loop of
  \<^verbatim>\<open>LayersNode::skip\<close>. A child position outside the child array has no result.
\<close>

function (sequential) Node_skip :: "Node \<Rightarrow> RuntimeContext \<Rightarrow> RuntimeContext option"
  and Layers_skip :: "(nat \<times> Node) list \<Rightarrow> RuntimeContext \<Rightarrow> RuntimeContext option" where
  "Node_skip (AnimationNode m_slot looped) ctx = skip_4_bytes ctx"
| "Node_skip (Blend1DNode m_input_index m_children) ctx = skip_4_bytes ctx"
| "Node_skip (Blend2DNode m_x_input_index m_y_input_index m_children m_triangles) ctx = skip_4_bytes ctx"
| "Node_skip (ConditionNode m_condition m_blend_length (Some m_true_node) (Some m_false_node)) ctx =
     Option.bind (read_Condition ctx)
       (\<lambda>((t, is_true), ctx1).
          if is_true then Node_skip m_true_node ctx1 else Node_skip m_false_node ctx1)"
| "Node_skip (ConditionNode m_condition m_blend_length None m_false_node) ctx = Some ctx"
| "Node_skip (ConditionNode m_condition m_blend_length (Some m_true_node) None) ctx = Some ctx"
| "Node_skip (SelectNode m_blend_length m_input_index m_children) ctx =
     (if m_children = [] then Some ctx
      else Option.bind (read_Select ctx)
        (\<lambda>((from, to, t), ctx1).
           if from < length m_children then
             Option.bind (Node_skip (snd (m_children ! from)) ctx1)
               (\<lambda>ctx2. if from \<noteq> to then
                          (if to < length m_children then Node_skip (snd (m_children ! to)) ctx2 else None)
                        else Some ctx2)
           else None))"
| "Node_skip (GroupNode m_blend_length m_children m_transitions) ctx =
     Option.bind (read_Group ctx)
       (\<lambda>((from, to, t, blend_length), ctx1).
          if from < length m_children then
            Option.bind (Node_skip (snd (snd (m_children ! from))) ctx1)
              (\<lambda>ctx2. if from \<noteq> to then
                         (if to < length m_children then Node_skip (snd (snd (m_children ! to))) ctx2 else None)
                       else Some ctx2)
          else None)"
| "Node_skip (LayersNode m_layers) ctx = Layers_skip m_layers ctx"
| "Layers_skip [] ctx = Some ctx"
| "Layers_skip (layer # layers) ctx = Option.bind (Node_skip (snd layer) ctx) (Layers_skip layers)"
  by pat_completeness auto
termination
  by (relation "measure (case_sum (\<lambda>p. size (fst p)) (\<lambda>p. size_list (size_prod (\<lambda>x. 0) size) (fst p)))")
    (simp_all add: size_child_Select size_child_Group size_layer)

subsection \<open>enter\<close>

text \<open>\<^verbatim>\<open>SelectNode::getChildIndex\<close>: the loop from position \<open>i\<close> on.\<close>

fun getChildIndex_loop :: "(real \<times> Node) list \<Rightarrow> real \<Rightarrow> nat \<Rightarrow> nat option" where
  "getChildIndex_loop [] input_val i = None"
| "getChildIndex_loop (child # children) input_val i =
     (if input_val \<le> fst child then Some i else getChildIndex_loop children input_val (i + 1))"

definition getChildIndex :: "(real \<times> Node) list \<Rightarrow> real \<Rightarrow> nat" where
  "getChildIndex m_children input_val =
     (case getChildIndex_loop m_children input_val 0 of
        Some i \<Rightarrow> i | None \<Rightarrow> length m_children - 1)"

text \<open>
  The loop of \<^verbatim>\<open>GroupNode::enter\<close> and the last loop of \<^verbatim>\<open>GroupNode::update\<close>:
  the first child from position \<open>i\<close> on, other than \<open>skipped\<close>, that is selectable and
  whose condition holds.
\<close>

fun first_selectable :: "(Condition \<times> bool \<times> Node) list \<Rightarrow> (nat \<Rightarrow> real) \<Rightarrow> nat option \<Rightarrow> nat \<Rightarrow> nat option" where
  "first_selectable [] inputs skipped i = None"
| "first_selectable (child # children) inputs skipped i =
     (if Some i = skipped then first_selectable children inputs skipped (i + 1)
      else if \<not> fst (snd child) then first_selectable children inputs skipped (i + 1)
      else if \<not> fst child inputs then first_selectable children inputs skipped (i + 1)
      else Some i)"

text \<open>
  \<open>enter\<close> of the seven node kinds. \<^verbatim>\<open>GroupNode::enter\<close> leaves the blend length
  of its \<^verbatim>\<open>RuntimeData\<close> unassigned; it is 0 here.
\<close>

function (sequential) Node_enter :: "Node \<Rightarrow> RuntimeContext \<Rightarrow> RuntimeContext"
  and Layers_enter :: "(nat \<times> Node) list \<Rightarrow> RuntimeContext \<Rightarrow> RuntimeContext" where
  "Node_enter (AnimationNode m_slot looped) ctx = write_cell (CTime 0) ctx"
| "Node_enter (Blend1DNode m_input_index m_children) ctx = write_cell (CFloat 0) ctx"
| "Node_enter (Blend2DNode m_x_input_index m_y_input_index m_children m_triangles) ctx = write_cell (CFloat 0) ctx"
| "Node_enter (ConditionNode m_condition m_blend_length (Some m_true_node) (Some m_false_node)) ctx =
     (let is_true = m_condition (rc_inputs ctx);
          ctx1 = write_cell (CCondition m_blend_length is_true) ctx
      in if is_true then Node_enter m_true_node ctx1 else Node_enter m_false_node ctx1)"
| "Node_enter (ConditionNode m_condition m_blend_length None m_false_node) ctx = ctx"
| "Node_enter (ConditionNode m_condition m_blend_length (Some m_true_node) None) ctx = ctx"
| "Node_enter (SelectNode m_blend_length m_input_index m_children) ctx =
     (if m_children = [] then ctx
      else
        (let from = getChildIndex m_children (getInputValue ctx m_input_index);
             ctx1 = write_cell (CSelect from from 0) ctx
         in if from < length m_children then Node_enter (snd (m_children ! from)) ctx1 else ctx1))"
| "Node_enter (GroupNode m_blend_length m_children m_transitions) ctx =
     (let from = (case first_selectable m_children (rc_inputs ctx) None 0 of Some i \<Rightarrow> i | None \<Rightarrow> 0);
          ctx1 = write_cell (CGroup from from 0 0) ctx
      in if from < length m_children then Node_enter (snd (snd (m_children ! from))) ctx1 else ctx1)"
| "Node_enter (LayersNode m_layers) ctx = Layers_enter m_layers ctx"
| "Layers_enter [] ctx = ctx"
| "Layers_enter (layer # layers) ctx = Layers_enter layers (Node_enter (snd layer) ctx)"
  by pat_completeness auto
termination
  by (relation "measure (case_sum (\<lambda>p. size (fst p)) (\<lambda>p. size_list (size_prod (\<lambda>x. 0) size) (fst p)))")
    (simp_all add: size_child_Select size_child_Group size_layer)

subsection \<open>length and time\<close>

text \<open>\<^verbatim>\<open>ctx.input_runtime.getAs<T>()\<close>: the value at the cursor, which stays where it is.\<close>

definition peek_Time :: "RuntimeContext \<Rightarrow> Time option" where
  "peek_Time ctx = (case rc_input_runtime ctx of CTime t # rest \<Rightarrow> Some t | _ \<Rightarrow> None)"

definition peek_Float :: "RuntimeContext \<Rightarrow> real option" where
  "peek_Float ctx = (case rc_input_runtime ctx of CFloat x # rest \<Rightarrow> Some x | _ \<Rightarrow> None)"

text \<open>\<open>length(ctx)\<close> of the seven node kinds.\<close>

fun Node_length :: "NodeOps \<Rightarrow> RuntimeContext \<Rightarrow> Node \<Rightarrow> Time option" where
  "Node_length ops ctx (AnimationNode m_slot looped) =
     (case rc_animations ctx m_slot of None \<Rightarrow> Some 0 | Some anim \<Rightarrow> Some (anim_length anim))"
| "Node_length ops ctx (Blend1DNode m_input_index m_children) =
     Option.bind (getActivePair m_children (getInputValue ctx m_input_index))
       (\<lambda>pair.
          case rc_animations ctx (b1_slot (m_children ! pair_a pair)) of
            None \<Rightarrow> Some (op_fromSeconds ops 1)
          | Some anim_a \<Rightarrow>
              if \<not> anim_ready anim_a then Some (op_fromSeconds ops 1)
              else
                (case (case pair_b pair of
                         Some b \<Rightarrow> rc_animations ctx (b1_slot (m_children ! b))
                       | None \<Rightarrow> None) of
                   None \<Rightarrow> Some (anim_length anim_a)
                 | Some anim_b \<Rightarrow>
                     if \<not> anim_ready anim_b then Some (anim_length anim_a)
                     else Some (op_lerp ops (anim_length anim_a) (anim_length anim_b) (pair_t pair))))"
| "Node_length ops ctx (Blend2DNode m_x_input_index m_y_input_index m_children m_triangles) =
     (if length m_children < 3 then Some 1
      else
        (let input_val = (getInputValue ctx m_x_input_index, getInputValue ctx m_y_input_index);
             trio = getActiveTrio m_children m_triangles input_val
         in case (rc_animations ctx (b2_slot (m_children ! trio_a trio)),
                  rc_animations ctx (b2_slot (m_children ! trio_b trio)),
                  rc_animations ctx (b2_slot (m_children ! trio_c trio))) of
              (Some anim_a, Some anim_b, Some anim_c) \<Rightarrow>
                if \<not> anim_ready anim_a \<or> \<not> anim_ready anim_b \<or> \<not> anim_ready anim_c
                then Some (op_fromSeconds ops 1)
                else Some (op_time_mul ops (anim_length anim_a) (trio_ta trio)
                           + op_time_mul ops (anim_length anim_b) (trio_tb trio)
                           + op_time_mul ops (anim_length anim_c) (trio_tc trio))
            | _ \<Rightarrow> Some (op_fromSeconds ops 1)))"
| "Node_length ops ctx (ConditionNode m_condition m_blend_length m_true_node m_false_node) = Some (op_fromSeconds ops 1)"
| "Node_length ops ctx (SelectNode m_blend_length m_input_index m_children) = Some (op_fromSeconds ops 1)"
| "Node_length ops ctx (GroupNode m_blend_length m_children m_transitions) = Some (op_fromSeconds ops 1)"
| "Node_length ops ctx (LayersNode m_layers) = Some (op_fromSeconds ops 1)"

text \<open>\<open>time(ctx)\<close> of the seven node kinds.\<close>

fun Node_time :: "NodeOps \<Rightarrow> RuntimeContext \<Rightarrow> Node \<Rightarrow> Time option" where
  "Node_time ops ctx (AnimationNode m_slot looped) = peek_Time ctx"
| "Node_time ops ctx (Blend1DNode m_input_index m_children) =
     Option.bind (Node_length ops ctx (Blend1DNode m_input_index m_children))
       (\<lambda>len. Option.bind (peek_Float ctx) (\<lambda>x. Some (op_time_mul ops len x)))"
| "Node_time ops ctx (Blend2DNode m_x_input_index m_y_input_index m_children m_triangles) =
     Option.bind (Node_length ops ctx (Blend2DNode m_x_input_index m_y_input_index m_children m_triangles))
       (\<lambda>len. Option.bind (peek_Float ctx) (\<lambda>x. Some (op_time_mul ops len x)))"
| "Node_time ops ctx (ConditionNode m_condition m_blend_length m_true_node m_false_node) = Some (op_fromSeconds ops 0)"
| "Node_time ops ctx (SelectNode m_blend_length m_input_index m_children) = Some 0"
| "Node_time ops ctx (GroupNode m_blend_length m_children m_transitions) = Some 0"
| "Node_time ops ctx (LayersNode m_layers) = Some 0"

subsection \<open>The transitions of a Group node\<close>

text \<open>
  The outcome of the loop over \<^verbatim>\<open>m_transitions\<close> in \<^verbatim>\<open>GroupNode::update\<close>: a
  transition fires (its target and blend length), or the loop ends with the two flags
  \<^verbatim>\<open>waiting_for_exit_time\<close> and \<^verbatim>\<open>can_go_anywhere\<close>.
\<close>

datatype scan_result = Fire nat Time | Scan_done bool bool

text \<open>
  The exit-time gate of a transition: whether the point \<open>t\<close> of the current loop lies in
  the window from \<open>beg\<close> (included) to \<open>beg + time_delta\<close> (excluded). All sums are those
  of \<^verbatim>\<open>Time\<close>. A remainder by a length of 0 has no result.
\<close>

definition exit_time_reached :: "NodeOps \<Rightarrow> RuntimeContext \<Rightarrow> Node \<Rightarrow> real \<Rightarrow> bool option" where
  "exit_time_reached ops ctx node exit_time =
     Option.bind (Node_length ops ctx node)
       (\<lambda>len. Option.bind (Node_time ops ctx node)
          (\<lambda>beg.
             if len = 0 then None
             else
               (let end_t = beg + rc_time_delta ctx;
                    loop_start = beg - beg mod len;
                    t = loop_start + op_fromSeconds ops (exit_time * op_seconds ops len)
                in Some (\<not> (t < beg \<or> t \<ge> end_t)))))"

text \<open>
  The loop over the transitions, from the transition at the head of the list on;
  \<open>waiting\<close> is \<^verbatim>\<open>waiting_for_exit_time\<close> so far. A target outside the child array
  has no result.
\<close>

fun scan_transitions ::
  "NodeOps \<Rightarrow> RuntimeContext \<Rightarrow> (Condition \<times> bool \<times> Node) list \<Rightarrow> nat \<Rightarrow> nat \<Rightarrow> Transition list \<Rightarrow> bool
     \<Rightarrow> scan_result option" where
  "scan_transitions ops ctx m_children from to [] waiting = Some (Scan_done waiting False)"
| "scan_transitions ops ctx m_children from to (transition # rest) waiting =
     (if tn_to transition = to then scan_transitions ops ctx m_children from to rest waiting
      else if tn_from transition \<noteq> from \<and> tn_from transition \<noteq> WILDCARD
        then scan_transitions ops ctx m_children from to rest waiting
      else if tn_to transition \<noteq> WILDCARD \<and> tn_to transition \<ge> length m_children then None
      else if tn_to transition \<noteq> WILDCARD \<and> \<not> fst (m_children ! tn_to transition) (rc_inputs ctx)
        then scan_transitions ops ctx m_children from to rest waiting
      else if tn_exit_time transition \<ge> 0 then
        Option.bind (exit_time_reached ops ctx (snd (snd (m_children ! from))) (tn_exit_time transition))
          (\<lambda>reached.
             if \<not> reached then scan_transitions ops ctx m_children from to rest True
             else if tn_to transition = WILDCARD then Some (Scan_done False True)
             else Some (Fire (tn_to transition) (tn_blend_length transition)))
      else if tn_to transition = WILDCARD then Some (Scan_done False True)
      else Some (Fire (tn_to transition) (tn_blend_length transition)))"

text \<open>
  What \<^verbatim>\<open>GroupNode::update\<close> decides when no transition is in progress: the target
  and the blend length of the transition to start, or \<open>None\<close> to stay in the current child.
\<close>

definition Group_decide ::
  "NodeOps \<Rightarrow> RuntimeContext \<Rightarrow> Time \<Rightarrow> (Condition \<times> bool \<times> Node) list \<Rightarrow> Transition list \<Rightarrow> nat \<Rightarrow> nat
     \<Rightarrow> (nat \<times> Time) option option" where
  "Group_decide ops ctx m_blend_length m_children m_transitions from to =
     (let is_current_matching = fst (m_children ! from) (rc_inputs ctx);
          is_selectable = fst (snd (m_children ! from))
      in if \<not> is_current_matching \<or> \<not> is_selectable then
           Option.bind (scan_transitions ops ctx m_children from to m_transitions False)
             (\<lambda>r. case r of
                     Fire target blend_length \<Rightarrow> Some (Some (target, blend_length))
                   | Scan_done waiting_for_exit_time can_go_anywhere \<Rightarrow>
                       if (\<not> is_current_matching \<or> can_go_anywhere) \<and> \<not> waiting_for_exit_time
                       then Some (map_option (\<lambda>i. (i, m_blend_length))
                                    (first_selectable m_children (rc_inputs ctx) (Some from) 0))
                       else Some None)
         else Some None)"

subsection \<open>update\<close>

text \<open>
  \<open>update\<close> of the seven node kinds; \<open>Layers_update\<close> is the loop of
  \<^verbatim>\<open>LayersNode::update\<close>, whose flag says whether the layer at the head is the first
  one.
\<close>

function (sequential) Node_update ::
    "NodeOps \<Rightarrow> Node \<Rightarrow> RuntimeContext \<Rightarrow> LocalRigidTransform \<Rightarrow> (RuntimeContext \<times> LocalRigidTransform) option"
  and Layers_update ::
    "NodeOps \<Rightarrow> (nat \<times> Node) list \<Rightarrow> bool \<Rightarrow> RuntimeContext \<Rightarrow> LocalRigidTransform
       \<Rightarrow> (RuntimeContext \<times> LocalRigidTransform) option" where
  "Node_update ops (AnimationNode m_slot looped) ctx root_motion =
     AnimationNode_update ops m_slot looped ctx root_motion"
| "Node_update ops (Blend1DNode m_input_index m_children) ctx root_motion =
     Blend1DNode_update ops m_input_index m_children ctx root_motion"
| "Node_update ops (Blend2DNode m_x_input_index m_y_input_index m_children m_triangles) ctx root_motion =
     Blend2DNode_update ops m_x_input_index m_y_input_index m_children m_triangles ctx root_motion"
| "Node_update ops (ConditionNode m_condition m_blend_length (Some m_true_node) (Some m_false_node)) ctx root_motion =
     Option.bind (read_Condition ctx)
       (\<lambda>((t, data_is_true), ctx1).
          if t < m_blend_length then
            (let t' = t + rc_time_delta ctx1 in
             if t' \<ge> m_blend_length then
               Option.bind (Node_skip (if data_is_true then m_false_node else m_true_node) ctx1)
                 (\<lambda>ctx2. Node_update ops (if data_is_true then m_true_node else m_false_node)
                            (write_cell (CCondition t' data_is_true) ctx2) root_motion)
             else
               Option.bind (Node_update ops (if data_is_true then m_false_node else m_true_node)
                              (write_cell (CCondition t' data_is_true) ctx1) root_motion)
                 (\<lambda>(ctx2, rm1).
                    Option.bind (Node_update ops (if data_is_true then m_true_node else m_false_node)
                                   ctx2 (op_uninitialized ops))
                      (\<lambda>(ctx3, tmp).
                         Some (ctx3, op_interpolate ops rm1 tmp
                                       (op_seconds ops t' / op_seconds ops m_blend_length)))))
          else
            (let is_true = m_condition (rc_inputs ctx1) in
             if data_is_true \<noteq> is_true then
               (if m_blend_length = 0 then
                  Option.bind (Node_skip (if data_is_true then m_true_node else m_false_node) ctx1)
                    (\<lambda>ctx2. Some (Node_enter (if is_true then m_true_node else m_false_node)
                                     (write_cell (CCondition t is_true) ctx2), root_motion))
                else
                  Option.bind (Node_update ops (if is_true then m_false_node else m_true_node)
                                 (write_cell (CCondition 0 is_true) ctx1) root_motion)
                    (\<lambda>(ctx2, rm1). Some (Node_enter (if is_true then m_true_node else m_false_node) ctx2, rm1)))
             else Node_update ops (if data_is_true then m_true_node else m_false_node)
                    (write_cell (CCondition t data_is_true) ctx1) root_motion))"
| "Node_update ops (ConditionNode m_condition m_blend_length None m_false_node) ctx root_motion =
     Some (ctx, root_motion)"
| "Node_update ops (ConditionNode m_condition m_blend_length (Some m_true_node) None) ctx root_motion =
     Some (ctx, root_motion)"
| "Node_update ops (SelectNode m_blend_length m_input_index m_children) ctx root_motion =
     (if m_children = [] then Some (ctx, root_motion)
      else Option.bind (read_Select ctx)
        (\<lambda>((from, to, t), ctx1).
           let child_idx = getChildIndex m_children (getInputValue ctx1 m_input_index) in
           if from \<ge> length m_children \<or> to \<ge> length m_children \<or> child_idx \<ge> length m_children then None
           else if from \<noteq> to then
             (let t' = t + rc_time_delta ctx1 in
              if m_blend_length < t' then
                Option.bind (Node_skip (snd (m_children ! from)) ctx1)
                  (\<lambda>ctx2. Node_update ops (snd (m_children ! to))
                             (write_cell (CSelect to to 0) ctx2) root_motion)
              else
                Option.bind (Node_update ops (snd (m_children ! from))
                               (write_cell (CSelect from to t') ctx1) root_motion)
                  (\<lambda>(ctx2, rm1).
                     Option.bind (Node_update ops (snd (m_children ! to)) ctx2 (op_uninitialized ops))
                       (\<lambda>(ctx3, tmp).
                          Some (ctx3, op_interpolate ops rm1 tmp
                                        (op_seconds ops t' / op_seconds ops m_blend_length)))))
           else if child_idx \<noteq> from then
             Option.bind (Node_update ops (snd (m_children ! from))
                            (write_cell (CSelect from child_idx 0) ctx1) root_motion)
               (\<lambda>(ctx2, rm1). Some (Node_enter (snd (m_children ! child_idx)) ctx2, rm1))
           else Node_update ops (snd (m_children ! from))
                  (write_cell (CSelect from to (t + rc_time_delta ctx1)) ctx1) root_motion))"
| "Node_update ops (GroupNode m_blend_length m_children m_transitions) ctx root_motion =
     Option.bind (read_Group ctx)
       (\<lambda>((from, to, t, blend_length), ctx1).
          if m_children = [] then Some (write_cell (CGroup from to t blend_length) ctx1, root_motion)
          else if from \<ge> length m_children \<or> to \<ge> length m_children then None
          else if from \<noteq> to then
            (let t' = t + rc_time_delta ctx1 in
             if blend_length < t' then
               Option.bind (Node_skip (snd (snd (m_children ! from))) ctx1)
                 (\<lambda>ctx2. Node_update ops (snd (snd (m_children ! to)))
                            (write_cell (CGroup to to 0 blend_length) ctx2) root_motion)
             else
               Option.bind (Node_update ops (snd (snd (m_children ! from)))
                              (write_cell (CGroup from to t' blend_length) ctx1) root_motion)
                 (\<lambda>(ctx2, rm1).
                    Option.bind (Node_update ops (snd (snd (m_children ! to))) ctx2 (op_uninitialized ops))
                      (\<lambda>(ctx3, tmp).
                         Some (ctx3, op_interpolate ops rm1 tmp
                                       (op_seconds ops t' / op_seconds ops blend_length)))))
          else
            Option.bind (Group_decide ops ctx1 m_blend_length m_children m_transitions from to)
              (\<lambda>decision.
                 case decision of
                   Some (target, new_blend_length) \<Rightarrow>
                     if target < length m_children then
                       Option.bind (Node_update ops (snd (snd (m_children ! from)))
                                      (write_cell (CGroup from target 0 new_blend_length) ctx1) root_motion)
                         (\<lambda>(ctx2, rm1). Some (Node_enter (snd (snd (m_children ! target))) ctx2, rm1))
                     else None
                 | None \<Rightarrow>
                     Node_update ops (snd (snd (m_children ! from)))
                       (write_cell (CGroup from to (t + rc_time_delta ctx1) blend_length) ctx1) root_motion))"
| "Node_update ops (LayersNode m_layers) ctx root_motion = Layers_update ops m_layers True ctx root_motion"
| "Layers_update ops [] is_first ctx root_motion = Some (ctx, root_motion)"
| "Layers_update ops (layer # layers) is_first ctx root_motion =
     Option.bind (Node_update ops (snd layer) ctx (op_uninitialized ops))
       (\<lambda>(ctx1, tmp_rm). Layers_update ops layers False ctx1 (if is_first then tmp_rm else root_motion))"
  by pat_completeness auto
termination
  by (relation "measure (case_sum (\<lambda>p. size (fst (snd p))) (\<lambda>p. size_list (size_prod (\<lambda>x. 0) size) (fst (snd p))))")
    (simp_all add: size_child_Select size_child_Group size_layer)

subsection \<open>getPose\<close>

text \<open>
  The pose is an object of the renderer. Here it is the list of the samplings
  (\<^verbatim>\<open>Animation::getRelativePose\<close>) made into it, each with the slot of the animation,
  the time sampled, the weight and the bone mask.
\<close>

type_synonym Pose = "(nat \<times> Time \<times> real \<times> nat) list"

text \<open>The two static functions \<^verbatim>\<open>getPose\<close>, for a \<^verbatim>\<open>Time\<close> and for a relative time.\<close>

definition anim_getPose_time ::
  "RuntimeContext \<Rightarrow> Time \<Rightarrow> real \<Rightarrow> nat \<Rightarrow> Pose \<Rightarrow> nat \<Rightarrow> bool \<Rightarrow> Pose option" where
  "anim_getPose_time ctx time weight m_slot pose mask_idx looped =
     (case rc_animations ctx m_slot of
        None \<Rightarrow> Some pose
      | Some anim \<Rightarrow>
          if \<not> rc_model_ready ctx then Some pose
          else if \<not> anim_ready anim then Some pose
          else if looped then
            (if anim_length anim = 0 then None
             else Some (pose @ [(m_slot, time mod anim_length anim, weight, mask_idx)]))
          else Some (pose @ [(m_slot, min time (anim_length anim), weight, mask_idx)]))"

definition anim_getPose_rel ::
  "NodeOps \<Rightarrow> RuntimeContext \<Rightarrow> real \<Rightarrow> real \<Rightarrow> nat \<Rightarrow> Pose \<Rightarrow> nat \<Rightarrow> bool \<Rightarrow> Pose option" where
  "anim_getPose_rel ops ctx rel_time weight m_slot pose mask_idx looped =
     (case rc_animations ctx m_slot of
        None \<Rightarrow> Some pose
      | Some anim \<Rightarrow>
          if \<not> rc_model_ready ctx then Some pose
          else if \<not> anim_ready anim then Some pose
          else
            (let time = op_time_mul ops (anim_length anim) rel_time in
             if looped then
               (if anim_length anim = 0 then None
                else Some (pose @ [(m_slot, time mod anim_length anim, weight, mask_idx)]))
             else Some (pose @ [(m_slot, min time (anim_length anim), weight, mask_idx)])))"

text \<open>\<^verbatim>\<open>clamp(x, 0.f, 1.f)\<close>\<close>

definition clamp01 :: "real \<Rightarrow> real" where
  "clamp01 x = (if x < 0 then 0 else if x > 1 then 1 else x)"

definition Blend1DNode_getPose ::
  "NodeOps \<Rightarrow> nat \<Rightarrow> Blend1D_Child list \<Rightarrow> RuntimeContext \<Rightarrow> real \<Rightarrow> Pose \<Rightarrow> nat \<Rightarrow> (RuntimeContext \<times> Pose) option" where
  "Blend1DNode_getPose ops m_input_index m_children ctx weight pose mask_idx =
     Option.bind (read_Float ctx)
       (\<lambda>(t, ctx1).
          if m_children = [] then Some (ctx1, pose)
          else if length m_children = 1 then
            map_option (Pair ctx1)
              (anim_getPose_rel ops ctx1 t weight (b1_slot (m_children ! 0)) pose mask_idx True)
          else
            Option.bind (getActivePair m_children (getInputValue ctx1 m_input_index))
              (\<lambda>pair. Option.bind
                 (anim_getPose_rel ops ctx1 t weight (b1_slot (m_children ! pair_a pair)) pose mask_idx True)
                 (\<lambda>pose1. case pair_b pair of
                      Some b \<Rightarrow> map_option (Pair ctx1)
                        (anim_getPose_rel ops ctx1 t (weight * pair_t pair) (b1_slot (m_children ! b)) pose1 mask_idx True)
                    | None \<Rightarrow> Some (ctx1, pose1))))"

definition Blend2DNode_getPose ::
  "NodeOps \<Rightarrow> nat \<Rightarrow> nat \<Rightarrow> Blend2D_Child list \<Rightarrow> Triangle list \<Rightarrow> RuntimeContext \<Rightarrow> real \<Rightarrow> Pose \<Rightarrow> nat
     \<Rightarrow> (RuntimeContext \<times> Pose) option" where
  "Blend2DNode_getPose ops m_x_input_index m_y_input_index m_children m_triangles ctx weight pose mask_idx =
     Option.bind (read_Float ctx)
       (\<lambda>(t, ctx1).
          if m_children = [] then Some (ctx1, pose)
          else if length m_children < 3 then
            map_option (Pair ctx1)
              (anim_getPose_rel ops ctx1 t weight (b2_slot (m_children ! 0)) pose mask_idx True)
          else
            (let input_val = (getInputValue ctx1 m_x_input_index, getInputValue ctx1 m_y_input_index);
                 trio = getActiveTrio m_children m_triangles input_val
             in Option.bind
                  (anim_getPose_rel ops ctx1 t weight (b2_slot (m_children ! trio_a trio)) pose mask_idx True)
                  (\<lambda>pose1. Option.bind
                     (if trio_tb trio > 0
                      then anim_getPose_rel ops ctx1 t (weight * trio_tb trio)
                             (b2_slot (m_children ! trio_b trio)) pose1 mask_idx True
                      else Some pose1)
                     (\<lambda>pose2. map_option (Pair ctx1)
                        (if trio_tc trio > 0
                         then anim_getPose_rel ops ctx1 t (weight * trio_tc trio)
                                (b2_slot (m_children ! trio_c trio)) pose2 mask_idx True
                         else Some pose2)))))"

text \<open>\<open>getPose\<close> of the seven node kinds; \<open>Layers_getPose\<close> is the loop of \<^verbatim>\<open>LayersNode::getPose\<close>.\<close>

function (sequential) Node_getPose ::
    "NodeOps \<Rightarrow> Node \<Rightarrow> RuntimeContext \<Rightarrow> real \<Rightarrow> Pose \<Rightarrow> nat \<Rightarrow> (RuntimeContext \<times> Pose) option"
  and Layers_getPose ::
    "NodeOps \<Rightarrow> (nat \<times> Node) list \<Rightarrow> RuntimeContext \<Rightarrow> real \<Rightarrow> Pose \<Rightarrow> (RuntimeContext \<times> Pose) option" where
  "Node_getPose ops (AnimationNode m_slot looped) ctx weight pose mask_idx =
     Option.bind (read_Time ctx)
       (\<lambda>(t, ctx1). map_option (Pair ctx1) (anim_getPose_time ctx1 t weight m_slot pose mask_idx looped))"
| "Node_getPose ops (Blend1DNode m_input_index m_children) ctx weight pose mask_idx =
     Blend1DNode_getPose ops m_input_index m_children ctx weight pose mask_idx"
| "Node_getPose ops (Blend2DNode m_x_input_index m_y_input_index m_children m_triangles) ctx weight pose mask_idx =
     Blend2DNode_getPose ops m_x_input_index m_y_input_index m_children m_triangles ctx weight pose mask_idx"
| "Node_getPose ops (ConditionNode m_condition m_blend_length (Some m_true_node) (Some m_false_node)) ctx weight pose mask_idx =
     Option.bind (read_Condition ctx)
       (\<lambda>((t, is_true), ctx1).
          if t < m_blend_length then
            Option.bind (Node_getPose ops (if is_true then m_false_node else m_true_node) ctx1 weight pose mask_idx)
              (\<lambda>(ctx2, pose1).
                 Node_getPose ops (if is_true then m_true_node else m_false_node) ctx2
                   (weight * clamp01 (op_time_div ops t m_blend_length)) pose1 mask_idx)
          else Node_getPose ops (if is_true then m_true_node else m_false_node) ctx1 weight pose mask_idx)"
| "Node_getPose ops (ConditionNode m_condition m_blend_length None m_false_node) ctx weight pose mask_idx =
     Some (ctx, pose)"
| "Node_getPose ops (ConditionNode m_condition m_blend_length (Some m_true_node) None) ctx weight pose mask_idx =
     Some (ctx, pose)"
| "Node_getPose ops (SelectNode m_blend_length m_input_index m_children) ctx weight pose mask_idx =
     (if m_children = [] then Some (ctx, pose)
      else Option.bind (read_Select ctx)
        (\<lambda>((from, to, t), ctx1).
           if from < length m_children then
             Option.bind (Node_getPose ops (snd (m_children ! from)) ctx1 weight pose mask_idx)
               (\<lambda>(ctx2, pose1).
                  if from \<noteq> to then
                    (if to < length m_children then
                       Node_getPose ops (snd (m_children ! to)) ctx2
                         (weight * clamp01 (op_seconds ops t / op_seconds ops m_blend_length)) pose1 mask_idx
                     else None)
                  else Some (ctx2, pose1))
           else None))"
| "Node_getPose ops (GroupNode m_blend_length m_children m_transitions) ctx weight pose mask_idx =
     Option.bind (read_Group ctx)
       (\<lambda>((from, to, t, blend_length), ctx1).
          if m_children = [] then Some (ctx1, pose)
          else if from < length m_children then
            Option.bind (Node_getPose ops (snd (snd (m_children ! from))) ctx1 weight pose mask_idx)
              (\<lambda>(ctx2, pose1).
                 if from \<noteq> to then
                   (if to < length m_children then
                      Node_getPose ops (snd (snd (m_children ! to))) ctx2
                        (weight * clamp01 (op_seconds ops t / op_seconds ops blend_length)) pose1 mask_idx
                    else None)
                 else Some (ctx2, pose1))
          else None)"
| "Node_getPose ops (LayersNode m_layers) ctx weight pose mask_idx = Layers_getPose ops m_layers ctx weight pose"
| "Layers_getPose ops [] ctx weight pose = Some (ctx, pose)"
| "Layers_getPose ops (layer # layers) ctx weight pose =
     Option.bind (Node_getPose ops (snd layer) ctx weight pose (fst layer))
       (\<lambda>(ctx1, pose1). Layers_getPose ops layers ctx1 weight pose1)"
  by pat_completeness auto
termination
  by (relation "measure (case_sum (\<lambda>p. size (fst (snd p))) (\<lambda>p. size_list (size_prod (\<lambda>x. 0) size) (fst (snd p))))")
    (simp_all add: size_child_Select size_child_Group size_layer)

subsection \<open>An instance of the node operations\<close>

text \<open>
  For runs on concrete inputs: a second has \<open>2 ^ 15\<close> ticks, products and quotients of
  times with numbers are rounded down, rigid motions compose as translations followed by
  quaternion products, and the interpolation is linear in every component.
\<close>

definition ticks_of :: "real \<Rightarrow> Time" where
  "ticks_of x = word_of_int \<lfloor>x\<rfloor>"

definition sample_ops :: NodeOps where
  "sample_ops =
     \<lparr> op_time_mul = (\<lambda>t x. ticks_of (real (unat t) * x)),
       op_time_div = (\<lambda>a b. real (unat a) / real (unat b)),
       op_lerp = (\<lambda>a b x. ticks_of (real (unat a) * (1 - x) + real (unat b) * x)),
       op_seconds = (\<lambda>t. real (unat t) / 32768),
       op_fromSeconds = (\<lambda>x. ticks_of (x * 32768)),
       op_mul = (\<lambda>a b. \<lparr> lrt_pos = vec3_add (quat_rotate (lrt_rot a) (lrt_pos b)) (lrt_pos a),
                          lrt_rot = quat_mul (lrt_rot a) (lrt_rot b) \<rparr>),
       op_inverted = (\<lambda>a. case (lrt_rot a, lrt_pos a) of ((x, y, z, w), (px, py, pz)) \<Rightarrow>
                          \<lparr> lrt_pos = quat_rotate (- x, - y, - z, w) (- px, - py, - pz),
                            lrt_rot = (- x, - y, - z, w) \<rparr>),
       op_interpolate = (\<lambda>a b x. case (lrt_pos a, lrt_pos b, lrt_rot a, lrt_rot b) of
                          ((ax, ay, az), (bx, by, bz), (qx, qy, qz, qw), (rx, ry, rz, rw)) \<Rightarrow>
                            \<lparr> lrt_pos = (ax + (bx - ax) * x, ay + (by - ay) * x, az + (bz - az) * x),
                              lrt_rot = (qx + (rx - qx) * x, qy + (ry - qy) * x,
                                         qz + (rz - qz) * x, qw + (rw - qw) * x) \<rparr>),
       op_uninitialized = \<lparr> lrt_pos = (0, 0, 0), lrt_rot = (0, 0, 0, 0) \<rparr> \<rparr>"

text \<open>
  Between two frames the controller makes the stream written in the last frame the stream
  to read and starts an empty stream to write (the \<open>input_runtime\<close> cursor runs over the
  data of the previous frame).
\<close>

definition next_frame :: "(nat \<Rightarrow> real) \<Rightarrow> RuntimeContext \<Rightarrow> RuntimeContext" where
  "next_frame inputs ctx = ctx\<lparr> rc_input_runtime := rc_data ctx, rc_data := [], rc_inputs := inputs \<rparr>"

text \<open>The two streams of the context that a call returns, when it returns.\<close>

definition streams_after :: "(RuntimeContext \<times> 'a) option \<Rightarrow> (cell list \<times> cell list) option" where
  "streams_after r = (case r of Some (ctx, x) \<Rightarrow> Some (rc_input_runtime ctx, rc_data ctx) | None \<Rightarrow> None)"

subsection \<open>A tree with a Condition node under a Select node\<close>

text \<open>
  A Condition node with a blend length of 100 ticks over two looped animations, true when
  input 1 is positive; a Select node on input 0, with a blend length of 2 ticks, over that
  Condition node (up to 0.5) and a third animation. No animation resource is bound.
\<close>

definition crossfade_condition :: Node where
  "crossfade_condition =
     ConditionNode (\<lambda>inputs. inputs 1 > 0) 100 (Some (AnimationNode 0 True)) (Some (AnimationNode 1 True))"

definition select_over_condition :: Node where
  "select_over_condition = SelectNode 2 0 [(1 / 2, crossfade_condition), (1, AnimationNode 2 True)]"

definition empty_context :: RuntimeContext where
  "empty_context = \<lparr> rc_data = [], rc_input_runtime = [], rc_inputs = (\<lambda>i. 0),
                      rc_animations = (\<lambda>i. None), rc_model_ready = True, rc_time_delta = 1 \<rparr>"

text \<open>One frame of the tree: the update pass over the data of the previous frame.\<close>

definition frame :: "NodeOps \<Rightarrow> Node \<Rightarrow> (nat \<Rightarrow> real) \<Rightarrow> RuntimeContext \<Rightarrow> RuntimeContext option" where
  "frame ops node inputs ctx = map_option fst (Node_update ops node (next_frame inputs ctx) identity_motion)"

subsection \<open>The exit-time window over the natural numbers\<close>

text \<open>
  The half-open window from \<open>beg\<close> to \<open>beg + dt\<close>, read without wrap-around, contains the
  point \<open>point\<close> ticks after the start of the loop of length \<open>len\<close> that \<open>beg\<close> lies in.
\<close>

definition exit_point_in_window :: "Time \<Rightarrow> Time \<Rightarrow> Time \<Rightarrow> Time \<Rightarrow> bool" where
  "exit_point_in_window beg len point dt =
     (unat beg \<le> unat (beg - beg mod len) + unat point
      \<and> unat (beg - beg mod len) + unat point < unat beg + unat dt)"

subsection \<open>A Group node with one gated transition\<close>

text \<open>
  Two selectable children over a looped clip of \<open>65536\<close> ticks (two seconds of
  \<open>sample_ops\<close>): the guard of the first holds while input 0 is not positive, the guard of
  the second while it is positive; one transition from the first to the second child with
  the exit time \<open>0.5\<close>. \<open>gate_context beg dt\<close> is the context in which the node decides
  when its first child is current at the time \<open>beg\<close> and input 0 has become 1;
  \<open>gate_start\<close> is the context in which the node is entered, with input 0 at 0.
\<close>

definition gate_children :: "(Condition \<times> bool \<times> Node) list" where
  "gate_children = [(\<lambda>inputs. inputs 0 \<le> 0, True, AnimationNode 0 True),
                    (\<lambda>inputs. inputs 0 > 0, True, AnimationNode 1 True)]"

definition two_second_clip :: Animation where
  "two_second_clip = \<lparr> anim_ready = True, anim_length = 65536, anim_getRootMotion = (\<lambda>t. identity_motion) \<rparr>"

definition gate_context :: "Time \<Rightarrow> Time \<Rightarrow> RuntimeContext" where
  "gate_context beg dt = \<lparr> rc_data = [], rc_input_runtime = [CTime beg], rc_inputs = (\<lambda>i. 1),
                            rc_animations = (\<lambda>i. Some two_second_clip), rc_model_ready = True,
                            rc_time_delta = dt \<rparr>"

definition gate_transition :: Transition where
  "gate_transition = \<lparr> tn_from = 0, tn_to = 1, tn_blend_length = 10, tn_exit_time = 1 / 2 \<rparr>"

definition gate_group :: Node where
  "gate_group = GroupNode 0 gate_children [gate_transition]"

definition gate_start :: RuntimeContext where
  "gate_start = \<lparr> rc_data = [], rc_input_runtime = [], rc_inputs = (\<lambda>i. 0),
                   rc_animations = (\<lambda>i. Some two_second_clip), rc_model_ready = True,
                   rc_time_delta = 0 \<rparr>"

subsection \<open>A Blend2D node with three children\<close>

definition triangle_children :: "Blend2D_Child list" where
  "triangle_children = [\<lparr> b2_value = (0, 0), b2_slot = 0 \<rparr>, \<lparr> b2_value = (1, 0), b2_slot = 1 \<rparr>,
                        \<lparr> b2_value = (0, 1), b2_slot = 2 \<rparr>]"

section \<open>The animation module: one tick of an animator (animation_module.cpp, updateAnimator)\<close>

text \<open>
  The \<^verbatim>\<open>Animator\<close> component: the state of its controller resource (\<open>None\<close> for
  \<^verbatim>\<open>nullptr\<close>, otherwise \<^verbatim>\<open>isReady()\<close>), the default set, the root-motion flag,
  the runtime context (\<open>None\<close> until it is created), the root motion of the last update
  and the four IK slots.
\<close>

record Animator =
  a_entity :: int
  a_resource_ready :: "bool option"
  a_default_set :: nat
  a_use_root_motion :: bool
  a_ctx :: "RuntimeContext option"
  a_root_motion :: LocalRigidTransform
  a_inverse_kinematics :: "IK list"

text \<open>
  What \<^verbatim>\<open>updateAnimator\<close> calls outside the sources, as parameters: the controller
  (\<^verbatim>\<open>createRuntime\<close>, \<^verbatim>\<open>update\<close>), the world and the render module
  (\<^verbatim>\<open>hasComponent\<close> for the model instance, the model and its readiness,
  \<^verbatim>\<open>lockPose\<close>), the pose operations (\<^verbatim>\<open>getRelativePose\<close>,
  \<^verbatim>\<open>evalBlendStack\<close>, \<^verbatim>\<open>updateIK\<close>, \<^verbatim>\<open>computeAbsolute\<close>), the two
  statements that move a transform by the root motion, and \<^verbatim>\<open>Time::fromSeconds\<close>.
\<close>

record 'pose AnimatorEnv =
  env_createRuntime :: "nat \<Rightarrow> RuntimeContext"
  env_resource_update :: "RuntimeContext \<Rightarrow> LocalRigidTransform \<Rightarrow> RuntimeContext \<times> LocalRigidTransform"
  env_has_model_instance :: bool
  env_model_ready :: "bool option"
  env_lockPose :: "'pose option"
  env_getRelativePose :: "'pose \<Rightarrow> 'pose"
  env_evalBlendStack :: "RuntimeContext \<Rightarrow> 'pose \<Rightarrow> 'pose"
  env_updateIK :: "nat \<Rightarrow> IK \<Rightarrow> 'pose \<Rightarrow> 'pose"
  env_computeAbsolute :: "'pose \<Rightarrow> 'pose"
  env_apply_root_motion :: "LocalRigidTransform \<Rightarrow> Transform \<Rightarrow> Transform"
  env_fromSeconds :: "real \<Rightarrow> Time"

text \<open>
  \<^verbatim>\<open>updateAnimator(Animator&, float)\<close>: the animator, the pose written (\<open>None\<close> when
  the pose was not written) and the world after the call.
\<close>

definition updateAnimator ::
  "TransformOps \<Rightarrow> 'pose AnimatorEnv \<Rightarrow> real \<Rightarrow> Animator \<Rightarrow> World \<Rightarrow> (Animator \<times> 'pose option \<times> World) option" where
  "updateAnimator ops env time_delta animator w =
     (if a_resource_ready animator \<noteq> Some True then Some (animator, None, w)
      else
        (let ctx = (case a_ctx animator of
                      None \<Rightarrow> env_createRuntime env (a_default_set animator)
                    | Some c \<Rightarrow> c);
             animator1 = animator\<lparr> a_ctx := Some ctx \<rparr>
         in if \<not> env_has_model_instance env then Some (animator1, None, w)
            else if env_model_ready env \<noteq> Some True then Some (animator1, None, w)
            else
              (case env_lockPose env of
                 None \<Rightarrow> Some (animator1, None, w)
               | Some pose \<Rightarrow>
                   (let ctx1 = ctx\<lparr> rc_model_ready := True, rc_time_delta := env_fromSeconds env time_delta \<rparr>;
                        (ctx2, root_motion) = env_resource_update env ctx1 (a_root_motion animator);
                        pose1 = env_evalBlendStack env ctx2 (env_getRelativePose env pose);
                        pose2 = ik_loop (env_updateIK env) 0 (a_inverse_kinematics animator) pose1;
                        pose3 = env_computeAbsolute env pose2;
                        animator2 = animator\<lparr> a_ctx := Some ctx2, a_root_motion := root_motion \<rparr>
                    in if a_use_root_motion animator then
                         map_option (\<lambda>w'. (animator2, Some pose3, w'))
                           (setTransform ops (a_entity animator)
                              (env_apply_root_motion env root_motion (getTransform w (a_entity animator))) w)
                       else Some (animator2, Some pose3, w)))))"

text \<open>An environment for runs on concrete inputs: nothing is available.\<close>

definition unavailable_env :: "Pose AnimatorEnv" where
  "unavailable_env =
     \<lparr> env_createRuntime = (\<lambda>n. empty_context),
       env_resource_update = (\<lambda>ctx root_motion. (ctx, root_motion)),
       env_has_model_instance = False,
       env_model_ready = None,
       env_lockPose = None,
       env_getRelativePose = (\<lambda>pose. pose),
       env_evalBlendStack = (\<lambda>ctx pose. pose),
       env_updateIK = (\<lambda>idx ik pose. pose),
       env_computeAbsolute = (\<lambda>pose. pose),
       env_apply_root_motion = (\<lambda>root_motion tr. tr),
       env_fromSeconds = op_fromSeconds sample_ops \<rparr>"

section \<open>Blend1D: properties\<close>




section \<open>Inverse-kinematics loop: properties\<close>




section \<open>Blend2D triangulation: properties\<close>

text \<open>
  C10. After \<open>dataChanged\<close> the child list is the list of the real children again (the
  three synthetic bounding-triangle vertices are gone), and every triangle left has its
  three vertex indices below the number of real children.
\<close>

theorem dataChanged_no_synthetic_vertex:
  "fst (dataChanged ortho (m_children, m_triangles)) = m_children
   \<and> list_all (\<lambda>t. tri_a t < length m_children \<and> tri_b t < length m_children \<and> tri_c t < length m_children)
       (snd (dataChanged ortho (m_children, m_triangles)))"
  by (simp add: dataChanged_def Let_def eraseItems_def list_all_iff butlast_append)

text \<open>A run on three children: one triangle over the three real children is left.\<close>

lemma dataChanged_three_children:
  "dataChanged (\<lambda>(x, y). (y, - x))
     ([\<lparr> b2_value = (0, 0), b2_slot = 0 \<rparr>, \<lparr> b2_value = (1, 0), b2_slot = 1 \<rparr>,
       \<lparr> b2_value = (0, 1), b2_slot = 2 \<rparr>], [])
   = ([\<lparr> b2_value = (0, 0), b2_slot = 0 \<rparr>, \<lparr> b2_value = (1, 0), b2_slot = 1 \<rparr>,
       \<lparr> b2_value = (0, 1), b2_slot = 2 \<rparr>],
      [\<lparr> tri_a = 0, tri_b = 1, tri_c = 2, circumcircle_center = (1 / 2, 1 / 2) \<rparr>])"
  by code_simp

section \<open>The World: properties\<close>

lemma rigid_mul_identity: "rigid_mul default_Transform t = t"
  by (cases t, cases "tr_pos t", cases "tr_rot t", cases "tr_scale t")
    (auto simp: rigid_mul_def default_Transform_def quat_rotate_def quat_mul_def vec3_add_def
      vec3_mul_def vec3_cross_def)

lemma rigid_inverted_identity: "rigid_inverted default_Transform = default_Transform"
  by (simp add: rigid_inverted_def default_Transform_def quat_rotate_def vec3_add_def
      vec3_mul_def vec3_cross_def)

lemma rigid_mul_translation:
  "tr_pos (rigid_mul (default_Transform\<lparr> tr_pos := p \<rparr>) t) = vec3_add p (tr_pos t)"
  by (cases p, cases "tr_pos t")
    (auto simp: rigid_mul_def default_Transform_def quat_rotate_def vec3_add_def vec3_mul_def
      vec3_cross_def)

text \<open>
  C8. In a new world, entity A is created at the origin with the identity rotation and
  entity B anywhere. After \<open>setParent(A, B)\<close> and \<open>setLocalPosition(B, (1,0,0))\<close> the
  position of B is \<open>(1,0,0)\<close>; after \<open>setPosition(A, (5,0,0))\<close> it is \<open>(6,0,0)\<close>. The
  transform operations are any that treat the transform at the origin with identity
  rotation and unit scale as the identity, and that transform, moved to \<open>p\<close>, as the
  translation by \<open>p\<close>.
\<close>

theorem parent_child_position_scenario:
  assumes mul_identity: "\<And>t. t_mul ops default_Transform t = t"
    and inverted_identity: "t_inverted ops default_Transform = default_Transform"
    and mul_translation:
      "\<And>p t. tr_pos (t_mul ops (default_Transform\<lparr> tr_pos := p \<rparr>) t) = vec3_add p (tr_pos t)"
  shows "case createEntity new_World (0, 0, 0) (0, 0, 0, 1) of (wA, a) \<Rightarrow>
         case createEntity wA pos_b rot_b of (wB, b) \<Rightarrow>
           (\<exists>w1 w2 w3. setParent ops a b wB = Some w1
              \<and> setLocalPosition ops b (1, 0, 0) w1 = Some w2
              \<and> getPosition w2 b = (1, 0, 0)
              \<and> setPosition ops a (5, 0, 0) w2 = Some w3
              \<and> getPosition w3 b = (6, 0, 0))"
  by (simp add: createEntity_def new_World_def Let_def fresh_EntityData_def setParent_def isValid_def
      isDescendant_def getFirstChild_def hierarchy_idx_def INVALID_ENTITY_def isDescendant_loop.simps
      emplace_hierarchy_def set_parent_at_def hierarchy_at_def getTransform_def set_local_transform_at_def
      set_next_sibling_at_def set_first_child_at_def setLocalPosition_def updateGlobalTransform_def
      setTransform_def transformEntity_def transformEntity_children.simps getPosition_def setPosition_def
      default_Transform_def [symmetric] mul_identity inverted_identity mul_translation vec3_add_def)

theorem parent_child_position_scenario_witness:
  "case createEntity new_World (0, 0, 0) (0, 0, 0, 1) of (wA, a) \<Rightarrow>
   case createEntity wA (7, 8, 9) (0, 1, 0, 0) of (wB, b) \<Rightarrow>
     (\<exists>w1 w2 w3. setParent rigid_ops a b wB = Some w1
        \<and> setLocalPosition rigid_ops b (1, 0, 0) w1 = Some w2
        \<and> getPosition w2 b = (1, 0, 0)
        \<and> setPosition rigid_ops a (5, 0, 0) w2 = Some w3
        \<and> getPosition w3 b = (6, 0, 0))"
  by (rule parent_child_position_scenario)
    (simp_all add: rigid_ops_def rigid_mul_identity rigid_inverted_identity rigid_mul_translation)

text \<open>
  C2 (what the code does). A world with one live entity of scale \<open>(1, 2, 3)\<close> is
  serialized and read back into a new world with \<open>vec3_scale = true\<close> and an empty entity
  map: the entity is mapped to entity 0 and its scale is \<open>(1, 1, 1)\<close>.
\<close>

theorem deserialize_overwrites_scale:
  "Option.bind (setScale ops 0 (1, 2, 3) (fst (createEntity new_World (0, 0, 0) (0, 0, 0, 1))))
     (\<lambda>w. Option.bind (deserialize (serialize w) [] True new_World)
        (\<lambda>(w', entity_map).
           Some (hasEntity w 0, getScale w 0,
                 EntityMap_get_ptr entity_map 0, getScale w' (EntityMap_get_ptr entity_map 0))))
   = Some (True, (1, 2, 3), 0, (1, 1, 1))"
  by code_simp

section \<open>The blend node tree: properties\<close>

text \<open>
  C1 (what the code does). A Condition node in the middle of a crossfade has written its
  \<^verbatim>\<open>RuntimeData\<close> and the data of both children. \<open>update\<close> reads these three
  cells and \<open>getPose\<close> reads the three cells that \<open>update\<close> wrote, but \<open>skip\<close> moves the
  cursor over two cells only (its \<^verbatim>\<open>RuntimeData\<close> and one child). In the tree
  \<open>select_over_condition\<close> this state is reached after five frames; in the sixth frame the
  Select node ends its own crossfade and skips the Condition node, and the animation node
  after it reads the cell that the second child of the Condition node wrote
  (\<open>CTime 3\<close>, its own being \<open>CTime 2\<close>), leaving one cell unread.
\<close>

theorem ConditionNode_skip_leaves_cell:
  "streams_after (Node_update ops crossfade_condition
       (empty_context\<lparr> rc_input_runtime := [CCondition 0 True, CTime 5, CTime 7, CTime 99] \<rparr>) identity_motion)
     = Some ([CTime 99], [CCondition 1 True, CTime 6, CTime 8])
   \<and> streams_after (Node_getPose ops crossfade_condition
       (empty_context\<lparr> rc_input_runtime := [CCondition 1 True, CTime 6, CTime 8, CTime 99] \<rparr>) 1 [] 0)
     = Some ([CTime 99], [])
   \<and> Node_skip crossfade_condition
       (empty_context\<lparr> rc_input_runtime := [CCondition 0 True, CTime 5, CTime 7, CTime 99] \<rparr>)
     = Some (empty_context\<lparr> rc_input_runtime := [CTime 7, CTime 99] \<rparr>)
   \<and> Option.bind (frame ops select_over_condition (\<lambda>i. 0) (Node_enter select_over_condition empty_context))
       (\<lambda>c2. Option.bind (frame ops select_over_condition (\<lambda>i. if i = 1 then 1 else 0) c2)
       (\<lambda>c3. Option.bind (frame ops select_over_condition (\<lambda>i. 1) c3)
       (\<lambda>c4. Option.bind (frame ops select_over_condition (\<lambda>i. 1) c4)
       (\<lambda>c5. Option.bind (frame ops select_over_condition (\<lambda>i. 1) c5)
       (\<lambda>c6. Option.bind (frame ops select_over_condition (\<lambda>i. 1) c6)
       (\<lambda>c7. Some (rc_data c6, rc_data c7, rc_input_runtime c7)))))))
     = Some ([CSelect 0 1 2, CCondition 3 True, CTime 5, CTime 3, CTime 2],
             [CSelect 1 1 0, CTime 4], [CTime 2])"
  by (simp add: streams_after_def frame_def select_over_condition_def crossfade_condition_def
      empty_context_def next_frame_def AnimationNode_update_def write_cell_def word_le_nat_alt
      word_less_nat_alt getChildIndex_def getInputValue_def skip_4_bytes_def anim_getPose_time_def)

lemma exit_window_word:
  fixes beg dt len point :: Time
  shows "(\<not> (beg - beg mod len + point < beg \<or> beg - beg mod len + point \<ge> beg + dt))
       = (exit_point_in_window beg len point dt \<and> unat beg + unat dt < 2 ^ 32)"
proof (cases "unat beg + unat dt < 2 ^ 32")
  case nowrap: True
  define ls where "ls = beg - beg mod len"
  have "unat (beg mod len) \<le> unat beg" by (simp add: unat_mod)
  then have ls_le: "unat ls \<le> unat beg"
    by (simp add: ls_def unat_sub word_le_nat_alt)
  have e: "unat (beg + dt) = unat beg + unat dt"
    using nowrap by (simp add: unat_add_lem [THEN iffD1])
  have b: "unat beg < 2 ^ 32" "unat point < 2 ^ 32" "unat ls < 2 ^ 32"
    using unsigned_less [of beg] unsigned_less [of point] unsigned_less [of ls] by simp_all
  show ?thesis
  proof (cases "unat ls + unat point < 2 ^ 32")
    case True
    then have "unat (ls + point) = unat ls + unat point"
      by (simp add: unat_add_lem [THEN iffD1])
    with nowrap show ?thesis
      unfolding exit_point_in_window_def ls_def [symmetric]
      by (auto simp: word_less_nat_alt word_le_nat_alt e)
  next
    case False
    then have "unat (ls + point) = unat ls + unat point - 2 ^ 32"
      using b by (simp add: unat_word_ariths mod_if)
    with False b ls_le nowrap show ?thesis
      unfolding exit_point_in_window_def ls_def [symmetric]
      by (auto simp: word_less_nat_alt word_le_nat_alt e)
  qed
next
  case False
  have b: "unat beg < 2 ^ 32" "unat dt < 2 ^ 32"
    using unsigned_less [of beg] unsigned_less [of dt] by simp_all
  from False have "unat (beg + dt) = unat beg + unat dt - 2 ^ 32"
    using b by (simp add: unat_word_ariths mod_if)
  with b False have "beg + dt < beg" by (simp add: word_less_nat_alt)
  with False show ?thesis by (auto simp: word_less_nat_alt word_le_nat_alt)
qed

text \<open>
  C4 (as the code has it). A Group node is in no transition and its current child fails
  its guard or is not selectable. A transition out of the current child (or from the
  wildcard) to another child whose guard holds carries the exit time \<open>0.5\<close>, and the clip
  of the current child is two seconds long. When the loop over the transitions reaches this
  transition, it fires exactly if the window from \<open>beg\<close> to \<open>beg + time_delta\<close> contains the
  one-second point of the current loop and the end of the tick, \<open>beg + time_delta\<close>, does
  not wrap around the 32-bit tick counter; otherwise the loop goes on with
  \<^verbatim>\<open>waiting_for_exit_time\<close> set. When it is the only transition, the node starts the
  transition in exactly those ticks and stays in its child in all others: in no tick whose
  window misses the one-second point, and in no tick whose end wraps around, whether its
  window contains the point or not.
\<close>

theorem exit_time_gate_fires_in_window:
  assumes cur: "from < length m_children"
    and tr_from: "tn_from tr = from \<or> tn_from tr = WILDCARD"
    and tr_to: "tn_to tr \<noteq> from" "tn_to tr \<noteq> WILDCARD" "tn_to tr < length m_children"
    and target: "fst (m_children ! tn_to tr) (rc_inputs ctx)"
    and gate: "tn_exit_time tr = 1 / 2"
    and len: "Node_length ops ctx (snd (snd (m_children ! from))) = Some len" "len \<noteq> 0"
      "op_seconds ops len = 2"
    and beg: "Node_time ops ctx (snd (snd (m_children ! from))) = Some beg"
  shows "scan_transitions ops ctx m_children from from (tr # rest) waiting =
           (if exit_point_in_window beg len (op_fromSeconds ops 1) (rc_time_delta ctx)
               \<and> unat beg + unat (rc_time_delta ctx) < 2 ^ 32
            then Some (Fire (tn_to tr) (tn_blend_length tr))
            else scan_transitions ops ctx m_children from from rest True)
       \<and> (\<not> fst (m_children ! from) (rc_inputs ctx) \<or> \<not> fst (snd (m_children ! from)) \<longrightarrow>
           Group_decide ops ctx m_blend_length m_children [tr] from from =
             (if exit_point_in_window beg len (op_fromSeconds ops 1) (rc_time_delta ctx)
                 \<and> unat beg + unat (rc_time_delta ctx) < 2 ^ 32
              then Some (Some (tn_to tr, tn_blend_length tr)) else Some None))"
proof -
  have reached: "exit_time_reached ops ctx (snd (snd (m_children ! from))) (tn_exit_time tr)
          = Some (exit_point_in_window beg len (op_fromSeconds ops 1) (rc_time_delta ctx)
                  \<and> unat beg + unat (rc_time_delta ctx) < 2 ^ 32)"
    using len beg gate exit_window_word [of beg len "op_fromSeconds ops 1" "rc_time_delta ctx"]
    by (simp add: exit_time_reached_def Let_def)
  have scan: "\<And>rest waiting. scan_transitions ops ctx m_children from from (tr # rest) waiting =
           (if exit_point_in_window beg len (op_fromSeconds ops 1) (rc_time_delta ctx)
               \<and> unat beg + unat (rc_time_delta ctx) < 2 ^ 32
            then Some (Fire (tn_to tr) (tn_blend_length tr))
            else scan_transitions ops ctx m_children from from rest True)"
    using tr_from tr_to target gate reached by auto
  show ?thesis
    using scan [of "[]" False] scan [of rest waiting]
    by (auto simp: Group_decide_def Let_def)
qed

text \<open>
  The theorem at three ticks of \<open>gate_children\<close>: a tick whose window contains the
  one-second point (the transition starts), a tick whose window misses it, and a tick whose
  window contains it and whose end wraps around (the node stays in its child in both).
\<close>

theorem exit_time_gate_fires_in_window_witness:
  "Group_decide sample_ops (gate_context 32758 100) 0 gate_children [gate_transition] 0 0 = Some (Some (1, 10))
   \<and> Group_decide sample_ops (gate_context 100 100) 0 gate_children [gate_transition] 0 0 = Some None
   \<and> Group_decide sample_ops (gate_context 4294934518 32868) 0 gate_children [gate_transition] 0 0 = Some None"
  using exit_time_gate_fires_in_window
      [of 0 gate_children gate_transition "gate_context 32758 100" sample_ops 65536 32758 "[]" False 0]
    exit_time_gate_fires_in_window
      [of 0 gate_children gate_transition "gate_context 100 100" sample_ops 65536 100 "[]" False 0]
    exit_time_gate_fires_in_window
      [of 0 gate_children gate_transition "gate_context 4294934518 32868" sample_ops 65536 4294934518 "[]" False 0]
  by (simp add: gate_children_def gate_context_def gate_transition_def two_second_clip_def peek_Time_def
      WILDCARD_def sample_ops_def ticks_of_def exit_point_in_window_def)

text \<open>
  C4 (as stated) fails where the end of the tick wraps around. The node \<open>gate_group\<close> is
  entered with input 0 at 0, so that its first child is current; one frame of \<open>4294934518\<close>
  ticks brings the looped clip 10 ticks before the one-second point of the last loop
  below \<open>2 ^ 32\<close> ticks; in the next frame, \<open>32868\<close> ticks long, input 0 is 1, so that the
  first child fails its guard and the second holds. The window of that frame contains the
  one-second point of the current loop of the two-second clip, and the node stays in its
  first child: it writes \<^verbatim>\<open>from = to = 0\<close>.
\<close>

theorem exit_time_gate_wraps_around:
  "Option.bind (frame sample_ops gate_group (\<lambda>i. 0) ((Node_enter gate_group gate_start)\<lparr> rc_time_delta := 4294934518 \<rparr>))
     (\<lambda>c1. Option.bind (frame sample_ops gate_group (\<lambda>i. 1) (c1\<lparr> rc_time_delta := 32868 \<rparr>))
     (\<lambda>c2. Some (rc_data c1, rc_data c2)))
     = Some ([CGroup 0 0 4294934518 0, CTime 4294934518], [CGroup 0 0 90 0, CTime 90])
   \<and> op_seconds sample_ops (anim_length two_second_clip) = 2
   \<and> tn_exit_time gate_transition = 1 / 2
   \<and> exit_point_in_window 4294934518 (anim_length two_second_clip) (op_fromSeconds sample_ops 1) 32868"
  by (simp add: frame_def gate_group_def gate_children_def gate_start_def gate_transition_def
      two_second_clip_def next_frame_def AnimationNode_update_def write_cell_def Group_decide_def
      exit_time_reached_def peek_Time_def WILDCARD_def sample_ops_def ticks_of_def
      getRootMotion_def getRootMotionEx_def identity_motion_def exit_point_in_window_def
      word_less_nat_alt word_le_nat_alt Let_def)

text \<open>
  The same two frames with a first frame of \<open>32758\<close> ticks, where nothing wraps around:
  the node starts the transition to its second child.
\<close>

lemma gate_group_fires_without_wrap:
  "Option.bind (frame sample_ops gate_group (\<lambda>i. 0) ((Node_enter gate_group gate_start)\<lparr> rc_time_delta := 32758 \<rparr>))
     (\<lambda>c1. Option.bind (frame sample_ops gate_group (\<lambda>i. 1) (c1\<lparr> rc_time_delta := 32868 \<rparr>))
     (\<lambda>c2. Some (rc_data c1, rc_data c2)))
   = Some ([CGroup 0 0 32758 0, CTime 32758], [CGroup 0 1 0 10, CTime 65626, CTime 0])"
  by (simp add: frame_def gate_group_def gate_children_def gate_start_def gate_transition_def
      two_second_clip_def next_frame_def AnimationNode_update_def write_cell_def Group_decide_def
      exit_time_reached_def peek_Time_def WILDCARD_def sample_ops_def ticks_of_def
      getRootMotion_def getRootMotionEx_def identity_motion_def
      word_less_nat_alt word_le_nat_alt Let_def)

section \<open>Missing resources: properties\<close>

text \<open>
  C5 (as the code has it). When the animation of an Animation node is missing or not
  ready, \<open>update\<close> writes the advanced time and returns the identity root motion. When the
  controller resource of an animator is missing or not ready, \<open>updateAnimator\<close> returns at
  once and changes nothing; when the entity has no model instance, or the model is missing
  or not ready, or the pose cannot be locked, it returns after at most creating the
  runtime context. In both cases the pose is not written, the world is unchanged and the
  root motion kept by the animator is the one of the last update; no error is returned.
\<close>

theorem missing_resource_returns_early:
  "((rc_animations ctx m_slot = None \<or> (\<exists>anim. rc_animations ctx m_slot = Some anim \<and> \<not> anim_ready anim)) \<longrightarrow>
      AnimationNode_update nops m_slot looped ctx root_motion =
        (case read_Time ctx of
           Some (t, ctx1) \<Rightarrow> Some (write_cell (CTime (t + rc_time_delta ctx)) ctx1, identity_motion)
         | None \<Rightarrow> None))
   \<and> (a_resource_ready animator \<noteq> Some True \<longrightarrow>
        updateAnimator ops env time_delta animator w = Some (animator, None, w))
   \<and> (a_resource_ready animator = Some True
        \<and> (\<not> env_has_model_instance env \<or> env_model_ready env \<noteq> Some True \<or> env_lockPose env = None) \<longrightarrow>
        (\<exists>ctx'. updateAnimator ops env time_delta animator w = Some (animator\<lparr> a_ctx := Some ctx' \<rparr>, None, w)))"
proof (intro conjI)
  show "(rc_animations ctx m_slot = None \<or> (\<exists>anim. rc_animations ctx m_slot = Some anim \<and> \<not> anim_ready anim)) \<longrightarrow>
      AnimationNode_update nops m_slot looped ctx root_motion =
        (case read_Time ctx of
           Some (t, ctx1) \<Rightarrow> Some (write_cell (CTime (t + rc_time_delta ctx)) ctx1, identity_motion)
         | None \<Rightarrow> None)"
    by (auto simp: AnimationNode_update_def Let_def split: list.splits cell.splits option.splits)
next
  show "a_resource_ready animator \<noteq> Some True \<longrightarrow>
        updateAnimator ops env time_delta animator w = Some (animator, None, w)"
    by (simp add: updateAnimator_def)
next
  show "a_resource_ready animator = Some True
        \<and> (\<not> env_has_model_instance env \<or> env_model_ready env \<noteq> Some True \<or> env_lockPose env = None) \<longrightarrow>
        (\<exists>ctx'. updateAnimator ops env time_delta animator w = Some (animator\<lparr> a_ctx := Some ctx' \<rparr>, None, w))"
    by (auto simp: updateAnimator_def Let_def split: option.splits)
qed

theorem missing_resource_returns_early_witness:
  "AnimationNode_update sample_ops 0 True (empty_context\<lparr> rc_input_runtime := [CTime 5] \<rparr>)
       \<lparr> lrt_pos = (1, 0, 0), lrt_rot = (0, 0, 0, 1) \<rparr>
     = Some (empty_context\<lparr> rc_data := [CTime 6] \<rparr>, identity_motion)
   \<and> updateAnimator rigid_ops unavailable_env (1 / 60)
        \<lparr> a_entity = 0, a_resource_ready = Some False, a_default_set = 0, a_use_root_motion = True,
          a_ctx = None, a_root_motion = identity_motion, a_inverse_kinematics = [] \<rparr> new_World
     = Some (\<lparr> a_entity = 0, a_resource_ready = Some False, a_default_set = 0, a_use_root_motion = True,
               a_ctx = None, a_root_motion = identity_motion, a_inverse_kinematics = [] \<rparr>, None, new_World)
   \<and> (\<exists>ctx'. updateAnimator rigid_ops unavailable_env (1 / 60)
        \<lparr> a_entity = 0, a_resource_ready = Some True, a_default_set = 0, a_use_root_motion = True,
          a_ctx = None, a_root_motion = identity_motion, a_inverse_kinematics = [] \<rparr> new_World
     = Some (\<lparr> a_entity = 0, a_resource_ready = Some True, a_default_set = 0, a_use_root_motion = True,
               a_ctx = Some ctx', a_root_motion = identity_motion, a_inverse_kinematics = [] \<rparr>, None, new_World))"
  using missing_resource_returns_early
      [of "empty_context\<lparr> rc_input_runtime := [CTime 5] \<rparr>" 0 sample_ops True
          "\<lparr> lrt_pos = (1, 0, 0), lrt_rot = (0, 0, 0, 1) \<rparr>"
          "\<lparr> a_entity = 0, a_resource_ready = Some False, a_default_set = 0, a_use_root_motion = True,
             a_ctx = None, a_root_motion = identity_motion, a_inverse_kinematics = [] \<rparr>"
          rigid_ops unavailable_env "1 / 60" new_World]
    missing_resource_returns_early
      [of "empty_context\<lparr> rc_input_runtime := [CTime 5] \<rparr>" 0 sample_ops True
          "\<lparr> lrt_pos = (1, 0, 0), lrt_rot = (0, 0, 0, 1) \<rparr>"
          "\<lparr> a_entity = 0, a_resource_ready = Some True, a_default_set = 0, a_use_root_motion = True,
             a_ctx = None, a_root_motion = identity_motion, a_inverse_kinematics = [] \<rparr>"
          rigid_ops unavailable_env "1 / 60" new_World]
  by (simp add: empty_context_def write_cell_def unavailable_env_def)

text \<open>
  C5 (as stated) fails. A Blend2D node none of whose three active animations is bound
  returns the root motion it was handed, here a step of one unit and not the identity;
  and an animator whose controller is missing keeps the root motion of its last update,
  here the same step.
\<close>

theorem stale_root_motion_reported:
  "Blend2DNode_update sample_ops 0 1 triangle_children
        [\<lparr> tri_a = 0, tri_b = 1, tri_c = 2, circumcircle_center = (1 / 2, 1 / 2) \<rparr>]
        (empty_context\<lparr> rc_input_runtime := [CFloat 0] \<rparr>) \<lparr> lrt_pos = (1, 0, 0), lrt_rot = (0, 0, 0, 1) \<rparr>
     = Some (empty_context\<lparr> rc_data := [CFloat 0] \<rparr>, \<lparr> lrt_pos = (1, 0, 0), lrt_rot = (0, 0, 0, 1) \<rparr>)
   \<and> updateAnimator rigid_ops unavailable_env (1 / 60)
        \<lparr> a_entity = 0, a_resource_ready = None, a_default_set = 0, a_use_root_motion = True, a_ctx = None,
          a_root_motion = \<lparr> lrt_pos = (1, 0, 0), lrt_rot = (0, 0, 0, 1) \<rparr>, a_inverse_kinematics = [] \<rparr> new_World
     = Some (\<lparr> a_entity = 0, a_resource_ready = None, a_default_set = 0, a_use_root_motion = True, a_ctx = None,
               a_root_motion = \<lparr> lrt_pos = (1, 0, 0), lrt_rot = (0, 0, 0, 1) \<rparr>, a_inverse_kinematics = [] \<rparr>,
             None, new_World)
   \<and> \<lparr> lrt_pos = (1, 0, 0), lrt_rot = (0, 0, 0, 1) \<rparr> \<noteq> identity_motion"
  by (simp add: Blend2DNode_update_def triangle_children_def empty_context_def write_cell_def
      getInputValue_def getBarycentric_def vec2_sub_def vec2_dot_def Let_def updateAnimator_def
      identity_motion_def)

section \<open>The hierarchy of the World: properties\<close>

lemma idx_okD1:
  "idx_ok w \<Longrightarrow> i < length (m_hierarchy w) \<Longrightarrow>
     in_range w (h_entity (m_hierarchy w ! i)) \<and> hierarchy_idx w (h_entity (m_hierarchy w ! i)) = int i"
  unfolding idx_ok_def by blast

lemma idx_okD2:
  "idx_ok w \<Longrightarrow> has_record w e \<Longrightarrow>
     hierarchy_idx w e < int (length (m_hierarchy w)) \<and> h_entity (hierarchy_at w (hierarchy_idx w e)) = e"
  unfolding idx_ok_def by blast

lemma idx_inj:
  assumes "idx_ok w" "has_record w e" "has_record w e'" "hierarchy_idx w e = hierarchy_idx w e'"
  shows "e = e'"
  using idx_okD2 [OF assms(1,2)] idx_okD2 [OF assms(1,3)] assms(4) by metis

lemma upd_record_entities [simp]: "m_entities (upd_record e f w) = m_entities w"
  by (simp add: upd_record_def)

lemma upd_record_length [simp]: "length (m_hierarchy (upd_record e f w)) = length (m_hierarchy w)"
  by (simp add: upd_record_def)

lemma upd_record_idx [simp]: "hierarchy_idx (upd_record e f w) x = hierarchy_idx w x"
  by (simp add: hierarchy_idx_def)

lemma upd_record_in_range [simp]: "in_range (upd_record e f w) x = in_range w x"
  by (simp add: in_range_def)

lemma upd_record_has_record [simp]: "has_record (upd_record e f w) x = has_record w x"
  by (simp add: has_record_def)

lemma upd_record_nth:
  "j < length (m_hierarchy w) \<Longrightarrow>
     m_hierarchy (upd_record e f w) ! j =
       (if j = nat (hierarchy_idx w e) then f (m_hierarchy w ! j) else m_hierarchy w ! j)"
  by (auto simp: upd_record_def hierarchy_at_def)

lemma upd_record_ok:
  assumes ok: "idx_ok w" and rec: "has_record w e" and ent: "\<And>h. h_entity (f h) = h_entity h"
  shows "idx_ok (upd_record e f w)"
    and "record_of (upd_record e f w) = (record_of w)(e \<mapsto> f (the (record_of w e)))"
proof -
  let ?i = "nat (hierarchy_idx w e)"
  from idx_okD2 [OF ok rec] rec have i: "?i < length (m_hierarchy w)"
    by (auto simp: has_record_def)
  have at: "\<And>j. j < length (m_hierarchy w) \<Longrightarrow>
      h_entity (m_hierarchy (upd_record e f w) ! j) = h_entity (m_hierarchy w ! j)"
    using ent by (simp add: upd_record_nth)
  show "idx_ok (upd_record e f w)"
    unfolding idx_ok_def
  proof (intro conjI allI impI)
    fix j assume "j < length (m_hierarchy (upd_record e f w))"
    then have j: "j < length (m_hierarchy w)" by simp
    from idx_okD1 [OF ok j] at [OF j]
    show "in_range (upd_record e f w) (h_entity (m_hierarchy (upd_record e f w) ! j))"
      by simp
    from idx_okD1 [OF ok j] at [OF j]
    show "hierarchy_idx (upd_record e f w) (h_entity (m_hierarchy (upd_record e f w) ! j)) = int j"
      by simp
  next
    fix x assume "has_record (upd_record e f w) x"
    then have x: "has_record w x" by simp
    from idx_okD2 [OF ok x] x
    have xi: "nat (hierarchy_idx w x) < length (m_hierarchy w)"
      and xe: "h_entity (m_hierarchy w ! nat (hierarchy_idx w x)) = x"
      by (auto simp: has_record_def hierarchy_at_def)
    show "hierarchy_idx (upd_record e f w) x < int (length (m_hierarchy (upd_record e f w)))"
      using idx_okD2 [OF ok x] by simp
    show "h_entity (hierarchy_at (upd_record e f w) (hierarchy_idx (upd_record e f w) x)) = x"
      using at [OF xi] xe by (simp add: hierarchy_at_def)
  qed
  show "record_of (upd_record e f w) = (record_of w)(e \<mapsto> f (the (record_of w e)))"
  proof
    fix x
    show "record_of (upd_record e f w) x = ((record_of w)(e \<mapsto> f (the (record_of w e)))) x"
    proof (cases "has_record w x")
      case False
      with rec have "x \<noteq> e" by auto
      with False show ?thesis by (simp add: record_of_def)
    next
      case True
      from idx_okD2 [OF ok True] True
      have xi: "nat (hierarchy_idx w x) < length (m_hierarchy w)"
        by (auto simp: has_record_def)
      show ?thesis
      proof (cases "x = e")
        case True
        with rec xi show ?thesis
          by (simp add: record_of_def hierarchy_at_def upd_record_nth)
      next
        case False
        with idx_inj [OF ok True rec] have "hierarchy_idx w x \<noteq> hierarchy_idx w e" by auto
        moreover from True have "0 \<le> hierarchy_idx w x" by (simp add: has_record_def)
        moreover from rec have "0 \<le> hierarchy_idx w e" by (simp add: has_record_def)
        ultimately have "nat (hierarchy_idx w x) \<noteq> nat (hierarchy_idx w e)" by simp
        with True False xi show ?thesis
          by (simp add: record_of_def hierarchy_at_def upd_record_nth)
      qed
    qed
  qed
qed

lemma set_parent_at_upd:
  "set_parent_at (hierarchy_idx w e) v w = upd_record e (\<lambda>h. h\<lparr> h_parent := v \<rparr>) w"
  by (simp add: set_parent_at_def upd_record_def)

lemma set_first_child_at_upd:
  "set_first_child_at (hierarchy_idx w e) v w = upd_record e (\<lambda>h. h\<lparr> h_first_child := v \<rparr>) w"
  by (simp add: set_first_child_at_def upd_record_def)

lemma set_next_sibling_at_upd:
  "set_next_sibling_at (hierarchy_idx w e) v w = upd_record e (\<lambda>h. h\<lparr> h_next_sibling := v \<rparr>) w"
  by (simp add: set_next_sibling_at_def upd_record_def)


lemma nat_eq_in_range:
  "0 \<le> x \<Longrightarrow> 0 \<le> y \<Longrightarrow> (nat x = nat y) = (x = y)"
  by auto


lemma map_valid_update:
  "map ed_valid (ents[i := (ents ! i)\<lparr> ed_hierarchy := v \<rparr>]) = map ed_valid ents"
  by (cases "i < length ents") (simp_all add: map_update list_update_same_conv list_update_beyond)

lemma collectGarbage_valid:
  "map ed_valid (m_entities (collectGarbage e w)) = map ed_valid (m_entities w)"
  by (simp add: collectGarbage_def Let_def map_valid_update)

lemma collectGarbage_keep:
  "isValid (h_parent (hierarchy_at w (hierarchy_idx w e))) \<or> isValid (h_first_child (hierarchy_at w (hierarchy_idx w e)))
   \<Longrightarrow> collectGarbage e w = w"
  by (auto simp: collectGarbage_def Let_def)

lemma collectGarbage_drop:
  assumes ok: "idx_ok w" and e: "has_record w e"
    and g1: "\<not> isValid (h_parent (hierarchy_at w (hierarchy_idx w e)))"
    and g2: "\<not> isValid (h_first_child (hierarchy_at w (hierarchy_idx w e)))"
  shows "idx_ok (collectGarbage e w)"
    and "record_of (collectGarbage e w) = (record_of w)(e := None)"
    and "\<And>x. in_range (collectGarbage e w) x = in_range w x"
    and "hierarchy_idx (collectGarbage e w) e = -1"
proof -
  let ?w = "collectGarbage e w"
  let ?n = "length (m_hierarchy w)"
  define i where "i = nat (hierarchy_idx w e)"
  define lst where "lst = last (m_hierarchy w)"
  define l where "l = h_entity lst"
  have er: "in_range w e" and ei: "0 \<le> hierarchy_idx w e" using e by (auto simp: has_record_def)
  have ne: "nat e < length (m_entities w)" "0 \<le> e" using er by (auto simp: in_range_def)
  from idx_okD2 [OF ok e] ei have i_lt: "i < ?n" and i_ent: "h_entity (m_hierarchy w ! i) = e"
    and i_int: "hierarchy_idx w e = int i"
    by (auto simp: i_def hierarchy_at_def)
  then have npos: "0 < ?n" by linarith
  then have hne: "m_hierarchy w \<noteq> []" by auto
  have lst_nth: "lst = m_hierarchy w ! (?n - 1)" using hne by (simp add: lst_def last_conv_nth)
  have "?n - 1 < ?n" using npos by simp
  from idx_okD1 [OF ok this] have lr: "in_range w l" and li: "hierarchy_idx w l = int (?n - 1)"
    unfolding l_def lst_nth by blast+
  have nl: "nat l < length (m_entities w)" "0 \<le> l" using lr by (auto simp: in_range_def)
  have w_eq: "?w = w\<lparr> m_entities := ((m_entities w)[nat l := (m_entities w ! nat l)\<lparr> ed_hierarchy := hierarchy_idx w e \<rparr>])
                         [nat e := (((m_entities w)[nat l := (m_entities w ! nat l)\<lparr> ed_hierarchy := hierarchy_idx w e \<rparr>]) ! nat e)\<lparr> ed_hierarchy := -1 \<rparr>],
                      m_hierarchy := butlast ((m_hierarchy w)[i := lst]) \<rparr>"
    using g1 g2 by (simp add: collectGarbage_def Let_def i_def lst_def l_def)
  have len: "length (m_entities ?w) = length (m_entities w)" "length (m_hierarchy ?w) = ?n - 1"
    by (simp_all add: w_eq)
  show rng: "\<And>x. in_range ?w x = in_range w x"
    by (simp add: in_range_def len)
  have idx: "\<And>x. in_range w x \<Longrightarrow> hierarchy_idx ?w x = (if x = e then -1 else if x = l then int i else hierarchy_idx w x)"
  proof -
    fix x assume "in_range w x"
    then have nx: "nat x < length (m_entities w)" "0 \<le> x" by (auto simp: in_range_def)
    define ents1 where "ents1 = (m_entities w)[nat l := (m_entities w ! nat l)\<lparr> ed_hierarchy := hierarchy_idx w e \<rparr>]"
    have l1: "length ents1 = length (m_entities w)" by (simp add: ents1_def)
    have e1: "ed_hierarchy (ents1 ! nat x) = (if x = l then int i else hierarchy_idx w x)"
      using nx nl by (simp add: ents1_def nth_list_update hierarchy_idx_def i_int [unfolded hierarchy_idx_def] nat_eq_in_range)
    have "m_entities ?w = ents1[nat e := (ents1 ! nat e)\<lparr> ed_hierarchy := -1 \<rparr>]"
      by (simp add: w_eq ents1_def)
    then have "hierarchy_idx ?w x = ed_hierarchy ((ents1[nat e := (ents1 ! nat e)\<lparr> ed_hierarchy := -1 \<rparr>]) ! nat x)"
      by (simp add: hierarchy_idx_def)
    also have "\<dots> = (if x = e then -1 else ed_hierarchy (ents1 ! nat x))"
      using nx ne l1 by (simp add: nth_list_update nat_eq_in_range)
    finally show "hierarchy_idx ?w x = (if x = e then -1 else if x = l then int i else hierarchy_idx w x)"
      using e1 by simp
  qed
  show "hierarchy_idx ?w e = -1" using idx [OF er] by simp
  have hier: "\<And>j. j < ?n - 1 \<Longrightarrow> m_hierarchy ?w ! j = (if j = i then lst else m_hierarchy w ! j)"
    using i_lt by (simp add: w_eq nth_butlast nth_list_update)
  have l_e: "l = e \<longleftrightarrow> i = ?n - 1"
  proof
    assume "l = e" with li i_int show "i = ?n - 1" by simp
  next
    assume "i = ?n - 1" with i_ent lst_nth show "l = e" by (simp add: l_def)
  qed
  have other: "\<And>x. has_record w x \<Longrightarrow> x \<noteq> e \<Longrightarrow> x \<noteq> l \<Longrightarrow>
                  nat (hierarchy_idx w x) < ?n - 1 \<and> nat (hierarchy_idx w x) \<noteq> i \<and> 0 \<le> hierarchy_idx w x
                  \<and> h_entity (m_hierarchy w ! nat (hierarchy_idx w x)) = x"
  proof -
    fix x assume x: "has_record w x" and xe: "x \<noteq> e" and xl: "x \<noteq> l"
    from x have x0: "0 \<le> hierarchy_idx w x" by (simp add: has_record_def)
    from idx_okD2 [OF ok x] have x1: "hierarchy_idx w x < int ?n"
      and x2: "h_entity (m_hierarchy w ! nat (hierarchy_idx w x)) = x" by (simp_all add: hierarchy_at_def)
    have "nat (hierarchy_idx w x) \<noteq> i" using x2 i_ent xe by auto
    moreover have "nat (hierarchy_idx w x) \<noteq> ?n - 1" using x2 lst_nth xl by (auto simp: l_def)
    ultimately show "nat (hierarchy_idx w x) < ?n - 1 \<and> nat (hierarchy_idx w x) \<noteq> i \<and> 0 \<le> hierarchy_idx w x
                  \<and> h_entity (m_hierarchy w ! nat (hierarchy_idx w x)) = x"
      using x0 x1 x2 by auto
  qed
  have rec: "\<And>x. has_record ?w x \<longleftrightarrow> has_record w x \<and> x \<noteq> e"
  proof -
    fix x
    show "has_record ?w x \<longleftrightarrow> has_record w x \<and> x \<noteq> e"
    proof (cases "in_range w x")
      case True
      from idx [OF True] li True show ?thesis
        by (auto simp: has_record_def rng)
    next
      case False
      then show ?thesis by (simp add: has_record_def rng)
    qed
  qed
  show "idx_ok ?w"
    unfolding idx_ok_def
  proof (intro conjI allI impI)
    fix j assume "j < length (m_hierarchy ?w)"
    then have j: "j < ?n - 1" by (simp add: len)
    show "in_range ?w (h_entity (m_hierarchy ?w ! j))"
    proof (cases "j = i")
      case True
      with j lr show ?thesis by (simp add: hier rng l_def)
    next
      case False
      from j have "j < ?n" by linarith
      from idx_okD1 [OF ok this] False j show ?thesis by (simp add: hier rng)
    qed
    show "hierarchy_idx ?w (h_entity (m_hierarchy ?w ! j)) = int j"
    proof (cases "j = i")
      case True
      with j l_e have "l \<noteq> e" by auto
      with idx [OF lr] True j show ?thesis by (simp add: hier l_def)
    next
      case False
      from j have jn: "j < ?n" by linarith
      from idx_okD1 [OF ok jn] have r: "in_range w (h_entity (m_hierarchy w ! j))"
        and ji: "hierarchy_idx w (h_entity (m_hierarchy w ! j)) = int j" by simp_all
      have "h_entity (m_hierarchy w ! j) \<noteq> e" using ji i_int False by auto
      moreover have "h_entity (m_hierarchy w ! j) \<noteq> l" using ji li j by auto
      ultimately show ?thesis using idx [OF r] ji False j by (simp add: hier)
    qed
  next
    fix x assume x: "has_record ?w x"
    with rec have xw: "has_record w x" and xe: "x \<noteq> e" by simp_all
    then have xr: "in_range w x" by (simp add: has_record_def)
    show "hierarchy_idx ?w x < int (length (m_hierarchy ?w))"
    proof (cases "x = l")
      case True
      with xe l_e i_lt have "i < ?n - 1" by auto
      with idx [OF xr] True xe len show ?thesis by simp
    next
      case False
      from other [OF xw xe False] idx [OF xr] xe False len show ?thesis by auto
    qed
    show "h_entity (hierarchy_at ?w (hierarchy_idx ?w x)) = x"
    proof (cases "x = l")
      case True
      with xe l_e i_lt have "i < ?n - 1" by auto
      with idx [OF xr] True xe show ?thesis by (simp add: hierarchy_at_def hier l_def)
    next
      case False
      from other [OF xw xe False] idx [OF xr] xe False show ?thesis
        by (simp add: hierarchy_at_def hier)
    qed
  qed
  show "record_of ?w = (record_of w)(e := None)"
  proof
    fix x
    show "record_of ?w x = ((record_of w)(e := None)) x"
    proof (cases "has_record w x \<and> x \<noteq> e")
      case False
      with rec [of x] show ?thesis by (auto simp: record_of_def)
    next
      case True
      then have xw: "has_record w x" and xe: "x \<noteq> e" by simp_all
      then have xr: "in_range w x" by (simp add: has_record_def)
      have hx: "has_record ?w x" using rec True by simp
      show ?thesis
      proof (cases "x = l")
        case xl: True
        with xe l_e i_lt have "i < ?n - 1" by auto
        moreover have "nat (int ?n - 1) = ?n - 1" by simp
        ultimately show ?thesis using idx [OF xr] xl xe hx xw li
          by (simp add: record_of_def hierarchy_at_def hier lst_nth)
      next
        case False
        from other [OF xw xe False] idx [OF xr] xe False hx xw show ?thesis
          by (simp add: record_of_def hierarchy_at_def hier)
      qed
    qed
  qed
qed

lemma wfhD: "forest_ok H r \<Longrightarrow> H e = Some h \<Longrightarrow> record_ok H r e h"
  unfolding forest_ok_def by blast

lemma wfh_nonneg: "forest_ok H r \<Longrightarrow> H e = Some h \<Longrightarrow> 0 \<le> e"
  unfolding forest_ok_def by blast


lemma wfhI: "(\<And>e h. H e = Some h \<Longrightarrow> 0 \<le> e) \<Longrightarrow> (\<And>e h. H e = Some h \<Longrightarrow> record_ok H r e h) \<Longrightarrow> forest_ok H r"
  unfolding forest_ok_def by blast

lemma wfh_ns:
  "forest_ok H r \<Longrightarrow> H e = Some h \<Longrightarrow> h_next_sibling h \<noteq> -1 \<Longrightarrow>
     h_next_sibling h \<in> dom H \<and> h_parent h \<noteq> -1 \<and> parent_in H (h_next_sibling h) = h_parent h
     \<and> r (h_next_sibling h) < r e"
  using wfhD [of H r e h] unfolding record_ok_def by blast

lemma wfh_fc:
  "forest_ok H r \<Longrightarrow> H e = Some h \<Longrightarrow> h_first_child h \<noteq> -1 \<Longrightarrow>
     h_first_child h \<in> dom H \<and> parent_in H (h_first_child h) = e \<and> r (h_first_child h) < r e"
  using wfhD [of H r e h] unfolding record_ok_def by blast

lemma wfh_par:
  "forest_ok H r \<Longrightarrow> H e = Some h \<Longrightarrow> h_parent h \<noteq> -1 \<Longrightarrow>
     h_parent h \<in> dom H \<and> (\<exists>cs. sibling_chain H (first_child_in H (h_parent h)) cs \<and> e \<in> set cs)"
  using wfhD [of H r e h] unfolding record_ok_def by blast

lemma achain_fun: "sibling_chain H x cs \<Longrightarrow> sibling_chain H x cs' \<Longrightarrow> cs = cs'"
proof (induction arbitrary: cs' rule: sibling_chain.induct)
  case achain_nil
  then show ?case by (auto elim: sibling_chain.cases)
next
  case (achain_cons x h xs)
  from achain_cons.prems achain_cons.hyps(1,2) obtain ys where
    "cs' = x # ys" "sibling_chain H (h_next_sibling h) ys"
    by (auto elim: sibling_chain.cases)
  with achain_cons.IH show ?case by simp
qed

lemma achain_neg: "sibling_chain H (-1) cs \<Longrightarrow> cs = []"
  by (auto elim: sibling_chain.cases)

lemma achain_mem_dom: "sibling_chain H x cs \<Longrightarrow> c \<in> set cs \<Longrightarrow> c \<in> dom H"
  by (induction rule: sibling_chain.induct) auto

lemma achain_exists:
  assumes wf: "forest_ok H r"
  shows "x = -1 \<or> x \<in> dom H \<Longrightarrow> \<exists>cs. sibling_chain H x cs"
proof (induction "r x" arbitrary: x rule: less_induct)
  case less
  show ?case
  proof (cases "x = -1")
    case True
    then show ?thesis by (auto intro: achain_nil)
  next
    case False
    with less.prems obtain h where h: "H x = Some h" by auto
    show ?thesis
    proof (cases "h_next_sibling h = -1")
      case True
      with h False show ?thesis by (metis achain_cons achain_nil)
    next
      case ns: False
      from wfh_ns [OF wf h ns] have "r (h_next_sibling h) < r x" "h_next_sibling h \<in> dom H" by simp_all
      from less.hyps [OF this(1)] this(2) obtain cs where "sibling_chain H (h_next_sibling h) cs" by blast
      with h False show ?thesis by (metis achain_cons)
    qed
  qed
qed

lemma achain_props:
  assumes wf: "forest_ok H r"
  shows "sibling_chain H x cs \<Longrightarrow> c \<in> set cs \<Longrightarrow> r c \<le> r x \<and> parent_in H c = parent_in H x"
proof (induction rule: sibling_chain.induct)
  case achain_nil
  then show ?case by simp
next
  case (achain_cons x h xs)
  show ?case
  proof (cases "c = x")
    case True
    then show ?thesis by simp
  next
    case False
    with achain_cons.prems have cx: "c \<in> set xs" by simp
    have ns: "h_next_sibling h \<noteq> -1"
    proof
      assume "h_next_sibling h = -1"
      with achain_cons.hyps(3) have "xs = []" by (simp add: achain_neg)
      with cx show False by simp
    qed
    from wfh_ns [OF wf achain_cons.hyps(2) ns] achain_cons.IH [OF cx] achain_cons.hyps(2)
    show ?thesis by (simp add: parent_in_def)
  qed
qed

lemma achain_tail_rank:
  assumes wf: "forest_ok H r" and h: "H x = Some h" and ch: "sibling_chain H (h_next_sibling h) xs" and c: "c \<in> set xs"
  shows "r c < r x"
proof -
  have ns: "h_next_sibling h \<noteq> -1"
  proof
    assume "h_next_sibling h = -1"
    with ch have "xs = []" by (simp add: achain_neg)
    with c show False by simp
  qed
  from wfh_ns [OF wf h ns] achain_props [OF wf ch c] show ?thesis by simp
qed

lemma achain_distinct:
  assumes wf: "forest_ok H r"
  shows "sibling_chain H x cs \<Longrightarrow> distinct cs"
proof (induction rule: sibling_chain.induct)
  case achain_nil
  then show ?case by simp
next
  case (achain_cons x h xs)
  have "x \<notin> set xs"
  proof
    assume "x \<in> set xs"
    from achain_tail_rank [OF wf achain_cons.hyps(2) achain_cons.hyps(3) this] show False by simp
  qed
  with achain_cons.IH show ?case by simp
qed

lemma children_props:
  assumes wf: "forest_ok H r" and p: "H p = Some hp" and ch: "sibling_chain H (h_first_child hp) cs" and c: "c \<in> set cs"
  shows "parent_in H c = p \<and> r c < r p \<and> c \<in> dom H"
proof -
  have fc: "h_first_child hp \<noteq> -1"
  proof
    assume "h_first_child hp = -1"
    with ch have "cs = []" by (simp add: achain_neg)
    with c show False by simp
  qed
  from wfh_fc [OF wf p fc] achain_props [OF wf ch c] achain_mem_dom [OF ch c] show ?thesis by simp
qed

lemma parent_rank:
  assumes wf: "forest_ok H r" and e: "H e = Some h" and par: "h_parent h \<noteq> -1"
  shows "r e < r (h_parent h)"
proof -
  from wfh_par [OF wf e par] obtain hp cs where hp: "H (h_parent h) = Some hp"
    and cs: "sibling_chain H (first_child_in H (h_parent h)) cs" "e \<in> set cs" by auto
  from cs(1) hp have "sibling_chain H (h_first_child hp) cs" by (simp add: first_child_in_def)
  from children_props [OF wf hp this cs(2)] show ?thesis by simp
qed

lemma achain_frame:
  "sibling_chain H x cs \<Longrightarrow> (\<And>c. c \<in> set cs \<Longrightarrow> \<exists>h'. H' c = Some h' \<and> h_next_sibling h' = next_sibling_in H c) \<Longrightarrow> sibling_chain H' x cs"
proof (induction rule: sibling_chain.induct)
  case achain_nil
  show ?case by (rule sibling_chain.achain_nil)
next
  case (achain_cons x h xs)
  from achain_cons.prems [of x] achain_cons.hyps(2) obtain h' where h': "H' x = Some h'"
    "h_next_sibling h' = h_next_sibling h" by (auto simp: next_sibling_in_def)
  have "sibling_chain H' (h_next_sibling h) xs"
    by (rule achain_cons.IH) (simp add: achain_cons.prems)
  with h' achain_cons.hyps(1) show ?case by (metis sibling_chain.achain_cons)
qed





lemma view_SomeD: "record_of w x = Some h \<Longrightarrow> has_record w x \<and> h = hierarchy_at w (hierarchy_idx w x)"
  by (auto simp: record_of_def split: if_splits)

lemma view_has_record: "has_record w x \<Longrightarrow> record_of w x = Some (hierarchy_at w (hierarchy_idx w x))"
  by (simp add: record_of_def)

lemma view_dom: "x \<in> dom (record_of w) \<longleftrightarrow> has_record w x"
  by (auto simp: record_of_def split: if_splits)

lemma has_record_range: "has_record w x \<Longrightarrow> in_range w x \<and> 0 \<le> x \<and> isValid x \<and> x \<noteq> -1"
  by (auto simp: has_record_def in_range_def isValid_def)

lemma view_neg: "record_of w (-1) = None"
  by (simp add: record_of_def has_record_def in_range_def)


lemma getFirstChild_view: "in_range w x \<Longrightarrow> getFirstChild w x = first_child_in (record_of w) x"
  by (simp add: getFirstChild_def first_child_in_def record_of_def has_record_def Let_def INVALID_ENTITY_def)

lemma getNextSibling_view: "in_range w x \<Longrightarrow> getNextSibling w x = next_sibling_in (record_of w) x"
  by (simp add: getNextSibling_def next_sibling_in_def record_of_def has_record_def Let_def INVALID_ENTITY_def)



lemma set_link_fields [simp]:
  "h_entity (set_link f v h) = h_entity h"
  "h_parent (set_link f v h) = h_parent h"
  "h_local_transform (set_link f v h) = h_local_transform h"
  "h_first_child (set_link f v h) = (if f then v else h_first_child h)"
  "h_next_sibling (set_link f v h) = (if f then h_next_sibling h else v)"
  by (cases f; simp)+

lemma read_mk_link:
  "has_record w y \<Longrightarrow> read_link w (mk_link w y ff) = get_link (record_of w) y ff"
  by (simp add: mk_link_def get_link_def first_child_in_def next_sibling_in_def record_of_def)

lemma set_link_eq:
  "set_link True v = h_first_child_update (\<lambda>_. v)"
  "set_link False v = h_next_sibling_update (\<lambda>_. v)"
  by (rule ext, simp)+

lemma write_mk_link:
  "write_link (mk_link w y ff) v w = upd_record y (set_link ff v) w"
  by (cases ff) (simp_all add: mk_link_def set_first_child_at_upd set_next_sibling_at_upd set_link_eq)

lemma unlink_loop_spec:
  assumes ok: "idx_ok w"
  shows "has_record w y \<Longrightarrow> sibling_chain (record_of w) (get_link (record_of w) y ff) cs \<Longrightarrow>
         \<exists>w'. unlink_loop w (mk_link w y ff) e = Some w' \<and> idx_ok w' \<and> m_entities w' = m_entities w
              \<and> record_of w' = unlinked (record_of w) y ff cs e"
proof (induction cs arbitrary: y ff)
  case Nil
  from Nil.prems(2) have "get_link (record_of w) y ff = -1" by (auto elim: sibling_chain.cases)
  with Nil.prems(1) have "\<not> isValid (read_link w (mk_link w y ff))"
    by (simp add: read_mk_link isValid_def)
  then have "unlink_loop w (mk_link w y ff) e = Some w"
    by (subst unlink_loop.simps) simp
  with ok show ?case by simp
next
  case (Cons c cs)
  from Cons.prems(2) obtain hc where c: "get_link (record_of w) y ff = c" "c \<noteq> -1" "record_of w c = Some hc"
    and rest: "sibling_chain (record_of w) (h_next_sibling hc) cs"
    by (auto elim: sibling_chain.cases)
  from view_SomeD [OF c(3)] have cr: "has_record w c" by simp
  then have cin: "in_range w c" and cv: "isValid c" by (simp_all add: has_record_range)
  have rl: "read_link w (mk_link w y ff) = c" using Cons.prems(1) c(1) by (simp add: read_mk_link)
  show ?case
  proof (cases "c = e")
    case True
    have "unlink_loop w (mk_link w y ff) e = Some (write_link (mk_link w y ff) (getNextSibling w e) w)"
      using cv rl True by (subst unlink_loop.simps) simp
    then have r: "unlink_loop w (mk_link w y ff) e = Some (upd_record y (set_link ff (next_sibling_in (record_of w) e)) w)"
      using cin True by (simp add: write_mk_link getNextSibling_view)
    let ?w' = "upd_record y (set_link ff (next_sibling_in (record_of w) e)) w"
    have u: "unlinked (record_of w) y ff (c # cs) e = (record_of w)(y \<mapsto> set_link ff (next_sibling_in (record_of w) e) (the (record_of w y)))"
      using True by (simp only: unlinked.simps if_True simp_thms)
    have "\<And>h. h_entity (set_link ff (next_sibling_in (record_of w) e) h) = h_entity h" by simp
    from upd_record_ok [OF ok Cons.prems(1) this]
    have ok': "idx_ok ?w'" and v: "record_of ?w' = (record_of w)(y \<mapsto> set_link ff (next_sibling_in (record_of w) e) (the (record_of w y)))"
      by blast+
    show ?thesis
    proof (intro exI conjI)
      show "unlink_loop w (mk_link w y ff) e = Some ?w'" by (rule r)
      show "idx_ok ?w'" by (rule ok')
      show "m_entities ?w' = m_entities w" by simp
      show "record_of ?w' = unlinked (record_of w) y ff (c # cs) e" unfolding u by (rule v)
    qed
  next
    case False
    have "unlink_loop w (mk_link w y ff) e = unlink_loop w (NextSiblingOf (hierarchy_idx w c)) e"
      using cv rl False by (subst unlink_loop.simps) simp
    then have r: "unlink_loop w (mk_link w y ff) e = unlink_loop w (mk_link w c False) e"
      by (simp add: mk_link_def)
    have "sibling_chain (record_of w) (get_link (record_of w) c False) cs"
      using rest c(3) by (simp add: get_link_def next_sibling_in_def)
    from Cons.IH [OF cr this] obtain w' where w': "unlink_loop w (mk_link w c False) e = Some w'"
      "idx_ok w'" "m_entities w' = m_entities w" "record_of w' = unlinked (record_of w) c False cs e" by blast
    have u: "unlinked (record_of w) y ff (c # cs) e = unlinked (record_of w) c False cs e"
      using False by (simp only: unlinked.simps if_False)
    show ?thesis
    proof (intro exI conjI)
      show "unlink_loop w (mk_link w y ff) e = Some w'" unfolding r by (rule w'(1))
      show "idx_ok w'" by (rule w'(2))
      show "m_entities w' = m_entities w" by (rule w'(3))
      show "record_of w' = unlinked (record_of w) y ff (c # cs) e" unfolding u by (rule w'(4))
    qed
  qed
qed

lemma unlink_upd_notin: "e \<notin> set cs \<Longrightarrow> unlinked H y ff cs e = H"
  by (induction cs arbitrary: y ff) auto

lemma unlink_upd_shape:
  "sibling_chain H (get_link H y ff) cs \<Longrightarrow> H y = Some hy \<Longrightarrow>
     (e \<notin> set cs \<and> unlinked H y ff cs e = H) \<or>
     (\<exists>z f hz. H z = Some hz \<and> ((z = y \<and> f = ff) \<or> (z \<in> set cs \<and> \<not> f))
        \<and> get_link H z f = e
        \<and> unlinked H y ff cs e = H(z \<mapsto> set_link f (next_sibling_in H e) hz))"
proof (induction cs arbitrary: y ff hy)
  case Nil
  then show ?case by simp
next
  case (Cons c cs)
  from Cons.prems(1) obtain hc where c: "get_link H y ff = c" "c \<noteq> -1" "H c = Some hc"
    and rest: "sibling_chain H (h_next_sibling hc) cs"
    by (auto elim: sibling_chain.cases)
  show ?case
  proof (cases "c = e")
    case True
    have "unlinked H y ff (c # cs) e = H(y \<mapsto> set_link ff (next_sibling_in H e) hy)"
      using True Cons.prems(2) by (simp only: unlinked.simps if_True option.sel simp_thms)
    with Cons.prems(2) c(1) True show ?thesis by blast
  next
    case False
    have u: "unlinked H y ff (c # cs) e = unlinked H c False cs e"
      using False by (simp only: unlinked.simps if_False)
    have "sibling_chain H (get_link H c False) cs" using rest c(3) by (simp add: get_link_def next_sibling_in_def)
    from Cons.IH [OF this c(3)]
    have "(e \<notin> set cs \<and> unlinked H c False cs e = H) \<or>
     (\<exists>z f hz. H z = Some hz \<and> ((z = c \<and> f = False) \<or> (z \<in> set cs \<and> \<not> f))
        \<and> get_link H z f = e
        \<and> unlinked H c False cs e = H(z \<mapsto> set_link f (next_sibling_in H e) hz))" .
    then show ?thesis
    proof
      assume "e \<notin> set cs \<and> unlinked H c False cs e = H"
      with False u show ?thesis by simp
    next
      assume "\<exists>z f hz. H z = Some hz \<and> ((z = c \<and> f = False) \<or> (z \<in> set cs \<and> \<not> f))
        \<and> get_link H z f = e
        \<and> unlinked H c False cs e = H(z \<mapsto> set_link f (next_sibling_in H e) hz)"
      then obtain z f hz where z: "H z = Some hz" "(z = c \<and> f = False) \<or> (z \<in> set cs \<and> \<not> f)"
        "get_link H z f = e" "unlinked H c False cs e = H(z \<mapsto> set_link f (next_sibling_in H e) hz)" by blast
      from z(2) have "z \<in> set (c # cs) \<and> \<not> f" by auto
      with z(1,3,4) u show ?thesis by metis
    qed
  qed
qed

lemma unlink_upd_chain:
  "sibling_chain H (get_link H y ff) cs \<Longrightarrow> H y = Some hy \<Longrightarrow> distinct cs \<Longrightarrow> y \<notin> set cs \<Longrightarrow>
     sibling_chain (unlinked H y ff cs e) (get_link (unlinked H y ff cs e) y ff) (removeAll e cs)"
proof (induction cs arbitrary: y ff hy)
  case Nil
  then show ?case by simp
next
  case (Cons c cs)
  from Cons.prems(1) obtain hc where c: "get_link H y ff = c" "c \<noteq> -1" "H c = Some hc"
    and rest: "sibling_chain H (h_next_sibling hc) cs"
    by (auto elim: sibling_chain.cases)
  from Cons.prems have cy: "c \<noteq> y" and ccs: "c \<notin> set cs" and ycs: "y \<notin> set cs" and dcs: "distinct cs"
    by auto
  show ?case
  proof (cases "c = e")
    case True
    let ?H' = "H(y \<mapsto> set_link ff (next_sibling_in H e) hy)"
    have u: "unlinked H y ff (c # cs) e = ?H'" using True Cons.prems(2)
      by (simp only: unlinked.simps if_True option.sel simp_thms)
    have gl: "get_link ?H' y ff = h_next_sibling hc"
      using True c(3) by (cases ff) (simp_all add: get_link_def first_child_in_def next_sibling_in_def)
    have fr: "sibling_chain ?H' (h_next_sibling hc) cs"
    proof (rule achain_frame [OF rest])
      fix x assume x: "x \<in> set cs"
      with ycs have "x \<noteq> y" by auto
      moreover from achain_mem_dom [OF rest x] obtain hx where "H x = Some hx" by auto
      ultimately show "\<exists>h'. ?H' x = Some h' \<and> h_next_sibling h' = next_sibling_in H x"
        by (simp add: next_sibling_in_def)
    qed
    have ra: "removeAll e (c # cs) = cs" using True ccs by simp
    from fr show ?thesis by (simp only: u gl ra)
  next
    case False
    let ?H' = "unlinked H c False cs e"
    have u: "unlinked H y ff (c # cs) e = ?H'" using False by (simp only: unlinked.simps if_False)
    have ch: "sibling_chain H (get_link H c False) cs" using rest c(3) by (simp add: get_link_def next_sibling_in_def)
    from Cons.IH [OF ch c(3) dcs ccs] have ih: "sibling_chain ?H' (get_link ?H' c False) (removeAll e cs)" .
    from unlink_upd_shape [OF ch c(3), of e]
    have shape: "?H' = H \<or> (\<exists>z f hz. H z = Some hz \<and> ((z = c \<and> f = False) \<or> (z \<in> set cs \<and> \<not> f))
                       \<and> ?H' = H(z \<mapsto> set_link f (next_sibling_in H e) hz))" by blast
    have y': "?H' y = H y" using shape cy ycs by auto
    have c': "\<exists>hc'. ?H' c = Some hc'" using shape c(3) by auto
    then obtain hc' where hc': "?H' c = Some hc'" by blast
    have "get_link ?H' y ff = get_link H y ff" by (simp add: get_link_def first_child_in_def next_sibling_in_def y')
    then have gl: "get_link ?H' y ff = c" using c(1) by simp
    have "sibling_chain ?H' (h_next_sibling hc') (removeAll e cs)"
      using ih hc' by (simp add: get_link_def next_sibling_in_def)
    with c(2) hc' have fr: "sibling_chain ?H' c (c # removeAll e cs)" by (rule achain_cons)
    have ra: "removeAll e (c # cs) = c # removeAll e cs" using False by simp
    from fr show ?thesis by (simp only: u gl ra)
  qed
qed

lemma sel_simps:
  "H e = Some h \<Longrightarrow> parent_in H e = h_parent h \<and> first_child_in H e = h_first_child h \<and> next_sibling_in H e = h_next_sibling h"
  by (simp add: parent_in_def first_child_in_def next_sibling_in_def)

lemma wfh_alt: "forest_ok H r \<longleftrightarrow> (\<forall>e. e \<in> dom H \<longrightarrow> node_ok H r e)"
proof
  assume wf: "forest_ok H r"
  show "\<forall>e. e \<in> dom H \<longrightarrow> node_ok H r e"
  proof (intro allI impI)
    fix e assume "e \<in> dom H"
    then obtain h where h: "H e = Some h" by auto
    from wfhD [OF wf h] wfh_nonneg [OF wf h] show "node_ok H r e"
      unfolding record_ok_def node_ok_def using sel_simps [of H e h] h by simp
  qed
next
  assume a: "\<forall>e. e \<in> dom H \<longrightarrow> node_ok H r e"
  show "forest_ok H r"
  proof (rule wfhI)
    fix e h assume h: "H e = Some h"
    then have "e \<in> dom H" by auto
    with a have "node_ok H r e" by blast
    then show "0 \<le> e" by (simp add: node_ok_def)
    from \<open>node_ok H r e\<close> show "record_ok H r e h"
      unfolding record_ok_def node_ok_def using sel_simps [of H e h] h by simp
  qed
qed

lemma wfh_node: "forest_ok H r \<Longrightarrow> e \<in> dom H \<Longrightarrow> node_ok H r e"
  by (simp add: wfh_alt)

lemma nsv_rank:
  "forest_ok H r \<Longrightarrow> next_sibling_in H z \<noteq> -1 \<Longrightarrow>
     z \<in> dom H \<and> next_sibling_in H z \<in> dom H \<and> parent_in H z \<noteq> -1 \<and> parent_in H (next_sibling_in H z) = parent_in H z \<and> r (next_sibling_in H z) < r z"
proof -
  assume wf: "forest_ok H r" and n: "next_sibling_in H z \<noteq> -1"
  from n have z: "z \<in> dom H" by (cases "H z") (auto simp: next_sibling_in_def)
  from wfh_node [OF wf z] n z show ?thesis by (simp add: node_ok_def)
qed

lemma fcv_rank:
  "forest_ok H r \<Longrightarrow> first_child_in H z \<noteq> -1 \<Longrightarrow>
     z \<in> dom H \<and> first_child_in H z \<in> dom H \<and> parent_in H (first_child_in H z) = z \<and> r (first_child_in H z) < r z"
proof -
  assume wf: "forest_ok H r" and n: "first_child_in H z \<noteq> -1"
  from n have z: "z \<in> dom H" by (cases "H z") (auto simp: first_child_in_def)
  from wfh_node [OF wf z] n z show ?thesis by (simp add: node_ok_def)
qed

lemma kids_exist:
  assumes wf: "forest_ok H r"
  shows "\<exists>cs. sibling_chain H (first_child_in H q) cs"
proof (cases "first_child_in H q = -1")
  case True
  then show ?thesis by (auto intro: achain_nil)
next
  case False
  from fcv_rank [OF wf False] achain_exists [OF wf, of "first_child_in H q"] show ?thesis by blast
qed

lemma kids_props:
  assumes wf: "forest_ok H r" and ch: "sibling_chain H (first_child_in H q) cs" and c: "c \<in> set cs"
  shows "parent_in H c = q \<and> r c < r q \<and> c \<in> dom H \<and> q \<in> dom H"
proof -
  have fc: "first_child_in H q \<noteq> -1"
  proof
    assume "first_child_in H q = -1"
    with ch have "cs = []" by (simp add: achain_neg)
    with c show False by simp
  qed
  from fcv_rank [OF wf fc] achain_props [OF wf ch c] achain_mem_dom [OF ch c] show ?thesis by simp
qed

lemma parv_kids:
  assumes wf: "forest_ok H r" and p: "parent_in H x \<noteq> -1" and ch: "sibling_chain H (first_child_in H (parent_in H x)) cs"
  shows "x \<in> set cs"
proof -
  from p have x: "x \<in> dom H" by (cases "H x") (auto simp: parent_in_def)
  from wfh_node [OF wf x] p obtain cs' where cs': "sibling_chain H (first_child_in H (parent_in H x)) cs'" "x \<in> set cs'"
    by (auto simp: node_ok_def)
  from achain_fun [OF ch cs'(1)] cs'(2) show ?thesis by simp
qed

lemma chain_tail:
  assumes wf: "forest_ok H r" and ch: "sibling_chain H a cs" and ns: "next_sibling_in H x \<noteq> -1" and x: "x \<in> set cs"
  shows "next_sibling_in H x \<in> set cs"
  using ch x
proof (induction rule: sibling_chain.induct)
  case achain_nil
  then show ?case by simp
next
  case (achain_cons a h xs)
  show ?case
  proof (cases "x = a")
    case True
    with achain_cons.hyps(2) have n: "next_sibling_in H x = h_next_sibling h" by (simp add: next_sibling_in_def)
    with ns achain_cons.hyps(3) have "next_sibling_in H x \<in> set xs"
      by (auto elim: sibling_chain.cases)
    then show ?thesis by simp
  next
    case False
    with achain_cons.prems have "x \<in> set xs" by simp
    from achain_cons.IH [OF this] show ?thesis by simp
  qed
qed

lemma same_next_unique:
  assumes wf: "forest_ok H r"
  shows "sibling_chain H a cs \<Longrightarrow> x \<in> set cs \<Longrightarrow> z \<in> set cs \<Longrightarrow> next_sibling_in H x = next_sibling_in H z \<Longrightarrow> next_sibling_in H x \<noteq> -1 \<Longrightarrow> x = z"
proof (induction rule: sibling_chain.induct)
  case achain_nil
  then show ?case by simp
next
  case (achain_cons a h xs)
  have head: "\<And>y. y \<in> set xs \<Longrightarrow> next_sibling_in H y = h_next_sibling h \<Longrightarrow> h_next_sibling h \<noteq> -1 \<Longrightarrow> False"
  proof -
    fix y assume y: "y \<in> set xs" and n: "next_sibling_in H y = h_next_sibling h" and n1: "h_next_sibling h \<noteq> -1"
    from achain_props [OF wf achain_cons.hyps(3) y] have "r y \<le> r (h_next_sibling h)" by simp
    moreover from nsv_rank [OF wf, of y] n n1 have "r (h_next_sibling h) < r y" by simp
    ultimately show False by simp
  qed
  have na: "next_sibling_in H a = h_next_sibling h" using achain_cons.hyps(2) by (simp add: next_sibling_in_def)
  show ?case
  proof (cases "x = a")
    case xa: True
    show ?thesis
    proof (cases "z = a")
      case True
      with xa show ?thesis by simp
    next
      case False
      with achain_cons.prems have "z \<in> set xs" by simp
      from head [OF this] achain_cons.prems xa na show ?thesis by auto
    qed
  next
    case xa: False
    with achain_cons.prems have xin: "x \<in> set xs" by simp
    show ?thesis
    proof (cases "z = a")
      case True
      from head [OF xin] achain_cons.prems True na show ?thesis by auto
    next
      case False
      with achain_cons.prems have "z \<in> set xs" by simp
      from achain_cons.IH [OF xin this] achain_cons.prems show ?thesis by simp
    qed
  qed
qed

lemma achain_frame':
  assumes ch: "sibling_chain H a cs" and fr: "\<And>c. c \<in> set cs \<Longrightarrow> c \<in> dom H' \<and> next_sibling_in H' c = next_sibling_in H c"
  shows "sibling_chain H' a cs"
proof (rule achain_frame [OF ch])
  fix c assume "c \<in> set cs"
  from fr [OF this] obtain h' where "H' c = Some h'" "next_sibling_in H' c = next_sibling_in H c" by auto
  then show "\<exists>h'. H' c = Some h' \<and> h_next_sibling h' = next_sibling_in H c" by (simp add: next_sibling_in_def)
qed

lemma node_okI:
  "0 \<le> e \<Longrightarrow> parent_in H e = -1 \<or> parent_in H e \<in> dom H \<Longrightarrow>
   first_child_in H e = -1 \<or> (first_child_in H e \<in> dom H \<and> parent_in H (first_child_in H e) = e \<and> r (first_child_in H e) < r e) \<Longrightarrow>
   next_sibling_in H e = -1 \<or> (next_sibling_in H e \<in> dom H \<and> parent_in H e \<noteq> -1 \<and> parent_in H (next_sibling_in H e) = parent_in H e \<and> r (next_sibling_in H e) < r e) \<Longrightarrow>
   (parent_in H e \<noteq> -1 \<Longrightarrow> \<exists>cs. sibling_chain H (first_child_in H (parent_in H e)) cs \<and> e \<in> set cs) \<Longrightarrow> node_ok H r e"
  unfolding node_ok_def by blast

lemma node_okD:
  assumes "node_ok H r e"
  shows "0 \<le> e" and "parent_in H e = -1 \<or> parent_in H e \<in> dom H"
    and "first_child_in H e = -1 \<or> (first_child_in H e \<in> dom H \<and> parent_in H (first_child_in H e) = e \<and> r (first_child_in H e) < r e)"
    and "next_sibling_in H e = -1 \<or> (next_sibling_in H e \<in> dom H \<and> parent_in H e \<noteq> -1 \<and> parent_in H (next_sibling_in H e) = parent_in H e \<and> r (next_sibling_in H e) < r e)"
  using assms unfolding node_ok_def by blast+

lemma dom_valid: "forest_ok H r \<Longrightarrow> x \<in> dom H \<Longrightarrow> isValid x \<and> x \<noteq> -1"
  using wfh_nonneg [of H r x] by (auto simp: isValid_def)

lemma gc_wf:
  assumes wf: "forest_ok H r"
  shows "forest_ok (collected x H) r"
proof (cases "isValid (parent_in H x) \<or> isValid (first_child_in H x) \<or> x \<notin> dom H")
  case True
  have "x \<notin> dom H \<Longrightarrow> H(x := None) = H" by (auto simp: fun_upd_idem_iff)
  with True have "collected x H = H" by (auto simp: collected_def)
  with wf show ?thesis by simp
next
  case False
  then have x: "x \<in> dom H" and vp: "\<not> isValid (parent_in H x)" and vf: "\<not> isValid (first_child_in H x)" by simp_all
  note okx = node_okD [OF wfh_node [OF wf x]]
  have px: "parent_in H x = -1" using okx(2) vp dom_valid [OF wf, of "parent_in H x"] by blast
  have fx: "first_child_in H x = -1" using okx(3) vf dom_valid [OF wf, of "first_child_in H x"] by blast
  have g: "collected x H = H(x := None)" using vp vf by (simp add: collected_def)
  let ?H' = "H(x := None)"
  have x1: "x \<noteq> -1" using dom_valid [OF wf x] by simp
  have nopar: "\<And>y. parent_in H y \<noteq> x"
  proof
    fix y assume a: "parent_in H y = x"
    with x1 have p: "parent_in H y \<noteq> -1" by simp
    have "sibling_chain H (first_child_in H (parent_in H y)) []" using a fx by (simp add: achain_nil)
    from parv_kids [OF wf p this] show False by simp
  qed
  have nofc: "\<And>y. first_child_in H y \<noteq> x"
  proof
    fix y assume a: "first_child_in H y = x"
    with x1 have "first_child_in H y \<noteq> -1" by simp
    from fcv_rank [OF wf this] a have "parent_in H x = y" "y \<in> dom H" by simp_all
    with px dom_valid [OF wf, of y] show False by simp
  qed
  have nons: "\<And>y. next_sibling_in H y \<noteq> x"
  proof
    fix y assume a: "next_sibling_in H y = x"
    with x1 have "next_sibling_in H y \<noteq> -1" by simp
    from nsv_rank [OF wf this] a px show False by auto
  qed
  have sel: "\<And>y. y \<noteq> x \<Longrightarrow> parent_in ?H' y = parent_in H y \<and> first_child_in ?H' y = first_child_in H y \<and> next_sibling_in ?H' y = next_sibling_in H y"
    by (simp add: parent_in_def first_child_in_def next_sibling_in_def)
  have dm: "\<And>y. y \<in> dom ?H' \<longleftrightarrow> y \<in> dom H \<and> y \<noteq> x" by auto
  show ?thesis
    unfolding g wfh_alt
  proof (intro allI impI)
    fix y assume "y \<in> dom ?H'"
    then have y: "y \<in> dom H" "y \<noteq> x" by auto
    note ok = node_okD [OF wfh_node [OF wf y(1)]]
    note sy = sel [OF y(2)]
    show "node_ok ?H' r y"
    proof (rule node_okI)
      show "0 \<le> y" by (rule ok(1))
      show "parent_in ?H' y = -1 \<or> parent_in ?H' y \<in> dom ?H'"
        using ok(2) nopar [of y] sy by (simp only: dm) blast
      show "first_child_in ?H' y = -1 \<or> (first_child_in ?H' y \<in> dom ?H' \<and> parent_in ?H' (first_child_in ?H' y) = y \<and> r (first_child_in ?H' y) < r y)"
        using ok(3) nofc [of y] sy sel [of "first_child_in H y"] by (simp only: dm) metis
      show "next_sibling_in ?H' y = -1 \<or> (next_sibling_in ?H' y \<in> dom ?H' \<and> parent_in ?H' y \<noteq> -1 \<and> parent_in ?H' (next_sibling_in ?H' y) = parent_in ?H' y
              \<and> r (next_sibling_in ?H' y) < r y)"
        using ok(4) nons [of y] sy sel [of "next_sibling_in H y"] by (simp only: dm) metis
      show "\<exists>cs. sibling_chain ?H' (first_child_in ?H' (parent_in ?H' y)) cs \<and> y \<in> set cs" if "parent_in ?H' y \<noteq> -1"
      proof -
        from that sy have p: "parent_in H y \<noteq> -1" by simp
        from kids_exist [OF wf] obtain cs where cs: "sibling_chain H (first_child_in H (parent_in H y)) cs" by blast
        from parv_kids [OF wf p cs] have yin: "y \<in> set cs" .
        have "sibling_chain ?H' (first_child_in H (parent_in H y)) cs"
        proof (rule achain_frame' [OF cs])
          fix c assume c: "c \<in> set cs"
          from kids_props [OF wf cs c] have "parent_in H c = parent_in H y" "c \<in> dom H" by simp_all
          with p px have "c \<noteq> x" by auto
          with \<open>c \<in> dom H\<close> sel [of c] show "c \<in> dom ?H' \<and> next_sibling_in ?H' c = next_sibling_in H c" by (simp only: dm) simp
        qed
        moreover have "first_child_in ?H' (parent_in ?H' y) = first_child_in H (parent_in H y)"
          using sy sel [of "parent_in H y"] nopar [of y] by simp
        ultimately show ?thesis using yin by auto
      qed
    qed
  qed
qed


lemma detach_wf:
  assumes wf: "forest_ok H r" and e: "H e = Some he" and par: "h_parent he = op" and op1: "op \<noteq> -1"
    and ch: "sibling_chain H (first_child_in H op) cs"
  shows "forest_ok ((unlinked H op True cs e)(e \<mapsto> he\<lparr> h_parent := -1, h_next_sibling := -1 \<rparr>)) r"
    and "\<exists>z f hz. H z = Some hz \<and> z \<noteq> e \<and> ((z = op \<and> f) \<or> (z \<in> set cs \<and> \<not> f)) \<and> get_link H z f = e
           \<and> unlinked H op True cs e = H(z \<mapsto> set_link f (h_next_sibling he) hz)"
proof -
  have pe: "parent_in H e = op" and ne: "next_sibling_in H e = h_next_sibling he" using e par by (simp_all add: parent_in_def next_sibling_in_def)
  have ed: "e \<in> dom H" using e by auto
  have e1: "e \<noteq> -1" using dom_valid [OF wf ed] by simp
  have ecs: "e \<in> set cs" using parv_kids [OF wf _ ch [folded pe]] pe op1 by simp
  note kids = kids_props [OF wf ch]
  have opd: "op \<in> dom H" using kids [OF ecs] by simp
  then obtain hop where hop: "H op = Some hop" by auto
  have re: "r e < r op" using kids [OF ecs] by simp
  have op_cs: "op \<notin> set cs" using kids [of op] by auto
  have gl: "sibling_chain H (get_link H op True) cs" using ch by (simp add: get_link_def)
  from unlink_upd_shape [OF gl hop, of e] ecs
  obtain z f hz where z: "H z = Some hz" "(z = op \<and> f) \<or> (z \<in> set cs \<and> \<not> f)" "get_link H z f = e"
    and H1: "unlinked H op True cs e = H(z \<mapsto> set_link f (next_sibling_in H e) hz)" by auto
  define n where "n = h_next_sibling he"
  have zf: "f \<Longrightarrow> z = op \<and> first_child_in H op = e" and znf: "\<not> f \<Longrightarrow> z \<in> set cs \<and> next_sibling_in H z = e"
    using z(2,3) by (auto simp: get_link_def)
  have rz: "\<not> f \<Longrightarrow> r e < r z \<and> parent_in H z = op"
  proof -
    assume nf: "\<not> f"
    with znf have "next_sibling_in H z = e" "z \<in> set cs" by simp_all
    with nsv_rank [OF wf, of z] e1 kids [of z] show ?thesis by simp
  qed
  have ze: "z \<noteq> e"
  proof (cases f)
    case True
    with zf re show ?thesis by auto
  next
    case False
    with rz show ?thesis by auto
  qed
  show "\<exists>z f hz. H z = Some hz \<and> z \<noteq> e \<and> ((z = op \<and> f) \<or> (z \<in> set cs \<and> \<not> f)) \<and> get_link H z f = e
           \<and> unlinked H op True cs e = H(z \<mapsto> set_link f (h_next_sibling he) hz)"
    using z ze H1 ne by auto
  define H1 where "H1 = H(z \<mapsto> set_link f n hz)"
  define H' where "H' = H1(e \<mapsto> he\<lparr> h_parent := -1, h_next_sibling := -1 \<rparr>)"
  have H': "(unlinked H op True cs e)(e \<mapsto> he\<lparr> h_parent := -1, h_next_sibling := -1 \<rparr>) = H'"
    by (simp only: H1 ne n_def H1_def H'_def)
  have n_ok: "n = -1 \<or> (n \<in> dom H \<and> parent_in H n = op \<and> r n < r e \<and> n \<noteq> e)"
    using nsv_rank [OF wf, of e] ne pe by (auto simp: n_def)
  have tail: "\<And>x. first_child_in H op = e \<Longrightarrow> x \<in> set cs \<Longrightarrow> x \<noteq> e \<Longrightarrow> r x < r e"
  proof -
    fix x assume a: "first_child_in H op = e" "x \<in> set cs" "x \<noteq> e"
    from ch a(1) e e1 obtain xs where xs: "cs = e # xs" "sibling_chain H (h_next_sibling he) xs"
      by (auto elim: sibling_chain.cases)
    with a have "x \<in> set xs" by simp
    from achain_tail_rank [OF wf e xs(2) this] show "r x < r e" .
  qed
  have uniq_fc: "\<And>x. first_child_in H x = e \<Longrightarrow> x = z \<and> f"
  proof -
    fix x assume a: "first_child_in H x = e"
    with e1 fcv_rank [OF wf, of x] pe have xop: "x = op" by simp
    show "x = z \<and> f"
    proof (cases f)
      case True
      with zf xop show ?thesis by simp
    next
      case False
      with znf rz have "z \<in> set cs" "r e < r z" by simp_all
      with tail [of z] a xop show ?thesis by auto
    qed
  qed
  have uniq_ns: "\<And>x. next_sibling_in H x = e \<Longrightarrow> x = z \<and> \<not> f"
  proof -
    fix x assume a: "next_sibling_in H x = e"
    with e1 nsv_rank [OF wf, of x] pe have x: "parent_in H x = op" "r e < r x" by simp_all
    have xin: "x \<in> set cs" using parv_kids [OF wf _ ch [folded x(1)]] x(1) op1 by simp
    show "x = z \<and> \<not> f"
    proof (cases f)
      case True
      with zf tail [OF _ xin] x(2) show ?thesis by auto
    next
      case False
      with znf have "z \<in> set cs" "next_sibling_in H z = e" by simp_all
      with same_next_unique [OF wf ch xin this(1)] a e1 False show ?thesis by simp
    qed
  qed
  have dm: "\<And>y. y \<in> dom H' \<longleftrightarrow> y \<in> dom H" using z(1) ed by (auto simp: H'_def H1_def)
  have P: "\<And>x. parent_in H' x = (if x = e then -1 else parent_in H x)"
    using z(1) by (simp add: parent_in_def H'_def H1_def)
  have F: "\<And>x. first_child_in H' x = (if x = z \<and> f then n else first_child_in H x)"
    using z(1) e ze by (simp add: first_child_in_def H'_def H1_def)
  have N: "\<And>x. next_sibling_in H' x = (if x = e then -1 else if x = z \<and> \<not> f then n else next_sibling_in H x)"
    using z(1) ze by (simp add: next_sibling_in_def H'_def H1_def)
  have C5: "\<exists>cs'. sibling_chain H' (first_child_in H' (parent_in H x)) cs' \<and> x \<in> set cs'"
    if x: "x \<in> dom H" "x \<noteq> e" "parent_in H x \<noteq> -1" for x
  proof (cases "parent_in H x = op")
    case True
    have xin: "x \<in> set cs" using parv_kids [OF wf _ ch [folded True]] x(3) by simp
    have d: "distinct cs" by (rule achain_distinct [OF wf ch])
    from unlink_upd_chain [OF gl hop d op_cs, of e]
    have c1: "sibling_chain H1 (first_child_in H1 op) (removeAll e cs)"
      by (simp only: H1 ne n_def get_link_def if_True H1_def)
    have "sibling_chain H' (first_child_in H1 op) (removeAll e cs)"
    proof (rule achain_frame' [OF c1])
      fix c assume "c \<in> set (removeAll e cs)"
      then have "c \<noteq> e" "c \<in> set cs" by auto
      with kids [of c] show "c \<in> dom H' \<and> next_sibling_in H' c = next_sibling_in H1 c"
        by (simp only: dm) (simp add: next_sibling_in_def H'_def)
    qed
    moreover have "first_child_in H1 op = first_child_in H' op" using re by (auto simp: first_child_in_def H'_def)
    moreover have "x \<in> set (removeAll e cs)" using xin x(2) by simp
    ultimately show ?thesis using True by auto
  next
    case False
    from kids_exist [OF wf] obtain cq where cq: "sibling_chain H (first_child_in H (parent_in H x)) cq" by blast
    from parv_kids [OF wf x(3) cq] have xin: "x \<in> set cq" .
    have "sibling_chain H' (first_child_in H (parent_in H x)) cq"
    proof (rule achain_frame' [OF cq])
      fix c assume c: "c \<in> set cq"
      from kids_props [OF wf cq c] have cp: "parent_in H c = parent_in H x" "c \<in> dom H" by simp_all
      with False pe have ce: "c \<noteq> e" by auto
      have "\<not> (c = z \<and> \<not> f)"
      proof
        assume a: "c = z \<and> \<not> f"
        with rz have "parent_in H z = op" by simp
        with a cp False show False by simp
      qed
      with ce cp(2) N [of c] show "c \<in> dom H' \<and> next_sibling_in H' c = next_sibling_in H c" by (simp only: dm) simp
    qed
    moreover have "first_child_in H' (parent_in H x) = first_child_in H (parent_in H x)"
      using F [of "parent_in H x"] zf False by auto
    ultimately show ?thesis using xin by auto
  qed
  have "forest_ok H' r"
    unfolding wfh_alt
  proof (intro allI impI)
    fix y assume "y \<in> dom H'"
    then have y: "y \<in> dom H" by (simp only: dm)
    note ok = node_okD [OF wfh_node [OF wf y]]
    show "node_ok H' r y"
    proof (rule node_okI)
      show "0 \<le> y" by (rule ok(1))
      show "parent_in H' y = -1 \<or> parent_in H' y \<in> dom H'"
        using ok(2) by (simp only: dm P) simp
      show "first_child_in H' y = -1 \<or> (first_child_in H' y \<in> dom H' \<and> parent_in H' (first_child_in H' y) = y \<and> r (first_child_in H' y) < r y)"
      proof (cases "y = z \<and> f")
        case True
        with zf have "y = op" by simp
        with True n_ok re show ?thesis by (simp only: dm P F) auto
      next
        case False
        with uniq_fc [of y] have "first_child_in H y \<noteq> e" by auto
        with False ok(3) show ?thesis by (simp only: dm P F) auto
      qed
      show "next_sibling_in H' y = -1 \<or> (next_sibling_in H' y \<in> dom H' \<and> parent_in H' y \<noteq> -1 \<and> parent_in H' (next_sibling_in H' y) = parent_in H' y
              \<and> r (next_sibling_in H' y) < r y)"
      proof (cases "y = e")
        case True
        then show ?thesis by (simp only: N) simp
      next
        case ye: False
        show ?thesis
        proof (cases "y = z \<and> \<not> f")
          case True
          with rz have "r e < r y" "parent_in H y = op" by simp_all
          with True ye n_ok op1 show ?thesis by (simp only: dm P N) auto
        next
          case False
          with uniq_ns [of y] have "next_sibling_in H y \<noteq> e" by auto
          with False ye ok(4) show ?thesis by (simp only: dm P N) auto
        qed
      qed
      show "\<exists>cs. sibling_chain H' (first_child_in H' (parent_in H' y)) cs \<and> y \<in> set cs" if "parent_in H' y \<noteq> -1"
      proof -
        from that have "y \<noteq> e" "parent_in H y \<noteq> -1" by (auto simp: P split: if_splits)
        from C5 [OF y this] this(1) show ?thesis by (simp add: P)
      qed
    qed
  qed
  then show "forest_ok ((unlinked H op True cs e)(e \<mapsto> he\<lparr> h_parent := -1, h_next_sibling := -1 \<rparr>)) r"
    by (simp only: H')
qed

lemma setParent_phases:
  "setParent ops new_parent child w =
     Option.bind (if isValid new_parent then isDescendant w child new_parent else Some False)
       (\<lambda>would_create_cycle.
          if would_create_cycle then Some (w\<lparr> m_log := m_log w @ [''Hierarchy can not contains a cycle.''] \<rparr>)
          else Option.bind (setParent_detach new_parent child w) (setParent_attach ops new_parent child))"
  unfolding setParent_def setParent_detach_def setParent_attach_def ..

lemma has_record_cong:
  "m_entities w' = m_entities w \<Longrightarrow> has_record w' x = has_record w x \<and> hierarchy_idx w' x = hierarchy_idx w x
     \<and> in_range w' x = in_range w x"
  by (simp add: has_record_def in_range_def hierarchy_idx_def)

lemma parv_view: "has_record w x \<Longrightarrow> parent_in (record_of w) x = h_parent (hierarchy_at w (hierarchy_idx w x))"
  by (simp add: parent_in_def record_of_def)

lemma fcv_view: "has_record w x \<Longrightarrow> first_child_in (record_of w) x = h_first_child (hierarchy_at w (hierarchy_idx w x))"
  by (simp add: first_child_in_def record_of_def)

lemma collectGarbage_view:
  assumes ok: "idx_ok w" and x: "has_record w x"
  shows "idx_ok (collectGarbage x w)" and "record_of (collectGarbage x w) = collected x (record_of w)"
    and "\<And>y. in_range (collectGarbage x w) y = in_range w y"
proof -
  show "idx_ok (collectGarbage x w)"
  proof (cases "isValid (parent_in (record_of w) x) \<or> isValid (first_child_in (record_of w) x)")
    case True
    then have "collectGarbage x w = w" using x by (intro collectGarbage_keep) (simp add: parv_view fcv_view)
    with ok show ?thesis by simp
  next
    case False
    then show ?thesis using x by (intro collectGarbage_drop(1) [OF ok x]) (simp_all add: parv_view fcv_view)
  qed
  show "record_of (collectGarbage x w) = collected x (record_of w)"
  proof (cases "isValid (parent_in (record_of w) x) \<or> isValid (first_child_in (record_of w) x)")
    case True
    then have "collectGarbage x w = w" using x by (intro collectGarbage_keep) (simp add: parv_view fcv_view)
    with True show ?thesis by (simp add: collected_def)
  next
    case False
    then have "record_of (collectGarbage x w) = (record_of w)(x := None)"
      using x by (intro collectGarbage_drop(2) [OF ok x]) (simp_all add: parv_view fcv_view)
    with False show ?thesis by (simp add: collected_def)
  qed
  show "\<And>y. in_range (collectGarbage x w) y = in_range w y"
    by (simp add: in_range_def collectGarbage_def Let_def)
qed

lemma detach_from_parent:
  assumes ok: "idx_ok w" and wf: "forest_ok (record_of w) r" and e: "record_of w e = Some he"
    and par: "h_parent he = op" and op1: "op \<noteq> -1" and ch: "sibling_chain (record_of w) (first_child_in (record_of w) op) cs"
  shows "\<exists>w4. setParent_detach p e w = Some (w4, hierarchy_idx w4 e) \<and> idx_ok w4
          \<and> (\<forall>x. in_range w4 x = in_range w x)
          \<and> map ed_valid (m_entities w4) = map ed_valid (m_entities w)
          \<and> record_of w4 = collected op ((unlinked (record_of w) op True cs e)(e \<mapsto> he\<lparr> h_parent := -1, h_next_sibling := -1 \<rparr>))"
proof -
  let ?H = "record_of w"
  from view_SomeD [OF e] have er: "has_record w e" and he: "he = hierarchy_at w (hierarchy_idx w e)" by simp_all
  then have ei: "0 \<le> hierarchy_idx w e" by (simp add: has_record_def)
  from wfh_par [OF wf e] par op1 have opd: "op \<in> dom ?H" by simp
  then have opr: "has_record w op" by (simp add: view_dom)
  have opv: "isValid op" using dom_valid [OF wf opd] by simp
  have gl: "sibling_chain ?H (get_link ?H op True) cs" using ch by (simp add: get_link_def)
  from unlink_loop_spec [OF ok opr gl, of e] obtain w1 where w1:
    "unlink_loop w (mk_link w op True) e = Some w1" "idx_ok w1" "m_entities w1 = m_entities w"
    "record_of w1 = unlinked ?H op True cs e" by blast
  note c1 = has_record_cong [OF w1(3)]
  from detach_wf(2) [OF wf e par op1 ch] obtain z f hz where z: "?H z = Some hz" "z \<noteq> e"
    "unlinked ?H op True cs e = ?H(z \<mapsto> set_link f (h_next_sibling he) hz)" by blast
  have e1: "record_of w1 e = Some he" using w1(4) z e by simp
  define w2 where "w2 = upd_record e (\<lambda>h. h\<lparr> h_parent := INVALID_ENTITY \<rparr>) w1"
  define w3 where "w3 = upd_record e (\<lambda>h. h\<lparr> h_next_sibling := INVALID_ENTITY \<rparr>) w2"
  define w4 where "w4 = collectGarbage op w3"
  have r1: "has_record w1 e" using c1 er by simp
  have "\<And>h. h_entity (h\<lparr> h_parent := INVALID_ENTITY \<rparr>) = h_entity h" by simp
  from upd_record_ok [OF w1(2) r1, of "\<lambda>h. h\<lparr> h_parent := INVALID_ENTITY \<rparr>", OF this]
  have ok2: "idx_ok w2" and v2: "record_of w2 = (record_of w1)(e \<mapsto> he\<lparr> h_parent := INVALID_ENTITY \<rparr>)"
    by (simp_all add: w2_def e1)
  have r2: "has_record w2 e" using r1 by (simp add: w2_def)
  have "\<And>h. h_entity (h\<lparr> h_next_sibling := INVALID_ENTITY \<rparr>) = h_entity h" by simp
  from upd_record_ok [OF ok2 r2, of "\<lambda>h. h\<lparr> h_next_sibling := INVALID_ENTITY \<rparr>", OF this]
  have ok3: "idx_ok w3"
    and v3: "record_of w3 = (record_of w1)(e \<mapsto> he\<lparr> h_parent := INVALID_ENTITY, h_next_sibling := INVALID_ENTITY \<rparr>)"
    by (simp_all add: w3_def v2)
  have m3: "m_entities w3 = m_entities w" by (simp add: w3_def w2_def w1(3))
  note c3 = has_record_cong [OF m3]
  have r3: "has_record w3 op" using c3 opr by simp
  note g = collectGarbage_view [OF ok3 r3]
  have call: "setParent_detach p e w = Some (w4, hierarchy_idx w4 e)"
  proof -
    have a: "unlink_loop w (FirstChildOf (hierarchy_idx w op)) e = Some w1"
      using w1(1) by (simp add: mk_link_def)
    have b: "set_parent_at (hierarchy_idx w e) INVALID_ENTITY w1 = w2"
      using set_parent_at_upd [of w1 e INVALID_ENTITY] c1 by (simp add: w2_def)
    have c: "set_next_sibling_at (hierarchy_idx w e) INVALID_ENTITY w2 = w3"
      using set_next_sibling_at_upd [of w2 e INVALID_ENTITY] c1 by (simp add: w3_def w2_def)
    show ?thesis
      using ei opv par he [symmetric]
      by (simp add: setParent_detach_def Let_def a b c w4_def)
  qed
  show ?thesis
  proof (intro exI conjI allI)
    show "setParent_detach p e w = Some (w4, hierarchy_idx w4 e)" by (rule call)
    show "idx_ok w4" unfolding w4_def by (rule g(1))
    show "in_range w4 x = in_range w x" for x using g(3) [of x] c3 [of x] by (simp add: w4_def)
    show "map ed_valid (m_entities w4) = map ed_valid (m_entities w)"
      by (simp add: w4_def collectGarbage_valid m3)
    show "record_of w4 = collected op ((unlinked ?H op True cs e)(e \<mapsto> he\<lparr> h_parent := -1, h_next_sibling := -1 \<rparr>))"
      unfolding w4_def g(2) v3 w1(4) INVALID_ENTITY_def ..
  qed
qed

lemma invalid_not_valid [simp]: "\<not> isValid INVALID_ENTITY"
  by (simp add: isValid_def INVALID_ENTITY_def)

lemma gcv_apply: "collected x H y = (if y = x \<and> \<not> isValid (parent_in H x) \<and> \<not> isValid (first_child_in H x) then None else H y)"
  by (simp add: collected_def)

lemma fcv_gcv: "first_child_in (collected x H) q = first_child_in H q \<or> first_child_in (collected x H) q = -1"
  by (simp add: collected_def first_child_in_def)

lemma link_valid: "forest_ok H r \<Longrightarrow> x = -1 \<or> x \<in> dom H \<Longrightarrow> isValid x \<longleftrightarrow> x \<noteq> -1"
  using dom_valid [of H r x] by (auto simp: isValid_def)

lemma setParent_detached:
  assumes hok: "hierarchy_ok w r" and c: "in_range w c"
  shows "\<exists>w'. setParent ops INVALID_ENTITY c w = Some w' \<and> hierarchy_ok w' r
           \<and> (\<forall>x. in_range w' x = in_range w x)
           \<and> map ed_valid (m_entities w') = map ed_valid (m_entities w)
           \<and> (\<forall>q. first_child_in (record_of w) q = c \<longrightarrow> c \<noteq> -1 \<longrightarrow>
                  first_child_in (record_of w') q = -1 \<or> first_child_in (record_of w') q = next_sibling_in (record_of w) c)"
proof -
  let ?H = "record_of w"
  from hok have ok: "idx_ok w" and wf: "forest_ok ?H r" by (simp_all add: hierarchy_ok_def)
  have sp: "setParent ops INVALID_ENTITY c w =
              Option.bind (setParent_detach INVALID_ENTITY c w) (setParent_attach ops INVALID_ENTITY c)"
    by (simp add: setParent_phases)
  show ?thesis
  proof (cases "?H c")
    case None
    then have "\<not> has_record w c" by (simp add: record_of_def split: if_splits)
    with c have i: "hierarchy_idx w c < 0" by (simp add: has_record_def)
    then have "setParent ops INVALID_ENTITY c w = Some w"
      by (simp add: sp setParent_detach_def setParent_attach_def Let_def)
    moreover have "\<And>q. first_child_in ?H q = c \<Longrightarrow> c \<noteq> -1 \<Longrightarrow> False"
      using fcv_rank [OF wf] None by auto
    ultimately show ?thesis using hok by auto
  next
    case (Some hc)
    from view_SomeD [OF Some] have cr: "has_record w c" and hc: "hc = hierarchy_at w (hierarchy_idx w c)"
      by simp_all
    then have ci: "0 \<le> hierarchy_idx w c" by (simp add: has_record_def)
    show ?thesis
    proof (cases "h_parent hc = -1")
      case True
      then have nv: "\<not> isValid (h_parent (hierarchy_at w (hierarchy_idx w c)))"
        using hc by (simp add: isValid_def)
      have call: "setParent ops INVALID_ENTITY c w = Some (collectGarbage c w)"
        using ci nv by (simp add: sp setParent_detach_def setParent_attach_def Let_def)
      note g = collectGarbage_view [OF ok cr]
      have "hierarchy_ok (collectGarbage c w) r"
        using g(1) g(2) gc_wf [OF wf, of c] by (simp add: hierarchy_ok_def)
      moreover have "\<And>q. first_child_in ?H q = c \<Longrightarrow> c \<noteq> -1 \<Longrightarrow> False"
      proof -
        fix q assume "first_child_in ?H q = c" "c \<noteq> -1"
        with fcv_rank [OF wf, of q] have "parent_in ?H c = q" "q \<in> dom ?H" by simp_all
        with True Some dom_valid [OF wf, of q] show False by (simp add: parent_in_def)
      qed
      ultimately show ?thesis using call g(3) by (auto simp: collectGarbage_valid)
    next
      case False
      define op where "op = h_parent hc"
      have par: "h_parent hc = op" and op1: "op \<noteq> -1" using False by (simp_all add: op_def)
      from kids_exist [OF wf] obtain cs where cs: "sibling_chain ?H (first_child_in ?H op) cs" by blast
      from detach_from_parent [OF ok wf Some par op1 cs, of INVALID_ENTITY]
      obtain w4 where w4: "setParent_detach INVALID_ENTITY c w = Some (w4, hierarchy_idx w4 c)" "idx_ok w4"
        "\<And>x. in_range w4 x = in_range w x" "map ed_valid (m_entities w4) = map ed_valid (m_entities w)"
        "record_of w4 = collected op ((unlinked ?H op True cs c)(c \<mapsto> hc\<lparr> h_parent := -1, h_next_sibling := -1 \<rparr>))"
        by blast
      let ?H3 = "(unlinked ?H op True cs c)(c \<mapsto> hc\<lparr> h_parent := -1, h_next_sibling := -1 \<rparr>)"
      have wf3: "forest_ok ?H3 r" by (rule detach_wf(1) [OF wf Some par op1 cs])
      have wf4: "forest_ok (record_of w4) r" unfolding w4(5) by (rule gc_wf [OF wf3])
      have pc: "parent_in ?H c = op" using Some par by (simp add: parent_in_def)
      have cin: "c \<in> set cs" using parv_kids [OF wf _ cs [folded pc]] pc op1 by simp
      have cop: "c \<noteq> op" using kids_props [OF wf cs cin] by auto
      have c4: "record_of w4 c = Some (hc\<lparr> h_parent := -1, h_next_sibling := -1 \<rparr>)"
        using cop by (simp add: w4(5) gcv_apply)
      then have cr4: "has_record w4 c" using view_SomeD by blast
      then have ci4: "0 \<le> hierarchy_idx w4 c" by (simp add: has_record_def)
      have call: "setParent ops INVALID_ENTITY c w = Some (collectGarbage c w4)"
        using ci4 by (simp add: sp w4(1) setParent_attach_def)
      note g = collectGarbage_view [OF w4(2) cr4]
      have hok': "hierarchy_ok (collectGarbage c w4) r"
        using g(1) g(2) gc_wf [OF wf4, of c] by (simp add: hierarchy_ok_def)
      have fc: "first_child_in (record_of (collectGarbage c w4)) q = -1 \<or> first_child_in (record_of (collectGarbage c w4)) q = next_sibling_in ?H c"
        if q: "first_child_in ?H q = c" "c \<noteq> -1" for q
      proof -
        from fcv_rank [OF wf, of q] q pc have qop: "q = op" by simp
        from cs q(1) qop Some q(2) obtain xs where xs: "cs = c # xs"
          by (auto elim: sibling_chain.cases)
        from kids_props [OF wf cs cin] obtain hop where hop: "?H op = Some hop" by auto
        have u: "unlinked ?H op True cs c = ?H(op \<mapsto> set_link True (next_sibling_in ?H c) hop)"
          unfolding xs using hop by (simp only: unlinked.simps if_True option.sel simp_thms)
        have "first_child_in ?H3 op = next_sibling_in ?H c" using cop by (simp add: u first_child_in_def)
        with fcv_gcv [of op ?H3 op] have "first_child_in (record_of w4) op = -1 \<or> first_child_in (record_of w4) op = next_sibling_in ?H c"
          by (auto simp: w4(5))
        with fcv_gcv [of c "record_of w4" op] show ?thesis by (auto simp: g(2) qop)
      qed
      show ?thesis
      proof (intro exI conjI allI impI)
        show "setParent ops INVALID_ENTITY c w = Some (collectGarbage c w4)" by (rule call)
        show "hierarchy_ok (collectGarbage c w4) r" by (rule hok')
        show "in_range (collectGarbage c w4) x = in_range w x" for x using g(3) [of x] w4(3) [of x] by simp
        show "map ed_valid (m_entities (collectGarbage c w4)) = map ed_valid (m_entities w)"
          by (simp add: collectGarbage_valid w4(4))
        show "first_child_in (record_of (collectGarbage c w4)) q = -1 \<or> first_child_in (record_of (collectGarbage c w4)) q = next_sibling_in ?H c"
          if "first_child_in ?H q = c" "c \<noteq> -1" for q using fc [OF that] .
      qed
    qed
  qed
qed

lemma detach_children_total:
  "hierarchy_ok w r \<Longrightarrow> in_range w e \<Longrightarrow>
     \<exists>w'. detach_children ops e w = Some w' \<and> hierarchy_ok w' r
        \<and> (\<forall>x. in_range w' x = in_range w x)
        \<and> map ed_valid (m_entities w') = map ed_valid (m_entities w)"
proof (induction "if first_child_in (record_of w) e = -1 then 0 else Suc (r (first_child_in (record_of w) e))" arbitrary: w rule: less_induct)
  case less
  let ?H = "record_of w"
  from less.prems have ok: "idx_ok w" and wf: "forest_ok ?H r" by (simp_all add: hierarchy_ok_def)
  have gf: "getFirstChild w e = first_child_in ?H e" by (rule getFirstChild_view [OF less.prems(2)])
  show ?case
  proof (cases "first_child_in ?H e = -1")
    case True
    then have "detach_children ops e w = Some w"
      by (subst detach_children.simps) (simp add: gf isValid_def)
    with less.prems(1) show ?thesis by simp
  next
    case False
    define c where "c = first_child_in ?H e"
    from fcv_rank [OF wf False] have cd: "c \<in> dom ?H" by (simp add: c_def)
    then have cr: "in_range w c" and cv: "isValid c" and c1: "c \<noteq> -1"
      using has_record_range [of w c] by (simp_all add: view_dom)
    from setParent_detached [OF less.prems(1) cr, of ops] obtain w1 where w1:
      "setParent ops INVALID_ENTITY c w = Some w1" "hierarchy_ok w1 r"
      "\<And>x. in_range w1 x = in_range w x" "map ed_valid (m_entities w1) = map ed_valid (m_entities w)"
      "first_child_in (record_of w1) e = -1 \<or> first_child_in (record_of w1) e = next_sibling_in ?H c"
      using c1 c_def by blast
    have e1: "in_range w1 e" using w1(3) less.prems(2) by simp
    have dec: "(if first_child_in (record_of w1) e = -1 then 0 else Suc (r (first_child_in (record_of w1) e)))
                 < (if first_child_in ?H e = -1 then 0 else Suc (r (first_child_in ?H e)))"
    proof (cases "first_child_in (record_of w1) e = -1")
      case True
      with False show ?thesis by simp
    next
      case nz: False
      with w1(5) have "first_child_in (record_of w1) e = next_sibling_in ?H c" "next_sibling_in ?H c \<noteq> -1" by auto
      with nsv_rank [OF wf, of c] False nz show ?thesis by (simp add: c_def)
    qed
    from less.hyps [OF dec w1(2) e1] obtain w' where w':
      "detach_children ops e w1 = Some w'" "hierarchy_ok w' r"
      "\<And>x. in_range w' x = in_range w1 x" "map ed_valid (m_entities w') = map ed_valid (m_entities w1)"
      by blast
    have "detach_children ops e w = Some w'"
      using cv w1(1) w'(1) by (subst detach_children.simps) (simp add: gf c_def [symmetric])
    with w' w1 show ?thesis by simp
  qed
qed

lemma map_valid_upd:
  "(\<And>x. ed_valid (f x) = ed_valid x) \<Longrightarrow> map ed_valid (xs[i := f (xs ! i)]) = map ed_valid xs"
  by (cases "i < length xs") (simp_all add: map_update list_update_same_conv list_update_beyond)

lemma onComponentDestroyed_valid:
  "map ed_valid (m_entities (onComponentDestroyed e i w)) = map ed_valid (m_entities w)"
  unfolding onComponentDestroyed_def
  using map_valid_upd [of "\<lambda>d. d\<lparr> ed_components := and (ed_components d) (not (push_bit i 1)) \<rparr>" "m_entities w" "nat e"]
  by simp

lemma destroy_loop_valid:
  "map ed_valid (m_entities (fold (\<lambda>i w'. if bit (ed_components (m_entities w' ! nat e)) i
                   then onComponentDestroyed e i w' else w') xs w)) = map ed_valid (m_entities w)"
  by (induction xs arbitrary: w) (simp_all add: onComponentDestroyed_valid)

lemma destroy_components_valid:
  "map ed_valid (m_entities (destroy_components e w)) = map ed_valid (m_entities w)"
  unfolding destroy_components_def by (rule destroy_loop_valid)

lemma release_slot_valid:
  "map ed_valid (m_entities (release_slot e w)) = (map ed_valid (m_entities w))[nat e := False]"
proof -
  define ents1 where "ents1 = (m_entities w)[nat e := (m_entities w ! nat e)
                     \<lparr> ed_next := m_first_free_slot w, ed_prev := -1, ed_hierarchy := -1, ed_valid := False \<rparr>]"
  define ents2 where "ents2 = (if m_first_free_slot w \<ge> 0
                   then ents1[nat (m_first_free_slot w) := (ents1 ! nat (m_first_free_slot w))\<lparr> ed_prev := e \<rparr>]
                   else ents1)"
  define ents2a where "ents2a = ents2[nat (en_entity (last (m_names w))) :=
                               (ents2 ! nat (en_entity (last (m_names w))))\<lparr> ed_name := ed_name (ents2 ! nat e) \<rparr>]"
  define ents3 where "ents3 = (if ed_name (ents2 ! nat e) \<ge> 0
                                then ents2a[nat e := (ents2a ! nat e)\<lparr> ed_name := -1 \<rparr>] else ents2)"
  have m: "m_entities (release_slot e w) = ents3"
    by (simp add: release_slot_def Let_def ents1_def ents2_def ents2a_def ents3_def split_def)
  have v1: "map ed_valid ents1 = (map ed_valid (m_entities w))[nat e := False]"
    by (simp add: ents1_def map_update)
  have v2: "map ed_valid ents2 = map ed_valid ents1"
    using map_valid_upd [of "\<lambda>d. d\<lparr> ed_prev := e \<rparr>" ents1 "nat (m_first_free_slot w)"]
    by (simp add: ents2_def)
  have v2a: "map ed_valid ents2a = map ed_valid ents2"
    using map_valid_upd [of "\<lambda>d. d\<lparr> ed_name := ed_name (ents2 ! nat e) \<rparr>" ents2 "nat (en_entity (last (m_names w)))"]
    by (simp add: ents2a_def)
  have v3: "map ed_valid ents3 = map ed_valid ents2"
    using map_valid_upd [of "\<lambda>d. d\<lparr> ed_name := -1 \<rparr>" ents2a "nat e"] v2a
    by (simp add: ents3_def)
  show ?thesis by (simp only: m v3 v2 v1)
qed

lemma hasEntity_range: "hasEntity w e \<longleftrightarrow> in_range w e \<and> ed_valid (m_entities w ! nat e)"
  by (auto simp: hasEntity_def in_range_def)

lemma destroyEntity_removes:
  assumes hok: "hierarchy_ok w r" and e: "hasEntity w e"
  shows "\<exists>w'. destroyEntity ops e w = Some w' \<and> \<not> hasEntity w' e"
proof -
  from e have er: "in_range w e" and ev: "ed_valid (m_entities w ! nat e)" by (simp_all add: hasEntity_range)
  from detach_children_total [OF hok er, of ops] obtain w1 where w1:
    "detach_children ops e w = Some w1" "hierarchy_ok w1 r" "\<And>x. in_range w1 x = in_range w x"
    "map ed_valid (m_entities w1) = map ed_valid (m_entities w)" by blast
  have er1: "in_range w1 e" using w1(3) er by simp
  from setParent_detached [OF w1(2) er1, of ops] obtain w2 where w2:
    "setParent ops INVALID_ENTITY e w1 = Some w2"
    "map ed_valid (m_entities w2) = map ed_valid (m_entities w1)" by blast
  let ?w' = "release_slot e (destroy_components e w2)"
  have call: "destroyEntity ops e w = Some ?w'"
    using ev w1(1) w2(1) by (simp add: destroyEntity_def)
  have v: "map ed_valid (m_entities ?w') = (map ed_valid (m_entities w))[nat e := False]"
    by (simp only: release_slot_valid destroy_components_valid w2(2) w1(4))
  have "\<not> hasEntity ?w' e"
  proof
    assume h: "hasEntity ?w' e"
    then have a: "nat e < length (m_entities ?w')" "ed_valid (m_entities ?w' ! nat e)"
      by (auto simp: hasEntity_def)
    from a(1) have "ed_valid (m_entities ?w' ! nat e) = map ed_valid (m_entities ?w') ! nat e" by simp
    also have "\<dots> = False" using a(1) v
      by (metis length_list_update length_map nth_list_update_eq)
    finally show False using a(2) by simp
  qed
  with call show ?thesis by blast
qed

lemma createEntity_hasEntity:
  assumes "m_first_free_slot w < int (length (m_entities w))"
  shows "hasEntity (fst (createEntity w position rotation)) (snd (createEntity w position rotation))"
  using assms by (auto simp: createEntity_def Let_def hasEntity_def)










lemma nth_upd_prev_hierarchy:
  "ed_hierarchy ((xs[i := (xs ! i)\<lparr> ed_prev := v \<rparr>]) ! j) = ed_hierarchy (xs ! j)"
proof (cases "i = j")
  case True
  then show ?thesis by (cases "j < length xs") (simp_all add: list_update_beyond)
next
  case False
  then show ?thesis by simp
qed

lemma createEntity_hierarchy:
  assumes fr: "free_slot_ok w"
  shows "m_hierarchy (fst (createEntity w position rotation)) = m_hierarchy w"
    and "\<And>x. in_range w x \<Longrightarrow> in_range (fst (createEntity w position rotation)) x"
    and "\<And>x. has_record (fst (createEntity w position rotation)) x \<longleftrightarrow> has_record w x"
    and "\<And>x. has_record w x \<Longrightarrow> hierarchy_idx (fst (createEntity w position rotation)) x = hierarchy_idx w x"
proof -
  let ?w' = "fst (createEntity w position rotation)"
  let ?n = "length (m_entities w)"
  show "m_hierarchy ?w' = m_hierarchy w"
    by (simp add: createEntity_def Let_def split_def)
  have len: "?n \<le> length (m_entities ?w')"
    by (simp add: createEntity_def Let_def split_def)
  show rng: "\<And>x. in_range w x \<Longrightarrow> in_range ?w' x"
    using len by (simp add: in_range_def)
  have idx: "\<And>x. in_range ?w' x \<Longrightarrow>
                hierarchy_idx ?w' x = (if x = snd (createEntity w position rotation) then -1 else hierarchy_idx w x)
                \<and> (x \<noteq> snd (createEntity w position rotation) \<longrightarrow> in_range w x)"
  proof -
    fix x assume x: "in_range ?w' x"
    show "hierarchy_idx ?w' x = (if x = snd (createEntity w position rotation) then -1 else hierarchy_idx w x)
                \<and> (x \<noteq> snd (createEntity w position rotation) \<longrightarrow> in_range w x)"
    proof (cases "0 \<le> m_first_free_slot w")
      case True
      with fr have s: "nat (m_first_free_slot w) < ?n" by (auto simp: free_slot_ok_def)
      define slot where "slot = m_first_free_slot w"
      define ents1 where "ents1 = (if ed_next (m_entities w ! nat slot) \<ge> 0
                             then (m_entities w)[nat (ed_next (m_entities w ! nat slot)) :=
                                     (m_entities w ! nat (ed_next (m_entities w ! nat slot)))\<lparr> ed_prev := -1 \<rparr>]
                             else m_entities w)"
      have l1: "length ents1 = ?n" by (simp add: ents1_def)
      have h1: "\<And>j. ed_hierarchy (ents1 ! j) = ed_hierarchy (m_entities w ! j)"
        by (simp add: ents1_def nth_upd_prev_hierarchy)
      have sn: "snd (createEntity w position rotation) = slot"
        using True by (simp add: createEntity_def Let_def split_def slot_def)
      have m: "m_entities ?w' = ents1[nat slot := (ents1 ! nat slot)\<lparr> ed_partition := m_active_partition w, ed_name := -1,
                    ed_hierarchy := -1, ed_components := 0, ed_valid := True \<rparr>]"
        using True by (simp add: createEntity_def Let_def split_def slot_def ents1_def)
      have xr: "in_range w x" using x by (simp add: in_range_def m l1)
      then have nx: "nat x < ?n" "0 \<le> x" by (auto simp: in_range_def)
      have "hierarchy_idx ?w' x = (if x = slot then -1 else hierarchy_idx w x)"
        using nx s True by (simp add: hierarchy_idx_def m l1 nth_list_update h1 nat_eq_in_range slot_def)
      with xr sn show ?thesis by simp
    next
      case False
      with x show ?thesis
        by (auto simp: createEntity_def Let_def split_def in_range_def hierarchy_idx_def nth_list_update
            nth_append nat_eq_in_range)
    qed
  qed
  have new: "\<not> has_record w (snd (createEntity w position rotation))"
  proof (cases "0 \<le> m_first_free_slot w")
    case True
    with fr show ?thesis
      by (simp add: createEntity_def Let_def split_def has_record_def free_slot_ok_def)
  next
    case False
    then show ?thesis
      by (simp add: createEntity_def Let_def split_def has_record_def in_range_def)
  qed
  show "\<And>x. has_record ?w' x \<longleftrightarrow> has_record w x"
  proof
    fix x assume h: "has_record ?w' x"
    then have xr: "in_range ?w' x" and xi: "0 \<le> hierarchy_idx ?w' x" by (simp_all add: has_record_def)
    from idx [OF xr] xi have "x \<noteq> snd (createEntity w position rotation)" by auto
    with idx [OF xr] xi show "has_record w x" by (simp add: has_record_def)
  next
    fix x assume h: "has_record w x"
    then have xr: "in_range w x" and xi: "0 \<le> hierarchy_idx w x" by (simp_all add: has_record_def)
    from h new have "x \<noteq> snd (createEntity w position rotation)" by auto
    with idx [OF rng [OF xr]] xi rng [OF xr] show "has_record ?w' x" by (simp add: has_record_def)
  qed
  show "\<And>x. has_record w x \<Longrightarrow> hierarchy_idx ?w' x = hierarchy_idx w x"
  proof -
    fix x assume h: "has_record w x"
    then have xr: "in_range w x" by (simp add: has_record_def)
    from h new have "x \<noteq> snd (createEntity w position rotation)" by auto
    with idx [OF rng [OF xr]] show "hierarchy_idx ?w' x = hierarchy_idx w x" by simp
  qed
qed

lemma createEntity_ok:
  assumes fr: "free_slot_ok w" and hok: "hierarchy_ok w r"
  shows "hierarchy_ok (fst (createEntity w position rotation)) r"
proof -
  let ?w' = "fst (createEntity w position rotation)"
  note c = createEntity_hierarchy [OF fr, where position = position and rotation = rotation]
  from hok have ok: "idx_ok w" and wf: "forest_ok (record_of w) r" by (simp_all add: hierarchy_ok_def)
  have v: "record_of ?w' = record_of w"
  proof
    fix x show "record_of ?w' x = record_of w x"
      using c(3) [of x] c(4) [of x] by (simp add: record_of_def hierarchy_at_def c(1))
  qed
  have "idx_ok ?w'"
    unfolding idx_ok_def
  proof (intro conjI allI impI)
    fix i assume "i < length (m_hierarchy ?w')"
    then have i: "i < length (m_hierarchy w)" by (simp add: c(1))
    from idx_okD1 [OF ok i] have r: "in_range w (h_entity (m_hierarchy w ! i))"
      and j: "hierarchy_idx w (h_entity (m_hierarchy w ! i)) = int i" by simp_all
    then have hr: "has_record w (h_entity (m_hierarchy w ! i))" by (simp add: has_record_def)
    show "in_range ?w' (h_entity (m_hierarchy ?w' ! i))" using c(2) [OF r] by (simp add: c(1))
    show "hierarchy_idx ?w' (h_entity (m_hierarchy ?w' ! i)) = int i" using c(4) [OF hr] j by (simp add: c(1))
  next
    fix x assume "has_record ?w' x"
    then have h: "has_record w x" by (simp add: c(3))
    from idx_okD2 [OF ok h] c(4) [OF h]
    show "hierarchy_idx ?w' x < int (length (m_hierarchy ?w'))"
      and "h_entity (hierarchy_at ?w' (hierarchy_idx ?w' x)) = x"
      by (simp_all add: c(1) hierarchy_at_def)
  qed
  with wf v show ?thesis by (simp add: hierarchy_ok_def)
qed

lemma family_shape_ok:
  assumes hs: "m_hierarchy w = [family_child, family_parent]"
    and len: "length (m_entities w) = 3"
    and i0: "hierarchy_idx w 0 = 1" and i1: "hierarchy_idx w 1 = 0" and i2: "hierarchy_idx w 2 < 0"
  shows "hierarchy_ok w family_rank"
proof -
  have rng: "\<And>x. in_range w x \<longleftrightarrow> x = 0 \<or> x = 1 \<or> x = 2"
    using len by (auto simp: in_range_def)
  have rec: "\<And>x. has_record w x \<longleftrightarrow> x = 0 \<or> x = 1"
    using i0 i1 i2 by (auto simp: has_record_def rng)
  have at: "hierarchy_at w 0 = family_child" "hierarchy_at w 1 = family_parent"
    by (simp_all add: hierarchy_at_def hs)
  have ok: "idx_ok w"
    unfolding idx_ok_def
  proof (intro conjI allI impI)
    fix i assume "i < length (m_hierarchy w)"
    then have "i = 0 \<or> i = 1" by (auto simp: hs)
    then show "in_range w (h_entity (m_hierarchy w ! i))"
      and "hierarchy_idx w (h_entity (m_hierarchy w ! i)) = int i"
      using i0 i1 by (auto simp: hs rng family_child_def family_parent_def)
  next
    fix x assume "has_record w x"
    then have "x = 0 \<or> x = 1" by (simp add: rec)
    then show "hierarchy_idx w x < int (length (m_hierarchy w))"
      and "h_entity (hierarchy_at w (hierarchy_idx w x)) = x"
      using i0 i1 at by (auto simp: hs family_child_def family_parent_def)
  qed
  have v: "record_of w = (\<lambda>x. if x = 0 then Some family_parent else if x = 1 then Some family_child else None)"
    using i0 i1 at by (auto simp: record_of_def rec fun_eq_iff)
  have dm: "\<And>x. x \<in> dom (record_of w) \<longleftrightarrow> x = 0 \<or> x = 1" by (auto simp: v split: if_splits)
  have sel: "parent_in (record_of w) 0 = -1" "first_child_in (record_of w) 0 = 1" "next_sibling_in (record_of w) 0 = -1"
    "parent_in (record_of w) 1 = 0" "first_child_in (record_of w) 1 = -1" "next_sibling_in (record_of w) 1 = -1"
    by (simp_all add: v parent_in_def first_child_in_def next_sibling_in_def family_child_def family_parent_def)
  have "sibling_chain (record_of w) (-1) []" by (rule achain_nil)
  then have "sibling_chain (record_of w) (h_next_sibling family_child) []" by (simp add: family_child_def)
  then have ch: "sibling_chain (record_of w) 1 [1]"
    by (intro achain_cons [where h = family_child]) (simp_all add: v)
  have "forest_ok (record_of w) family_rank"
    unfolding wfh_alt
  proof (intro allI impI)
    fix x assume "x \<in> dom (record_of w)"
    then have "x = 0 \<or> x = 1" by (simp add: dm)
    then show "node_ok (record_of w) family_rank x"
    proof
      assume "x = 0"
      then show ?thesis by (simp add: node_ok_def sel dm family_rank_def)
    next
      assume "x = 1"
      with ch show ?thesis by (auto simp: node_ok_def sel dm family_rank_def)
    qed
  qed
  with ok show ?thesis by (simp add: hierarchy_ok_def)
qed

lemma family_world_eq:
  "family_world =
     \<lparr> m_entities =
         [\<lparr> ed_hierarchy = 1, ed_name = -1, ed_partition = 0, ed_components = 0, ed_prev = -1, ed_next = -1, ed_valid = True \<rparr>,
          \<lparr> ed_hierarchy = 0, ed_name = -1, ed_partition = 0, ed_components = 0, ed_prev = -1, ed_next = -1, ed_valid = True \<rparr>,
          \<lparr> ed_hierarchy = -1, ed_name = -1, ed_partition = 0, ed_components = 0, ed_prev = -1, ed_next = -1, ed_valid = True \<rparr>],
       m_transforms =
         [\<lparr> tr_pos = (0, 0, 0), tr_rot = (0, 0, 0, 1), tr_scale = (1, 1, 1) \<rparr>,
          \<lparr> tr_pos = (1, 0, 0), tr_rot = (0, 0, 0, 1), tr_scale = (1, 1, 1) \<rparr>,
          \<lparr> tr_pos = (2, 0, 0), tr_rot = (0, 0, 0, 1), tr_scale = (1, 1, 1) \<rparr>],
       m_hierarchy =
         [\<lparr> h_entity = 1, h_parent = 0, h_first_child = -1, h_next_sibling = -1,
            h_local_transform = \<lparr> tr_pos = (1, 0, 0), tr_rot = (0, 0, 0, 1), tr_scale = (1, 1, 1) \<rparr> \<rparr>,
          \<lparr> h_entity = 0, h_parent = -1, h_first_child = 1, h_next_sibling = -1,
            h_local_transform = \<lparr> tr_pos = (0, 0, 0), tr_rot = (0, 0, 0, 1), tr_scale = (1, 1, 1) \<rparr> \<rparr>],
       m_names = [], m_first_free_slot = -1, m_active_partition = 0, m_log = [] \<rparr>"
  by (simp add: family_world_def createEntity_def new_World_def Let_def fresh_EntityData_def setParent_def isValid_def
      isDescendant_def getFirstChild_def hierarchy_idx_def INVALID_ENTITY_def isDescendant_loop.simps
      emplace_hierarchy_def set_parent_at_def hierarchy_at_def getTransform_def set_local_transform_at_def
      set_next_sibling_at_def set_first_child_at_def default_Transform_def
      rigid_ops_def rigid_mul_def rigid_inverted_def quat_rotate_def quat_mul_def vec3_add_def
      vec3_mul_def vec3_cross_def)

lemma family_world_ok: "hierarchy_ok family_world family_rank"
  by (rule family_shape_ok)
    (simp_all add: family_world_eq family_child_def family_parent_def hierarchy_idx_def)

lemma family_world_live: "hasEntity family_world 0" "hasEntity family_world 1" "hasEntity family_world 2"
  by (simp_all add: family_world_eq hasEntity_def)

lemma family_world_free: "free_slot_ok family_world"
  by (simp add: family_world_eq free_slot_ok_def)




lemma destroy_components_none:
  "ed_components (m_entities w ! nat e) = 0 \<Longrightarrow> destroy_components e w = w"
proof -
  have "ed_components (m_entities w ! nat e) = 0 \<Longrightarrow>
        fold (\<lambda>i w'. if bit (ed_components (m_entities w' ! nat e)) i
                   then onComponentDestroyed e i w' else w') xs w = w" for xs
    by (induction xs) simp_all
  then show "ed_components (m_entities w ! nat e) = 0 \<Longrightarrow> destroy_components e w = w"
    by (simp add: destroy_components_def)
qed

lemma freed_world_eq:
  "freed_world =
     family_world\<lparr> m_entities := (m_entities family_world)
                      [2 := \<lparr> ed_hierarchy = -1, ed_name = -1, ed_partition = 0, ed_components = 0,
                               ed_prev = -1, ed_next = -1, ed_valid = False \<rparr>],
                   m_first_free_slot := 2 \<rparr>"
  by (simp add: freed_world_def destroyEntity_def family_world_eq detach_children.simps getFirstChild_def
      hierarchy_idx_def INVALID_ENTITY_def isValid_def Let_def setParent_def destroy_components_none
      release_slot_def)

lemma freed_world_ok: "hierarchy_ok freed_world family_rank"
  by (rule family_shape_ok)
    (simp_all add: freed_world_eq family_world_eq family_child_def family_parent_def hierarchy_idx_def)

lemma freed_world_live: "hasEntity freed_world 0" "\<not> hasEntity freed_world 2"
  by (simp_all add: freed_world_eq family_world_eq hasEntity_def)

lemma freed_world_free: "free_slot_ok freed_world" "m_first_free_slot freed_world = 2"
  by (simp_all add: freed_world_eq family_world_eq free_slot_ok_def hierarchy_idx_def)

lemma world_slots:
  "m_first_free_slot family_world < int (length (m_entities family_world))"
  "m_first_free_slot freed_world < int (length (m_entities freed_world))"
  "length (m_entities freed_world) = 3"
  by (simp_all add: freed_world_eq family_world_eq)

lemma freed_world_create: "snd (createEntity freed_world position rotation) = 2"
  by (simp add: createEntity_def Let_def split_def freed_world_free)

lemma self_parent_world_eq:
  "setParent rigid_ops 0 0 two_entities = Some self_parent_world"
  "self_parent_world =
     \<lparr> m_entities =
         [\<lparr> ed_hierarchy = 0, ed_name = -1, ed_partition = 0, ed_components = 0, ed_prev = -1, ed_next = -1, ed_valid = True \<rparr>,
          \<lparr> ed_hierarchy = -1, ed_name = -1, ed_partition = 0, ed_components = 0, ed_prev = -1, ed_next = -1, ed_valid = True \<rparr>],
       m_transforms =
         [\<lparr> tr_pos = (0, 0, 0), tr_rot = (0, 0, 0, 1), tr_scale = (1, 1, 1) \<rparr>,
          \<lparr> tr_pos = (1, 0, 0), tr_rot = (0, 0, 0, 1), tr_scale = (1, 1, 1) \<rparr>],
       m_hierarchy =
         [\<lparr> h_entity = 0, h_parent = 0, h_first_child = 0, h_next_sibling = -1,
            h_local_transform = \<lparr> tr_pos = (0, 0, 0), tr_rot = (0, 0, 0, 1), tr_scale = (1, 1, 1) \<rparr> \<rparr>],
       m_names = [], m_first_free_slot = -1, m_active_partition = 0, m_log = [] \<rparr>"
  by (simp_all add: self_parent_world_def two_entities_def createEntity_def new_World_def Let_def
      fresh_EntityData_def setParent_def isValid_def
      isDescendant_def getFirstChild_def hierarchy_idx_def INVALID_ENTITY_def isDescendant_loop.simps
      emplace_hierarchy_def set_parent_at_def hierarchy_at_def getTransform_def set_local_transform_at_def
      set_next_sibling_at_def set_first_child_at_def default_Transform_def
      rigid_ops_def rigid_mul_def rigid_inverted_def quat_rotate_def quat_mul_def vec3_add_def
      vec3_mul_def vec3_cross_def)







text \<open>
  C9. The entity that \<open>createEntity\<close> returns is live in the world that it returns, on both
  paths, provided the head of the free list is an index of the entity array. In a world
  whose hierarchy records are well formed, \<open>destroyEntity\<close> of a live entity returns (its
  loops over the children and over the siblings end) and the entity is not live in the
  world that it returns; this holds in particular for the entity that \<open>createEntity\<close> has
  just returned, in the world that it has returned, when moreover the head of the free list
  has no hierarchy record.
\<close>

theorem create_destroy_hasEntity:
  "(m_first_free_slot w < int (length (m_entities w)) \<longrightarrow>
      hasEntity (fst (createEntity w position rotation)) (snd (createEntity w position rotation)))
   \<and> (hierarchy_ok w r \<and> hasEntity w e \<longrightarrow>
        (\<exists>w'. destroyEntity ops e w = Some w' \<and> \<not> hasEntity w' e))
   \<and> (free_slot_ok w \<and> hierarchy_ok w r \<longrightarrow>
        (\<exists>w'. destroyEntity ops (snd (createEntity w position rotation))
                                (fst (createEntity w position rotation)) = Some w'
             \<and> \<not> hasEntity w' (snd (createEntity w position rotation))))"
proof (intro conjI impI)
  assume "m_first_free_slot w < int (length (m_entities w))"
  then show "hasEntity (fst (createEntity w position rotation)) (snd (createEntity w position rotation))"
    by (rule createEntity_hasEntity)
next
  assume "hierarchy_ok w r \<and> hasEntity w e"
  then show "\<exists>w'. destroyEntity ops e w = Some w' \<and> \<not> hasEntity w' e"
    using destroyEntity_removes by blast
next
  assume a: "free_slot_ok w \<and> hierarchy_ok w r"
  then have "m_first_free_slot w < int (length (m_entities w))" by (simp add: free_slot_ok_def)
  from createEntity_hasEntity [OF this] createEntity_ok [of w r position rotation] a
  show "\<exists>w'. destroyEntity ops (snd (createEntity w position rotation))
                                (fst (createEntity w position rotation)) = Some w'
             \<and> \<not> hasEntity w' (snd (createEntity w position rotation))"
    using destroyEntity_removes by blast
qed

text \<open>
  In \<open>family_world\<close>, where the free list is empty: a fourth entity is created at the end
  of the entity array and is live; the parent 0 is destroyed; the fourth entity is destroyed
  right after its creation. In \<open>freed_world\<close>, where the slot 2 is free: \<open>createEntity\<close>
  takes this slot and the entity 2 is live; the parent 0 is destroyed; the entity 2 is
  destroyed right after its creation.
\<close>

theorem create_destroy_hasEntity_witness:
  "hasEntity (fst (createEntity family_world (3, 0, 0) (0, 0, 0, 1))) (snd (createEntity family_world (3, 0, 0) (0, 0, 0, 1)))
   \<and> (\<exists>w'. destroyEntity rigid_ops 0 family_world = Some w' \<and> \<not> hasEntity w' 0)
   \<and> (\<exists>w'. destroyEntity rigid_ops (snd (createEntity family_world (3, 0, 0) (0, 0, 0, 1)))
                              (fst (createEntity family_world (3, 0, 0) (0, 0, 0, 1))) = Some w'
          \<and> \<not> hasEntity w' (snd (createEntity family_world (3, 0, 0) (0, 0, 0, 1))))
   \<and> m_first_free_slot freed_world = 2
   \<and> hasEntity (fst (createEntity freed_world (3, 0, 0) (0, 0, 0, 1))) 2
   \<and> (\<exists>w'. destroyEntity rigid_ops 0 freed_world = Some w' \<and> \<not> hasEntity w' 0)
   \<and> (\<exists>w'. destroyEntity rigid_ops 2 (fst (createEntity freed_world (3, 0, 0) (0, 0, 0, 1))) = Some w'
          \<and> \<not> hasEntity w' 2)"
  using create_destroy_hasEntity [of family_world "(3, 0, 0)" "(0, 0, 0, 1)" family_rank 0 rigid_ops]
    create_destroy_hasEntity [of freed_world "(3, 0, 0)" "(0, 0, 0, 1)" family_rank 0 rigid_ops]
  by (simp add: family_world_ok family_world_live family_world_free freed_world_ok freed_world_live
      freed_world_free freed_world_create world_slots)

text \<open>
  A world outside the invariant: in \<open>self_parent_world\<close> the entity 0 is its own parent.
  \<open>destroyEntity\<close> of this entity returns as well, the entity is not live afterwards and
  no hierarchy record is left.
\<close>

lemma destroyEntity_self_parent:
  "\<exists>w'. destroyEntity rigid_ops 0 self_parent_world = Some w' \<and> \<not> hasEntity w' 0 \<and> m_hierarchy w' = []"
  by (simp add: destroyEntity_def self_parent_world_eq(2) detach_children.simps getFirstChild_def
      getNextSibling_def hierarchy_idx_def hierarchy_at_def INVALID_ENTITY_def isValid_def Let_def setParent_def
      unlink_loop.simps set_first_child_at_def set_parent_at_def set_next_sibling_at_def
      collectGarbage_def destroy_components_none release_slot_def hasEntity_def)

end
